(* ===== verification/Prelude.thy ===== *)
theory Prelude
  imports Main "HOL-Library.Word" "HOL-Library.Monad_Syntax"
begin

text \<open>
  Shared ground of the development: the fixed-width integer types of
  \<^verbatim>\<open>include/core/types.h\<close>, the C bit-field idioms as abbreviations, the
  collections of rewrite rules that the component theories fill, and the word
  lemmas several of them use.
\<close>

unbundle bit_operations_syntax

section \<open>Integer types (include/core/types.h)\<close>

type_synonym u8 = "8 word"
type_synonym u16 = "16 word"
type_synonym u32 = "32 word"
type_synonym u64 = "64 word"
type_synonym addr_t = u32

abbreviation to8 :: "'a::len word \<Rightarrow> u8" where "to8 x \<equiv> ucast x"
abbreviation to16 :: "'a::len word \<Rightarrow> u16" where "to16 x \<equiv> ucast x"
abbreviation to32 :: "'a::len word \<Rightarrow> u32" where "to32 x \<equiv> ucast x"
abbreviation to64 :: "'a::len word \<Rightarrow> u64" where "to64 x \<equiv> ucast x"

text \<open>
  \<open>fld w s m\<close> is the C expression \<^verbatim>\<open>(w >> s) & m\<close>.  \<open>sx8\<close> and \<open>sx16\<close> are the
  cast chains \<^verbatim>\<open>(u32)(i32)(i8)(u8)v\<close> and \<^verbatim>\<open>(u32)(i32)(i16)(u16)v\<close>;
  \<open>sar v n\<close> is \<^verbatim>\<open>(u32)((i32)v >> n)\<close>.
\<close>

abbreviation fld :: "'a::len word \<Rightarrow> nat \<Rightarrow> 'a word \<Rightarrow> 'a word" where
  "fld w s m \<equiv> drop_bit s w AND m"

abbreviation sx8 :: "u32 \<Rightarrow> u32" where "sx8 v \<equiv> scast (to8 v)"
abbreviation sx16 :: "u32 \<Rightarrow> u32" where "sx16 v \<equiv> scast (to16 v)"
abbreviation sar :: "u32 \<Rightarrow> nat \<Rightarrow> u32" where "sar v n \<equiv> signed_drop_bit n v"

text \<open>A C condition used as the number 0 or 1.\<close>

definition b2w :: "bool \<Rightarrow> 'a::len word" where
  "b2w b = (if b then 1 else 0)"

lemma b2w_simps [simp]: "b2w True = 1" "b2w False = 0"
  by (simp_all add: b2w_def)

section \<open>Rule collections\<close>

named_theorems reg_simps \<open>reading a register or a field back after an update\<close>
named_theorems exec_defs \<open>the parts of the executor's switch\<close>
named_theorems decode_defs \<open>the parts of the decoder\<close>
named_theorems dev_defs \<open>the MMIO callbacks of the peripherals\<close>

section \<open>Bits of words\<close>

lemma bit_mask_eq: "bit (w :: 'a::len word) n \<longleftrightarrow> w AND push_bit n 1 \<noteq> 0" (is "?l = ?r")
proof
  assume ?l
  then have "n < LENGTH('a)" by (simp add: bit_imp_le_length)
  with \<open>?l\<close> have "bit (w AND push_bit n 1) n" by (simp add: bit_simps)
  then show ?r by auto
next
  assume ?r
  then obtain k where "bit (w AND push_bit n 1) k"
    using bit_eqI [of "w AND push_bit n 1" 0] by auto
  then show ?l by (auto simp: bit_simps)
qed

lemma bit31_ge: "bit (w :: u32) 31 \<longleftrightarrow> 2 ^ 31 \<le> unat w"
proof -
  have "bit w 31 \<longleftrightarrow> bit (unat w) 31" by (simp add: bit_simps)
  then have "bit w 31 \<longleftrightarrow> odd (unat w div 2 ^ 31)" by (simp only: bit_iff_odd)
  moreover have "unat w < 2 ^ 32" using unsigned_less [of w] by simp
  ultimately show ?thesis by (auto simp: odd_iff_mod_2_eq_one)
qed

text \<open>Shifts by one stay shifts: the component proofs reason about their bits.\<close>

declare push_bit_Suc [simp del] drop_bit_Suc [simp del]

lemma u8_eq_iff: "(a :: u8) = b \<longleftrightarrow> bit a 0 = bit b 0 \<and> bit a 1 = bit b 1 \<and> bit a 2 = bit b 2 \<and>
    bit a 3 = bit b 3 \<and> bit a 4 = bit b 4 \<and> bit a 5 = bit b 5 \<and> bit a 6 = bit b 6 \<and> bit a 7 = bit b 7" (is "_ = ?r")
proof
  assume ?r
  show "a = b"
  proof (rule bit_word_eqI)
    fix n assume "n < LENGTH(8)"
    then have "n \<in> {0,1,2,3,4,5,6,7}" by auto
    with \<open>?r\<close> show "bit a n = bit b n" by auto
  qed
qed simp

section \<open>Values of 32-bit words\<close>

lemma unat_lt32: "unat (w :: u32) < 2 ^ 32"
  using unsigned_less [of w] by simp
lemma uint_lt32: "uint (w :: u32) < 2 ^ 32"
  using unsigned_less [of w, where ?'a = int] by simp
lemma int_mod_upper: "k \<le> y \<Longrightarrow> y < 2 * k \<Longrightarrow> y mod k = y - (k :: int)"
  using mod_pos_pos_trivial [of "y - k" k] by simp
lemma sint_unat32: "sint (w :: u32) = (if 2 ^ 31 \<le> unat w then int (unat w) - 2 ^ 32 else int (unat w))"
proof -
  have lt: "int (unat w) < 2 ^ 32" using uint_lt32 [of w] by simp
  have "sint w = signed_take_bit 31 (uint w)" by (simp add: sint_uint)
  also have "\<dots> = (int (unat w) + 2 ^ 31) mod 2 ^ 32 - 2 ^ 31"
    by (simp add: signed_take_bit_eq_take_bit_shift take_bit_eq_mod)
  finally have s: "sint w = (int (unat w) + 2 ^ 31) mod 2 ^ 32 - 2 ^ 31" .
  show ?thesis
  proof (cases "2 ^ 31 \<le> unat w")
    case True
    then have "int (2 ^ 31) \<le> int (unat w)" by (simp only: of_nat_le_iff)
    then show ?thesis using s True lt int_mod_upper [of "2 ^ 32" "int (unat w) + 2 ^ 31"] by simp
  next
    case False
    then have "int (unat w) < int (2 ^ 31)" by (simp only: of_nat_less_iff not_le)
    then show ?thesis using s False mod_pos_pos_trivial [of "int (unat w) + 2 ^ 31" "2 ^ 32"] by simp
  qed
qed
lemma to8_to32 [simp]: "to8 (to32 (m :: u8)) = m"
  by (rule bit_word_eqI) (simp add: bit_simps)

lemma unat_to64: "unat (to64 (a :: u32)) = unat a"
  using unat_lt32 [of a] by (simp add: unsigned_ucast_eq take_bit_nat_eq_self)

lemma unat_add3: "unat (a + b + b2w c :: u32) = (unat a + unat b + of_bool c) mod 2 ^ 32"
  by (cases c) (simp_all add: unat_word_ariths mod_simps)
lemma carry_add: "drop_bit 32 (to64 (a::u32) + to64 (b::u32) + (if ci then 1 else 0)) \<noteq> 0 \<longleftrightarrow> 2 ^ 32 \<le> unat a + unat b + of_bool ci"
proof -
  let ?e = "to64 a + to64 b + (if ci then 1 else 0)"
  have a: "unat a < 2 ^ 32" and b: "unat b < 2 ^ 32" using unsigned_less [of a] unsigned_less [of b] by simp_all
  have e: "unat ?e = unat a + unat b + of_bool ci"
    using a b by (simp add: unat_word_ariths unat_to64)
  have "drop_bit 32 ?e \<noteq> 0 \<longleftrightarrow> unat (drop_bit 32 ?e) \<noteq> 0" by (simp only: unat_eq_0 not_False_eq_True)
  also have "\<dots> \<longleftrightarrow> unat ?e div 2 ^ 32 \<noteq> 0" unfolding unat_drop_bit_eq by (simp only: drop_bit_eq_div)
  finally show ?thesis unfolding e by (simp add: div_eq_0_iff not_less)
qed

lemma sign_of_difference:
  fixes a b :: u32
  shows "(sint (a - b) < 0) = (sint (a - b) \<noteq> sint a - sint b) \<longleftrightarrow> sint b \<le> sint a"
proof -
  have "unat (a - b) = (if unat b \<le> unat a then unat a - unat b else unat a + 2 ^ 32 - unat b)"
    by (simp add: unat_sub_if')
  then show ?thesis
    using unat_lt32 [of a] unat_lt32 [of b]
    by (auto simp: sint_unat32 uint_nat simp del: of_nat_unat split: if_splits)
qed

lemma sint_eq_iff32: "sint (a :: u32) = sint b \<longleftrightarrow> a = b"
  by (auto intro: signed_word_eqI)

end
