(* ===== verification/Systick.thy ===== *)
theory Systick
  imports Prelude
begin

text \<open>
  The SysTick timer and the DWT cycle counter (\<^verbatim>\<open>src/periph/systick.c\<close>,
  \<^verbatim>\<open>src/periph/dwt.c\<close>): register callbacks, the counter advance, and the law that both
  counters may be advanced in batches, which is what the run loop does after a chain of
  compiled blocks.
\<close>

section \<open>SysTick\<close>

record systick_t =
  csr :: u32
  rvr :: u32
  cvr :: u32
  count_flag :: bool
  irq_pending :: bool

definition systick_init :: systick_t where
  "systick_init = \<lparr>csr = 0, rvr = 0, cvr = 0, count_flag = False, irq_pending = False\<rparr>"

definition st_read :: "systick_t \<Rightarrow> u32 \<Rightarrow> u32 \<times> systick_t" where
  "st_read t off =
     (if off = 0x00 then
        (if count_flag t then (csr t OR 0x10000, t\<lparr>count_flag := False\<rparr>) else (csr t, t))
      else if off = 0x04 then (rvr t, t)
      else if off = 0x08 then (cvr t AND 0x00FFFFFF, t)
      else (0, t))"

definition st_write :: "systick_t \<Rightarrow> u32 \<Rightarrow> u32 \<Rightarrow> systick_t" where
  "st_write t off val =
     (if off = 0x00 then t\<lparr>csr := val AND 0x07\<rparr>
      else if off = 0x04 then t\<lparr>rvr := val AND 0x00FFFFFF\<rparr>
      else if off = 0x08 then t\<lparr>cvr := 0, count_flag := False\<rparr>
      else t)"

text \<open>The wrap of the counter: raise COUNTFLAG and, with TICKINT set, the interrupt.\<close>

definition st_wrap :: "systick_t \<Rightarrow> systick_t" where
  "st_wrap t = (let t = t\<lparr>count_flag := True\<rparr>
                in if csr t AND 2 \<noteq> 0 then t\<lparr>irq_pending := True\<rparr> else t)"

text \<open>The \<^verbatim>\<open>while (cycles)\<close> loop over the local \<^verbatim>\<open>cvr\<close>.\<close>

function st_count :: "systick_t \<Rightarrow> u32 \<Rightarrow> u32 \<Rightarrow> systick_t \<times> u32" where
  "st_count t cyc cv =
     (if cyc = 0 then (t, cv)
      else if cv = 0 then (t, cv)
      else if cyc \<ge> cv then
        (let cv' = rvr t; t' = st_wrap t
         in if cv' = 0 then (t', cv') else st_count t' (cyc - cv) cv')
      else st_count t 0 (cv - cyc))"
  by pat_completeness auto
termination
proof (relation "measure (\<lambda>(t, cyc, cv). unat cyc)", goal_cases)
  case (2 t cyc cv)
  then have "unat cv \<le> unat cyc" "0 < unat cv" by (simp_all add: word_le_nat_alt unat_gt_0)
  then show ?case using 2 by (simp add: unat_sub word_le_nat_alt)
qed (simp_all add: unat_gt_0)

declare st_count.simps [simp del]

definition systick_tick :: "systick_t \<Rightarrow> u32 \<Rightarrow> systick_t" where
  "systick_tick t cyc =
     (if csr t AND 1 = 0 then t
      else let cv = (if cvr t = 0 then rvr t else cvr t);
               (t', cv') = st_count t cyc cv
           in t'\<lparr>cvr := cv'\<rparr>)"

section \<open>DWT\<close>

record dwt_t =
  dwt_ctrl :: u32
  cyccnt :: u32
  demcr :: u32

definition dwt_init :: dwt_t where
  "dwt_init = \<lparr>dwt_ctrl = 0, cyccnt = 0, demcr = 0\<rparr>"

definition dwt_read :: "dwt_t \<Rightarrow> u32 \<Rightarrow> u32" where
  "dwt_read d off = (if off = 0x00 then dwt_ctrl d else if off = 0x04 then cyccnt d else 0)"

definition dwt_write :: "dwt_t \<Rightarrow> u32 \<Rightarrow> u32 \<Rightarrow> dwt_t" where
  "dwt_write d off v =
     (if off = 0x00 then d\<lparr>dwt_ctrl := v\<rparr> else if off = 0x04 then d\<lparr>cyccnt := v\<rparr> else d)"

definition demcr_read :: "dwt_t \<Rightarrow> u32 \<Rightarrow> u32" where
  "demcr_read d off = (if off = 0x00 then demcr d else 0)"

definition demcr_write :: "dwt_t \<Rightarrow> u32 \<Rightarrow> u32 \<Rightarrow> dwt_t" where
  "demcr_write d off v = (if off = 0x00 then d\<lparr>demcr := v\<rparr> else d)"

definition dwt_tick :: "dwt_t \<Rightarrow> dwt_t" where
  "dwt_tick d = (if dwt_ctrl d AND 1 \<noteq> 0 \<and> demcr d AND 0x1000000 \<noteq> 0
                 then d\<lparr>cyccnt := cyccnt d + 1\<rparr> else d)"

text \<open>The batch update that the run loop makes after a chain of compiled blocks.\<close>

definition dwt_batch :: "dwt_t \<Rightarrow> u32 \<Rightarrow> dwt_t" where
  "dwt_batch d n = (if dwt_ctrl d AND 1 \<noteq> 0 \<and> demcr d AND 0x1000000 \<noteq> 0
                    then d\<lparr>cyccnt := cyccnt d + n\<rparr> else d)"

section \<open>Batching\<close>

text \<open>
  The contract of a counter that the run loop may advance by one step at a time or by a
  whole batch: advancing by a sum is advancing twice, as long as the sum does not wrap.
\<close>

locale tick_counter =
  fixes tick :: "'t \<Rightarrow> u32 \<Rightarrow> 't"
  assumes tick_add: "unat a + unat b < 2 ^ 32 \<Longrightarrow> tick t (a + b) = tick (tick t a) b"
begin

lemma tick_singles:
  assumes "0 < n" "n < 2 ^ 32"
  shows "tick t (of_nat n) = ((\<lambda>u. tick u 1) ^^ n) t"
  using assms
proof (induction n rule: nat_induct_non_zero)
  case 1
  then show ?case by simp
next
  case (Suc n)
  have n: "unat (of_nat n :: u32) = n" using Suc.prems by (simp add: unsigned_of_nat take_bit_nat_eq_self)
  have "tick t (of_nat (Suc n)) = tick t (of_nat n + 1)" by (simp add: add.commute)
  also have "\<dots> = tick (tick t (of_nat n)) 1"
    using Suc.prems n by (intro tick_add) simp
  also have "tick t (of_nat n) = ((\<lambda>u. tick u 1) ^^ n) t"
    using Suc.IH Suc.prems by simp
  finally show ?case by simp
qed

lemma tick_list:
  assumes "sum_list (map unat ns) < 2 ^ 32" "ns \<noteq> []"
  shows "tick t (sum_list ns) = fold (\<lambda>n u. tick u n) ns t"
  using assms
proof (induction ns arbitrary: t)
  case (Cons n ns)
  show ?case
  proof (cases "ns = []")
    case False
    have le: "unat (sum_list ns) \<le> sum_list (map unat ns)"
    proof (induction ns)
      case (Cons m ms)
      have "unat (m + sum_list ms) \<le> unat m + unat (sum_list ms)"
        by (simp add: unat_word_ariths)
      with Cons.IH show ?case by simp
    qed simp
    have "tick t (n + sum_list ns) = tick (tick t n) (sum_list ns)"
      using le Cons.prems by (intro tick_add) simp
    also have "\<dots> = fold (\<lambda>n u. tick u n) ns (tick t n)"
      using Cons.prems False by (intro Cons.IH) simp_all
    finally show ?thesis by simp
  qed simp
qed simp

end

interpretation dwt: tick_counter dwt_batch
  by unfold_locales (simp add: dwt_batch_def)

lemma dwt_batch_1: "dwt_batch d 1 = dwt_tick d"
  by (simp add: dwt_batch_def dwt_tick_def)

section \<open>The SysTick counter\<close>

lemma st_wrap_frame [simp]:
  "rvr (st_wrap t) = rvr t" "csr (st_wrap t) = csr t" "cvr (st_wrap t) = cvr t"
  "st_wrap (st_wrap t) = st_wrap t"
  by (simp_all add: st_wrap_def Let_def)

lemma st_count_zero [simp]: "st_count t 0 cv = (t, cv)" "st_count t n 0 = (t, 0)"
  by (simp_all add: st_count.simps)

lemma st_count_ge:
  "cv \<noteq> 0 \<Longrightarrow> cv \<le> n \<Longrightarrow> st_count t n cv = st_count (st_wrap t) (n - cv) (rvr t)"
  by (subst st_count.simps) (auto simp: Let_def)

lemma st_count_lt: "n < cv \<Longrightarrow> st_count t n cv = (t, cv - n)"
  by (subst st_count.simps) auto

lemma st_count_frame: "rvr (fst (st_count t n cv)) = rvr t \<and> csr (fst (st_count t n cv)) = csr t"
proof (induction t n cv rule: st_count.induct)
  case (1 t n cv)
  show ?case
  proof (cases "cv = 0 \<or> n < cv")
    case True
    then show ?thesis by (auto simp: st_count_lt)
  next
    case False
    then show ?thesis using 1 by (cases "n = 0"; cases "rvr t = 0") (auto simp: st_count_ge Let_def)
  qed
qed

lemma st_count_add:
  "unat a + unat b < 2 ^ 32 \<Longrightarrow>
   st_count t (a + b) cv = (case st_count t a cv of (t', cv') \<Rightarrow> st_count t' b cv')"
proof (induction t a cv rule: st_count.induct)
  case (1 t a cv)
  have ab: "unat (a + b) = unat a + unat b"
    using "1.prems" by (simp add: unat_word_ariths)
  show ?case
  proof (cases "cv = 0 \<or> a = 0")
    case True
    then show ?thesis by auto
  next
    case nz: False
    show ?thesis
    proof (cases "cv \<le> a")
      case True
      then have le: "cv \<le> a + b" using ab by (simp add: word_le_nat_alt)
      have eq: "a + b - cv = (a - cv) + b" by simp
      have lt: "unat (a - cv) + unat b < 2 ^ 32"
        using True "1.prems" by (simp add: word_le_nat_alt unat_sub)
      show ?thesis
      proof (cases "rvr t = 0")
        case True
        then show ?thesis using nz le \<open>cv \<le> a\<close> by (simp add: st_count_ge)
      next
        case False
        then have "st_count (st_wrap t) ((a - cv) + b) (rvr t) =
            (case st_count (st_wrap t) (a - cv) (rvr t) of (t', cv') \<Rightarrow> st_count t' b cv')"
          using nz \<open>cv \<le> a\<close> by (intro "1.IH"(1) lt) auto
        moreover have "cv \<noteq> 0" using nz by simp
        ultimately show ?thesis
          using le \<open>cv \<le> a\<close> by (metis st_count_ge eq)
      qed
    next
      case False
      then have lt: "a < cv" by simp
      then have sub: "unat (cv - a) = unat cv - unat a" by (simp add: unat_sub word_less_nat_alt word_le_nat_alt)
      show ?thesis
      proof (cases "cv \<le> a + b")
        case True
        have "cv - a \<noteq> 0" using lt by auto
        moreover have "cv - a \<le> b"
          using lt True ab sub by (simp add: word_le_nat_alt word_less_nat_alt)
        moreover have eq: "a + b - cv = b - (cv - a)" by (simp add: algebra_simps)
        ultimately show ?thesis
          using True nz lt unfolding st_count_lt [OF lt]
          by (simp add: st_count_ge del: eq_iff_diff_eq_0) (simp only: eq)
      next
        case False
        then have "b < cv - a" using ab sub by (simp add: word_le_nat_alt word_less_nat_alt)
        then show ?thesis using False lt by (simp add: st_count_lt not_le algebra_simps)
      qed
    qed
  qed
qed

lemma st_count_closed:
  assumes "rvr t \<noteq> 0" "cv \<noteq> 0"
  shows "fst (st_count t n cv) = (if n < cv then t else st_wrap t) \<and>
    unat (snd (st_count t n cv)) =
      (if n < cv then unat cv - unat n
       else unat (rvr t) - (unat n - unat cv) mod unat (rvr t))"
  using assms
proof (induction t n cv rule: st_count.induct)
  case (1 t n cv)
  show ?case
  proof (cases "n < cv")
    case True
    then show ?thesis by (simp add: st_count_lt unat_sub word_less_nat_alt word_le_nat_alt)
  next
    case False
    let ?m = "n - cv" and ?R = "rvr t"
    have m: "unat ?m = unat n - unat cv" using False by (simp add: unat_sub not_less)
    have R: "0 < unat ?R" using "1.prems" by (simp add: unat_gt_0)
    have "n \<noteq> 0" using False "1.prems" by (auto simp: word_neq_0_conv)
    then have IH: "fst (st_count (st_wrap t) ?m ?R) = (if ?m < ?R then st_wrap t else st_wrap (st_wrap t)) \<and>
      unat (snd (st_count (st_wrap t) ?m ?R)) =
        (if ?m < ?R then unat ?R - unat ?m else unat ?R - (unat ?m - unat ?R) mod unat ?R)"
    proof -
      have "fst (st_count (st_wrap t) ?m ?R) = (if ?m < ?R then st_wrap t else st_wrap (st_wrap t)) \<and>
        unat (snd (st_count (st_wrap t) ?m ?R)) =
          (if ?m < ?R then unat ?R - unat ?m
           else unat (rvr (st_wrap t)) - (unat ?m - unat ?R) mod unat (rvr (st_wrap t)))"
        using \<open>n \<noteq> 0\<close> "1.prems" False by (intro "1.IH"(1)) (auto simp: not_less)
      then show ?thesis by (simp only: st_wrap_frame)
    qed
    have "unat ?m mod unat ?R = (if ?m < ?R then unat ?m else (unat ?m - unat ?R) mod unat ?R)"
      by (simp add: word_less_nat_alt le_mod_geq)
    moreover have "st_count t n cv = st_count (st_wrap t) ?m ?R"
      using False "1.prems" by (simp add: st_count_ge not_less)
    ultimately show ?thesis using IH False m by (cases "?m < ?R") simp_all
  qed
qed

lemma st_count_pos:
  assumes "rvr t \<noteq> 0" "cv \<noteq> 0"
  shows "snd (st_count t n cv) \<noteq> 0"
proof -
  have "0 < unat (rvr t)" using assms by (simp add: unat_gt_0)
  then have "(unat n - unat cv) mod unat (rvr t) < unat (rvr t)" by simp
  then have "0 < unat (snd (st_count t n cv))"
    using st_count_closed [OF assms, of n] by (cases "n < cv") (simp_all add: word_less_nat_alt)
  then show ?thesis by (auto simp: unat_gt_0)
qed

lemma st_wrap_cvr: "st_wrap (u\<lparr>cvr := x\<rparr>) = (st_wrap u)\<lparr>cvr := x\<rparr>"
  by (simp add: st_wrap_def Let_def)

lemma st_count_cvr:
  "st_count (u\<lparr>cvr := x\<rparr>) n c = (case st_count u n c of (u', c') \<Rightarrow> (u'\<lparr>cvr := x\<rparr>, c'))"
proof (induction u n c rule: st_count.induct)
  case (1 u n c)
  show ?case
  proof (cases "c = 0 \<or> n < c \<or> n = 0")
    case True
    then show ?thesis by (auto simp: st_count_lt)
  next
    case nz: False
    then have c: "c \<noteq> 0" "c \<le> n" by auto
    show ?thesis
    proof (cases "rvr u = 0")
      case True
      then show ?thesis using c by (simp add: st_count_ge st_wrap_cvr)
    next
      case False
      have "st_count ((st_wrap u)\<lparr>cvr := x\<rparr>) (n - c) (rvr u) =
          (case st_count (st_wrap u) (n - c) (rvr u) of (u', c') \<Rightarrow> (u'\<lparr>cvr := x\<rparr>, c'))"
        using nz c False by (intro "1.IH"(1)) auto
      then show ?thesis using c by (simp add: st_count_ge st_wrap_cvr)
    qed
  qed
qed

text \<open>
  The counter may be advanced in batches.  A batch of \<open>a + b\<close> cycles leaves SysTick,
  its flags and its pending interrupt exactly as two batches of \<open>a\<close> and \<open>b\<close>.
\<close>

lemma systick_tick_batch:
  assumes "unat a + unat b < 2 ^ 32"
  shows "systick_tick t (a + b) = systick_tick (systick_tick t a) b"
proof (cases "csr t AND 1 = 0")
  case True
  then show ?thesis by (simp add: systick_tick_def)
next
  case False
  let ?cv = "if cvr t = 0 then rvr t else cvr t"
  obtain t' cv' where a: "st_count t a ?cv = (t', cv')" by (cases "st_count t a ?cv")
  have fr: "rvr t' = rvr t" "csr t' = csr t" using st_count_frame [of t a ?cv] a by simp_all
  have z: "cv' = 0 \<Longrightarrow> rvr t = 0"
    using a st_count_pos [of t ?cv a] by (cases "rvr t = 0") (simp_all split: if_splits)
  have first: "systick_tick t a = t'\<lparr>cvr := cv'\<rparr>"
    using False a by (simp add: systick_tick_def)
  obtain u d where u: "st_count t' b cv' = (u, d)" by (cases "st_count t' b cv'")
  have "st_count t (a + b) ?cv = (u, d)"
    using st_count_add [OF assms, of t ?cv] a u by simp
  then have "systick_tick t (a + b) = u\<lparr>cvr := d\<rparr>" using False by (simp add: systick_tick_def)
  moreover have "systick_tick (t'\<lparr>cvr := cv'\<rparr>) b = u\<lparr>cvr := d\<rparr>"
    using False fr z u by (cases "cv' = 0") (simp_all add: systick_tick_def st_count_cvr)
  ultimately show ?thesis using first by simp
qed

interpretation systick: tick_counter systick_tick
  by unfold_locales (rule systick_tick_batch)

text \<open>
  Closed form.  An enabled timer with a reload value \<open>R\<close> and \<open>c\<close> cycles to go wraps
  exactly when the batch reaches \<open>c\<close>; the wrap raises COUNTFLAG and, with TICKINT, the
  interrupt, and the counter then runs with period \<open>R\<close>.
\<close>

lemma systick_tick_closed:
  assumes "csr t AND 1 \<noteq> 0" "rvr t \<noteq> 0"
  defines "c \<equiv> if cvr t = 0 then rvr t else cvr t"
  shows "unat (cvr (systick_tick t n)) =
      (if n < c then unat c - unat n else unat (rvr t) - (unat n - unat c) mod unat (rvr t)) \<and>
    count_flag (systick_tick t n) = (count_flag t \<or> c \<le> n) \<and>
    irq_pending (systick_tick t n) = (irq_pending t \<or> (c \<le> n \<and> csr t AND 2 \<noteq> 0)) \<and>
    csr (systick_tick t n) = csr t \<and> rvr (systick_tick t n) = rvr t"
proof -
  have "c \<noteq> 0" using assms(2) by (simp add: c_def)
  have w: "count_flag (st_wrap t)" "irq_pending (st_wrap t) = (irq_pending t \<or> csr t AND 2 \<noteq> 0)"
    by (simp_all add: st_wrap_def Let_def)
  obtain t' c' where e: "st_count t n c = (t', c')" by (cases "st_count t n c")
  have "systick_tick t n = t'\<lparr>cvr := c'\<rparr>"
    using assms(1) e by (simp add: systick_tick_def c_def)
  then show ?thesis
    using st_count_closed [OF assms(2) \<open>c \<noteq> 0\<close>, of n] e w by (auto simp: not_less)
qed

end
