(* ===== verification/Nvic.thy ===== *)
theory Nvic
  imports Prelude
begin

text \<open>
  The interrupt controller (\<^verbatim>\<open>src/core/nvic.c\<close>): its registers, the operations on
  pending and active bits and the choice of the next interrupt, with the lemmas that the
  choice is a ready line of minimal priority value and that set and clear touch one line.
\<close>

section \<open>State and operations\<close>

record nvic_t =
  nv_enable :: "u32 \<Rightarrow> u32"
  nv_pending :: "u32 \<Rightarrow> u32"
  nv_active :: "u32 \<Rightarrow> u32"
  nv_prio :: "u32 \<Rightarrow> u8"

abbreviation (input) NVIC_IRQ_LINES :: u32 where "NVIC_IRQ_LINES \<equiv> 240"

definition nvic_init :: nvic_t where
  "nvic_init = \<lparr>nv_enable = (\<lambda>_. 0), nv_pending = (\<lambda>_. 0), nv_active = (\<lambda>_. 0), nv_prio = (\<lambda>_. 0)\<rparr>"

definition nvic_read :: "nvic_t \<Rightarrow> u32 \<Rightarrow> u32" where
  "nvic_read n off =
     (if off < 0x80 then nv_enable n (fld off 2 7)
      else if off < 0x100 then nv_enable n (fld (off - 0x80) 2 7)
      else if off < 0x180 then nv_pending n (fld (off - 0x100) 2 7)
      else if off < 0x200 then nv_pending n (fld (off - 0x180) 2 7)
      else if off < 0x280 then nv_active n (fld (off - 0x200) 2 7)
      else if off \<ge> 0x300 \<and> off < 0x300 + NVIC_IRQ_LINES then to32 (nv_prio n (off - 0x300))
      else 0)"

definition nvic_write :: "nvic_t \<Rightarrow> u32 \<Rightarrow> u32 \<Rightarrow> nvic_t" where
  "nvic_write n off v =
     (if off < 0x80 then
        (let k = fld off 2 7 in n\<lparr>nv_enable := (nv_enable n)(k := nv_enable n k OR v)\<rparr>)
      else if off < 0x100 then
        (let k = fld (off - 0x80) 2 7 in n\<lparr>nv_enable := (nv_enable n)(k := nv_enable n k AND NOT v)\<rparr>)
      else if off < 0x180 then
        (let k = fld (off - 0x100) 2 7 in n\<lparr>nv_pending := (nv_pending n)(k := nv_pending n k OR v)\<rparr>)
      else if off < 0x200 then
        (let k = fld (off - 0x180) 2 7 in n\<lparr>nv_pending := (nv_pending n)(k := nv_pending n k AND NOT v)\<rparr>)
      else if off \<ge> 0x300 \<and> off < 0x300 + NVIC_IRQ_LINES then
        n\<lparr>nv_prio := (nv_prio n)(off - 0x300 := to8 v)\<rparr>
      else n)"

text \<open>\<open>irq_bit irq\<close> is \<^verbatim>\<open>1u << (irq & 31)\<close>.\<close>

definition irq_bit :: "u32 \<Rightarrow> u32" where
  "irq_bit irq = push_bit (unat (irq AND 31)) 1"

definition nvic_set_pending :: "nvic_t \<Rightarrow> u32 \<Rightarrow> nvic_t" where
  "nvic_set_pending n irq = (if irq < NVIC_IRQ_LINES
     then let w = drop_bit 5 irq in n\<lparr>nv_pending := (nv_pending n)(w := nv_pending n w OR irq_bit irq)\<rparr>
     else n)"

definition nvic_clear_pending :: "nvic_t \<Rightarrow> u32 \<Rightarrow> nvic_t" where
  "nvic_clear_pending n irq = (if irq < NVIC_IRQ_LINES
     then let w = drop_bit 5 irq in n\<lparr>nv_pending := (nv_pending n)(w := nv_pending n w AND NOT (irq_bit irq))\<rparr>
     else n)"

definition nvic_set_active :: "nvic_t \<Rightarrow> u32 \<Rightarrow> nvic_t" where
  "nvic_set_active n irq = (if irq < NVIC_IRQ_LINES
     then let w = drop_bit 5 irq in n\<lparr>nv_active := (nv_active n)(w := nv_active n w OR irq_bit irq)\<rparr>
     else n)"

definition nvic_clear_active :: "nvic_t \<Rightarrow> u32 \<Rightarrow> nvic_t" where
  "nvic_clear_active n irq = (if irq < NVIC_IRQ_LINES
     then let w = drop_bit 5 irq in n\<lparr>nv_active := (nv_active n)(w := nv_active n w AND NOT (irq_bit irq))\<rparr>
     else n)"

text \<open>
  The scan of \<^verbatim>\<open>nvic_pick\<close>.  \<^verbatim>\<open>__builtin_ctz\<close> and \<^verbatim>\<open>ready &= ready - 1\<close> visit the set
  bits of \<^verbatim>\<open>ready\<close> from the lowest up, so the inner loop is a walk over the set bit
  numbers.  A line of 240 or more has no entry in \<^verbatim>\<open>prio[240]\<close>: reading it is
  undefined in C, and the result is \<open>None\<close>.  The inner \<open>None\<close> stands for -1.
\<close>

definition nvic_ready :: "nvic_t \<Rightarrow> u32 \<Rightarrow> u32" where
  "nvic_ready n w = nv_enable n w AND nv_pending n w AND NOT (nv_active n w)"

definition ready_lines :: "nvic_t \<Rightarrow> u32 list" where
  "ready_lines n = concat (map (\<lambda>w. map (\<lambda>b. of_nat w * 32 + of_nat b)
     (List.filter (\<lambda>b. bit (nvic_ready n (of_nat w)) b) [0..<32])) [0..<8])"

fun pick_loop :: "nvic_t \<Rightarrow> u32 list \<Rightarrow> u32 option \<Rightarrow> u8 \<Rightarrow> u32 option option" where
  "pick_loop n [] best best_prio = Some best"
| "pick_loop n (irq # irqs) best best_prio =
     (if irq < NVIC_IRQ_LINES then
        (if nv_prio n irq < best_prio then pick_loop n irqs (Some irq) (nv_prio n irq)
         else pick_loop n irqs best best_prio)
      else None)"

definition nvic_pick :: "nvic_t \<Rightarrow> u32 option option" where
  "nvic_pick n = pick_loop n (ready_lines n) None 0xFF"

section \<open>Lemmas\<close>

text \<open>The state of one line.\<close>

definition line :: "(u32 \<Rightarrow> u32) \<Rightarrow> u32 \<Rightarrow> bool" where
  "line f irq = bit (f (drop_bit 5 irq)) (unat (irq AND 31))"

definition is_ready :: "nvic_t \<Rightarrow> u32 \<Rightarrow> bool" where
  "is_ready n irq \<longleftrightarrow> line (nv_enable n) irq \<and> line (nv_pending n) irq \<and> \<not> line (nv_active n) irq"

lemma irq_split:
  fixes irq :: u32
  shows "unat (irq AND 31) = unat irq mod 32" "unat (drop_bit 5 irq) = unat irq div 32"
proof -
  have "irq AND 31 = take_bit 5 irq" by (simp add: take_bit_eq_mask mask_eq_exp_minus_1)
  then have "unat (irq AND 31) = take_bit 5 (unat irq)"
    by (simp only: unsigned_take_bit_eq)
  then show "unat (irq AND 31) = unat irq mod 32" by (simp add: take_bit_eq_mod)
  show "unat (drop_bit 5 irq) = unat irq div 32"
    unfolding unat_drop_bit_eq by (simp only: drop_bit_eq_div) simp
qed

lemma bit_irq_bit: "bit (irq_bit irq) k \<longleftrightarrow> k = unat irq mod 32"
  by (auto simp: irq_bit_def bit_simps irq_split)

lemma same_line:
  fixes i j :: u32
  shows "drop_bit 5 i = drop_bit 5 j \<and> unat i mod 32 = unat j mod 32 \<longleftrightarrow> i = j"
proof
  assume a: "drop_bit 5 i = drop_bit 5 j \<and> unat i mod 32 = unat j mod 32"
  then have "unat i div 32 = unat j div 32" by (metis irq_split(2))
  then have "unat i = unat j" using a by (metis div_mult_mod_eq)
  then show "i = j" by (simp add: unsigned_word_eqI)
qed simp

lemma line_set: "line (f(drop_bit 5 i := f (drop_bit 5 i) OR irq_bit i)) j \<longleftrightarrow> line f j \<or> i = j"
  using same_line [of i j] by (auto simp: line_def bit_simps bit_irq_bit irq_split)

lemma line_clear: "line (f(drop_bit 5 i := f (drop_bit 5 i) AND NOT (irq_bit i))) j \<longleftrightarrow> line f j \<and> i \<noteq> j"
  using same_line [of i j] by (auto simp: line_def bit_simps bit_irq_bit irq_split)

lemma nvic_lines [simp]:
  assumes "i < 240"
  shows "line (nv_pending (nvic_set_pending n i)) j \<longleftrightarrow> line (nv_pending n) j \<or> i = j"
    "line (nv_pending (nvic_clear_pending n i)) j \<longleftrightarrow> line (nv_pending n) j \<and> i \<noteq> j"
    "line (nv_active (nvic_set_active n i)) j \<longleftrightarrow> line (nv_active n) j \<or> i = j"
    "line (nv_active (nvic_clear_active n i)) j \<longleftrightarrow> line (nv_active n) j \<and> i \<noteq> j"
  using assms
  by (simp_all add: nvic_set_pending_def nvic_clear_pending_def nvic_set_active_def
      nvic_clear_active_def Let_def line_set line_clear)

section \<open>The choice of the next interrupt\<close>

lemma pick_loop_keep:
  "\<forall>i\<in>set l. i < 240 \<and> bp \<le> nv_prio n i \<Longrightarrow> pick_loop n l best bp = Some best"
  by (induction l) (auto simp: not_less)

lemma pick_loop_min:
  assumes "\<forall>i\<in>set l. i < 240" "sorted l" "\<exists>i\<in>set l. nv_prio n i < bp"
  shows "\<exists>i. pick_loop n l best bp = Some (Some i) \<and> i \<in> set l \<and> nv_prio n i < bp \<and>
    (\<forall>j\<in>set l. nv_prio n i \<le> nv_prio n j \<and> (nv_prio n j = nv_prio n i \<longrightarrow> i \<le> j))"
  using assms
proof (induction l arbitrary: best bp)
  case (Cons x l)
  show ?case
  proof (cases "nv_prio n x < bp")
    case False
    then have ex: "\<exists>i\<in>set l. nv_prio n i < bp" using Cons.prems by auto
    then obtain i where "pick_loop n l best bp = Some (Some i)" "i \<in> set l" "nv_prio n i < bp"
      "\<forall>j\<in>set l. nv_prio n i \<le> nv_prio n j \<and> (nv_prio n j = nv_prio n i \<longrightarrow> i \<le> j)"
      using Cons.IH [of bp best] Cons.prems by auto
    then show ?thesis using False Cons.prems by (intro exI [of _ i]) auto
  next
    case lt: True
    show ?thesis
    proof (cases "\<exists>i\<in>set l. nv_prio n i < nv_prio n x")
      case True
      then obtain i where "pick_loop n l (Some x) (nv_prio n x) = Some (Some i)" "i \<in> set l"
        "nv_prio n i < nv_prio n x"
        "\<forall>j\<in>set l. nv_prio n i \<le> nv_prio n j \<and> (nv_prio n j = nv_prio n i \<longrightarrow> i \<le> j)"
        using Cons.IH [of "nv_prio n x" "Some x"] Cons.prems by auto
      then show ?thesis using lt Cons.prems by (intro exI [of _ i]) auto
    next
      case False
      then have "pick_loop n l (Some x) (nv_prio n x) = Some (Some x)"
        using Cons.prems by (intro pick_loop_keep) (auto simp: not_less)
      then show ?thesis using lt False Cons.prems by (intro exI [of _ x]) (auto simp: not_less)
    qed
  qed
qed simp

lemma line_number: "b < 32 \<Longrightarrow> w < 8 \<Longrightarrow> unat (of_nat w * 32 + of_nat b :: u32) = w * 32 + b"
  by (simp add: unat_word_ariths unsigned_of_nat take_bit_nat_eq_self take_bit_eq_mod)

lemma set_ready_lines: "set (ready_lines n) = {irq. irq < 256 \<and> is_ready n irq}"
proof -
  have r: "bit (nvic_ready n (drop_bit 5 irq)) (unat irq mod 32) \<longleftrightarrow> is_ready n irq" for irq
    by (auto simp: nvic_ready_def is_ready_def line_def bit_simps irq_split)
  have dw: "drop_bit 5 (of_nat w * 32 + of_nat b :: u32) = of_nat w" if "b < 32" "w < 8" for w b
  proof -
    have "unat (drop_bit 5 (of_nat w * 32 + of_nat b :: u32)) = w"
      using that by (simp only: irq_split line_number)
    then show ?thesis by (metis of_nat_unat ucast_id)
  qed
  show ?thesis
  proof (intro set_eqI iffI)
    fix irq assume "irq \<in> set (ready_lines n)"
    then obtain w b where wb: "w < 8" "b < 32" "irq = of_nat w * 32 + of_nat b"
      "bit (nvic_ready n (of_nat w)) b"
      by (auto simp: ready_lines_def)
    then have "unat irq = w * 32 + b" by (simp add: line_number)
    then show "irq \<in> {irq. irq < 256 \<and> is_ready n irq}"
      using wb r [of irq] dw [of b w] by (simp add: word_less_nat_alt)
  next
    fix irq assume a: "irq \<in> {irq. irq < 256 \<and> is_ready n irq}"
    let ?w = "unat irq div 32" and ?b = "unat irq mod 32"
    have w: "?w < 8" using a by (intro less_mult_imp_div_less) (simp add: word_less_nat_alt)
    have "unat (of_nat ?w * 32 + of_nat ?b :: u32) = unat irq"
      using w by (simp add: line_number)
    then have e: "irq = of_nat ?w * 32 + of_nat ?b" by (metis word_unat_eq_iff)
    have d: "drop_bit 5 irq = of_nat ?w" using dw [of ?b ?w] w e by simp
    have "bit (nvic_ready n (of_nat ?w)) ?b" using a r [of irq] d by simp
    then show "irq \<in> set (ready_lines n)"
      unfolding ready_lines_def using w e by (auto intro!: bexI [of _ ?w] image_eqI [of _ _ ?b])
  qed
qed

lemma upt_256: "[0..<256] = concat (map (\<lambda>w. map (\<lambda>b. w * 32 + b) [0..<32]) [0..<8])"
  by code_simp

lemma ready_lines_flat:
  "ready_lines n = map of_nat (List.filter (\<lambda>i. bit (nvic_ready n (of_nat (i div 32))) (i mod 32)) [0..<256])"
  unfolding upt_256 ready_lines_def
  by (auto simp: filter_concat map_concat comp_def filter_map
      intro!: arg_cong [where f = concat] map_cong filter_cong)

lemma sorted_ready_lines: "sorted (ready_lines n)"
proof -
  let ?l = "List.filter (\<lambda>i. bit (nvic_ready n (of_nat (i div 32))) (i mod 32)) [0..<256]"
  have "mono_on (set ?l) (of_nat :: nat \<Rightarrow> u32)"
    by (auto simp: mono_on_def word_le_nat_alt unsigned_of_nat take_bit_nat_eq_self)
  then show ?thesis unfolding ready_lines_flat by (intro sorted_map_mono) (simp_all add: sorted_filter [where f = id, simplified])
qed

lemma nvic_pick_spec:
  assumes "\<forall>i. 240 \<le> i \<and> i < 256 \<longrightarrow> \<not> is_ready n i"
  shows "(nvic_pick n = Some None \<longleftrightarrow> (\<forall>i < 240. is_ready n i \<longrightarrow> nv_prio n i = 0xFF)) \<and>
    (\<forall>i. nvic_pick n = Some (Some i) \<longleftrightarrow>
       i < 240 \<and> is_ready n i \<and> nv_prio n i \<noteq> 0xFF \<and>
       (\<forall>j < 240. is_ready n j \<longrightarrow>
          nv_prio n i \<le> nv_prio n j \<and> (nv_prio n j = nv_prio n i \<longrightarrow> i \<le> j)))"
    (is "?none \<and> ?some")
proof -
  have mem: "i \<in> set (ready_lines n) \<longleftrightarrow> i < 240 \<and> is_ready n i" for i
  proof -
    have "i < 240 \<Longrightarrow> i < 256" by (simp add: word_less_nat_alt)
    then show ?thesis using assms by (auto simp: set_ready_lines not_less)
  qed
  have ff: "p < 0xFF \<longleftrightarrow> p \<noteq> 0xFF" for p :: u8
  proof -
    have "unat p < 256" using unsigned_less [of p, where ?'a = nat] by simp
    then show ?thesis by (auto simp: word_less_nat_alt word_unat_eq_iff)
  qed
  show ?thesis
  proof (cases "\<exists>i\<in>set (ready_lines n). nv_prio n i < 0xFF")
    case True
    then obtain i where i: "nvic_pick n = Some (Some i)" "i \<in> set (ready_lines n)" "nv_prio n i < 0xFF"
      "\<forall>j\<in>set (ready_lines n). nv_prio n i \<le> nv_prio n j \<and> (nv_prio n j = nv_prio n i \<longrightarrow> i \<le> j)"
      using pick_loop_min [OF _ sorted_ready_lines True, of None] mem unfolding nvic_pick_def by auto
    then show ?thesis
      unfolding mem Ball_def by (auto simp: ff) (meson order_antisym)+
  next
    case False
    then have "nvic_pick n = Some None"
      unfolding nvic_pick_def using mem by (intro pick_loop_keep) (auto simp: not_less)
    then show ?thesis using False mem by (auto simp: ff)
  qed
qed

text \<open>A ready line without an entry in \<^verbatim>\<open>prio\<close> makes the scan read behind the array.\<close>

lemma pick_loop_beyond: "pick_loop n l best bp = None \<longleftrightarrow> (\<exists>i\<in>set l. \<not> i < 240)"
  by (induction l arbitrary: best bp) auto

lemma nvic_pick_beyond: "nvic_pick n = None \<longleftrightarrow> (\<exists>i. 240 \<le> i \<and> i < 256 \<and> is_ready n i)"
  unfolding nvic_pick_def pick_loop_beyond set_ready_lines by (auto simp: not_less)

end
