(* ===== verification/Cpu.thy ===== *)
theory Cpu
  imports Prelude
begin

text \<open>
  The processor state (\<^verbatim>\<open>include/core/cpu.h\<close>, \<^verbatim>\<open>include/core/fpu.h\<close>), the flag
  computations and the IT-block state of \<^verbatim>\<open>src/core/cpu.c\<close>, the reset of
  \<^verbatim>\<open>src/core/fpu.c\<close> and the condition evaluation of \<^verbatim>\<open>src/core/executor.c\<close>, with the
  lemmas that the flags mean carry and signed overflow, that the conditions after a
  compare decide the comparison, and that an IT block runs out after as many steps as
  its mask says.
\<close>

section \<open>State\<close>

datatype cpu_mode_t = MODE_THREAD | MODE_HANDLER

datatype core_t = CORE_M0 | CORE_M0_PLUS | CORE_M1 | CORE_M3 | CORE_M4 | CORE_M7

text \<open>The register file of the FPU is read through the word view \<^verbatim>\<open>reg.u\<close> of the C union.\<close>

record fpu_t =
  fpu_u :: "u32 \<Rightarrow> u32"
  fpscr :: u32
  fpccr :: u32
  fpu_enabled :: bool

record cpu_t =
  r_of :: "u8 \<Rightarrow> u32"
  msp :: u32
  psp :: u32
  apsr :: u32
  ipsr :: u32
  epsr :: u32
  primask :: u32
  faultmask :: u32
  basepri :: u32
  control :: u32
  mode :: cpu_mode_t
  core :: core_t
  cycles :: u64
  halted :: bool
  itstate :: u8
  fpu :: fpu_t
  cfsr :: u32
  hfsr :: u32
  mmfar :: u32
  bfar :: u32

abbreviation (input) REG_SP :: u8 where "REG_SP \<equiv> 13"
abbreviation (input) REG_LR :: u8 where "REG_LR \<equiv> 14"
abbreviation (input) REG_PC :: u8 where "REG_PC \<equiv> 15"

abbreviation (input) APSR_N :: u32 where "APSR_N \<equiv> 0x80000000"
abbreviation (input) APSR_Z :: u32 where "APSR_Z \<equiv> 0x40000000"
abbreviation (input) APSR_C :: u32 where "APSR_C \<equiv> 0x20000000"
abbreviation (input) APSR_V :: u32 where "APSR_V \<equiv> 0x10000000"

section \<open>Operations (src/core/cpu.c, src/core/fpu.c)\<close>

definition fpu_reset :: fpu_t where
  "fpu_reset = \<lparr>fpu_u = (\<lambda>_. 0), fpscr = 0, fpccr = 0, fpu_enabled = True\<rparr>"

definition cpu_reset :: "core_t \<Rightarrow> cpu_t" where
  "cpu_reset cr = \<lparr>r_of = (\<lambda>_. 0), msp = 0, psp = 0, apsr = 0, ipsr = 0, epsr = 0x1000000,
     primask = 0, faultmask = 0, basepri = 0, control = 0, mode = MODE_THREAD, core = cr,
     cycles = 0, halted = False, itstate = 0, fpu = fpu_reset,
     cfsr = 0, hfsr = 0, mmfar = 0, bfar = 0\<rparr>"

definition cpu_read_reg :: "cpu_t \<Rightarrow> u32 \<Rightarrow> u32" where
  "cpu_read_reg c n = r_of c (to8 (n AND 0xF))"

definition cpu_write_reg :: "cpu_t \<Rightarrow> u32 \<Rightarrow> u32 \<Rightarrow> cpu_t" where
  "cpu_write_reg c n v = (let n' = to8 (n AND 0xF) in
     if n' = REG_PC then c\<lparr>r_of := (r_of c)(REG_PC := v AND NOT 1)\<rparr>
     else c\<lparr>r_of := (r_of c)(n' := v)\<rparr>)"

text \<open>\<open>orf b m f\<close> is the statement \<^verbatim>\<open>if (b) f |= m;\<close>.\<close>

definition orf :: "bool \<Rightarrow> u32 \<Rightarrow> u32 \<Rightarrow> u32" where
  "orf b m f = (if b then f OR m else f)"

definition cpu_set_flags_nz :: "cpu_t \<Rightarrow> u32 \<Rightarrow> cpu_t" where
  "cpu_set_flags_nz c result =
     (let f = apsr c AND NOT (APSR_N OR APSR_Z);
          f = orf (result AND 0x80000000 \<noteq> 0) APSR_N f;
          f = orf (result = 0) APSR_Z f
      in c\<lparr>apsr := f\<rparr>)"

definition cpu_set_flags_nzcv_add :: "cpu_t \<Rightarrow> u32 \<Rightarrow> u32 \<Rightarrow> u32 \<Rightarrow> bool \<Rightarrow> cpu_t" where
  "cpu_set_flags_nzcv_add c a b result carry_in =
     (let f = apsr c AND NOT (APSR_N OR APSR_Z OR APSR_C OR APSR_V);
          f = orf (result AND 0x80000000 \<noteq> 0) APSR_N f;
          f = orf (result = 0) APSR_Z f;
          ext = to64 a + to64 b + (if carry_in then 1 else 0);
          f = orf (drop_bit 32 ext \<noteq> 0) APSR_C f;
          f = orf ((NOT (a XOR b) AND (a XOR result)) AND 0x80000000 \<noteq> 0) APSR_V f
      in c\<lparr>apsr := f\<rparr>)"

definition cpu_set_flags_nzcv_sub :: "cpu_t \<Rightarrow> u32 \<Rightarrow> u32 \<Rightarrow> u32 \<Rightarrow> cpu_t" where
  "cpu_set_flags_nzcv_sub c a b result =
     (let f = apsr c AND NOT (APSR_N OR APSR_Z OR APSR_C OR APSR_V);
          f = orf (result AND 0x80000000 \<noteq> 0) APSR_N f;
          f = orf (result = 0) APSR_Z f;
          f = orf (to64 a \<ge> to64 b) APSR_C f;
          f = orf (((a XOR b) AND (a XOR result)) AND 0x80000000 \<noteq> 0) APSR_V f
      in c\<lparr>apsr := f\<rparr>)"

definition cpu_in_it :: "cpu_t \<Rightarrow> bool" where
  "cpu_in_it c \<longleftrightarrow> itstate c AND 0x0F \<noteq> 0"

definition cpu_it_cond :: "cpu_t \<Rightarrow> u8" where
  "cpu_it_cond c = fld (itstate c) 4 0xF"

definition cpu_it_advance :: "cpu_t \<Rightarrow> cpu_t" where
  "cpu_it_advance c =
     (if itstate c AND 0x07 = 0 then c\<lparr>itstate := 0\<rparr>
      else let hi3 = itstate c AND 0xE0;
               lo5 = itstate c AND 0x1F;
               lo5 = push_bit 1 lo5 AND 0x1F
           in c\<lparr>itstate := hi3 OR lo5\<rparr>)"

section \<open>Condition codes (src/core/executor.c)\<close>

definition cond_pass :: "u32 \<Rightarrow> u8 \<Rightarrow> bool" where
  "cond_pass f cond =
     (let n = f AND APSR_N \<noteq> 0; z = f AND APSR_Z \<noteq> 0;
          c = f AND APSR_C \<noteq> 0; v = f AND APSR_V \<noteq> 0;
          k = cond AND 0xF
      in if k = 0x0 then z
         else if k = 0x1 then \<not> z
         else if k = 0x2 then c
         else if k = 0x3 then \<not> c
         else if k = 0x4 then n
         else if k = 0x5 then \<not> n
         else if k = 0x6 then v
         else if k = 0x7 then \<not> v
         else if k = 0x8 then c \<and> \<not> z
         else if k = 0x9 then \<not> c \<or> z
         else if k = 0xA then n = v
         else if k = 0xB then n \<noteq> v
         else if k = 0xC then \<not> z \<and> n = v
         else if k = 0xD then z \<or> n \<noteq> v
         else True)"

section \<open>What the flags mean\<close>

lemma flag_N: "(f :: u32) AND 0x80000000 \<noteq> 0 \<longleftrightarrow> bit f 31"
  by (simp add: bit_mask_eq push_bit_of_1)
lemma flag_Z: "(f :: u32) AND 0x40000000 \<noteq> 0 \<longleftrightarrow> bit f 30"
  by (simp add: bit_mask_eq push_bit_of_1)
lemma flag_C: "(f :: u32) AND 0x20000000 \<noteq> 0 \<longleftrightarrow> bit f 29"
  by (simp add: bit_mask_eq push_bit_of_1)
lemma flag_V: "(f :: u32) AND 0x10000000 \<noteq> 0 \<longleftrightarrow> bit f 28"
  by (simp add: bit_mask_eq push_bit_of_1)
lemma flag_N0: "(f :: u32) AND 0x80000000 = 0 \<longleftrightarrow> \<not> bit f 31" using flag_N by blast
lemma bit_orf: "bit (orf b m f) n \<longleftrightarrow> bit f n \<or> b \<and> bit m n"
  by (simp add: orf_def bit_or_iff)
lemma orf_mask: "m AND k = 0 \<Longrightarrow> orf b m f AND k = f AND k"
  by (simp add: orf_def bit.conj_disj_distrib2)
lemmas flag_bits = flag_N flag_Z flag_C flag_V flag_N0 bit_orf bit_and_iff bit_or_iff bit_xor_iff bit_not_iff
lemma add_flags:
  fixes a b :: u32 and ci :: bool and c :: cpu_t
  defines "r \<equiv> a + b + b2w ci"
  defines "f \<equiv> apsr (cpu_set_flags_nzcv_add c a b r ci)"
  shows "bit f 31 \<longleftrightarrow> sint r < 0" "bit f 30 \<longleftrightarrow> r = 0"
    "bit f 29 \<longleftrightarrow> 2 ^ 32 \<le> unat a + unat b + of_bool ci"
    "bit f 28 \<longleftrightarrow> sint r \<noteq> sint a + sint b + of_bool ci"
    "f AND 0x0FFFFFFF = apsr c AND 0x0FFFFFFF"
proof -
  have a: "unat a < 2 ^ 32" and b: "unat b < 2 ^ 32" using unsigned_less [of a] unsigned_less [of b] by simp_all
  have r: "unat r = (unat a + unat b + of_bool ci) mod 2 ^ 32"
    unfolding r_def by (rule unat_add3)
  note d = f_def cpu_set_flags_nzcv_add_def Let_def flag_bits
  have "bit f 31 \<longleftrightarrow> bit r 31" by (simp add: d)
  then show "bit f 31 \<longleftrightarrow> sint r < 0" using uint_lt32 [of r] by (auto simp add: sint_unat32 bit31_ge)
  show "bit f 30 \<longleftrightarrow> r = 0" by (simp add: d)
  show "bit f 29 \<longleftrightarrow> 2 ^ 32 \<le> unat a + unat b + of_bool ci" by (simp only: d carry_add) (simp add: flag_bits)
  have "bit f 28 \<longleftrightarrow> (bit a 31 = bit b 31 \<and> bit a 31 \<noteq> bit r 31)" by (auto simp: d)
  also have "\<dots> \<longleftrightarrow> sint r \<noteq> sint a + sint b + of_bool ci"
    using a b unfolding bit31_ge sint_unat32 r by (cases ci) (auto simp: mod_if)
  finally show "bit f 28 \<longleftrightarrow> sint r \<noteq> sint a + sint b + of_bool ci" .
  show "f AND 0x0FFFFFFF = apsr c AND 0x0FFFFFFF"
    by (simp add: f_def cpu_set_flags_nzcv_add_def Let_def orf_mask and.assoc)
qed

lemma sub_flags:
  fixes a b :: u32 and c :: cpu_t
  defines "r \<equiv> a - b"
  defines "f \<equiv> apsr (cpu_set_flags_nzcv_sub c a b r)"
  shows "bit f 31 \<longleftrightarrow> sint r < 0" "bit f 30 \<longleftrightarrow> a = b"
    "bit f 29 \<longleftrightarrow> b \<le> a"
    "bit f 28 \<longleftrightarrow> sint r \<noteq> sint a - sint b"
    "f AND 0x0FFFFFFF = apsr c AND 0x0FFFFFFF"
proof -
  have a: "unat a < 2 ^ 32" and b: "unat b < 2 ^ 32" by (rule unat_lt32)+
  have r: "unat r = (if unat b \<le> unat a then unat a - unat b else unat a + 2 ^ 32 - unat b)"
    unfolding r_def by (simp add: unat_sub_if')
  have le: "to64 b \<le> to64 a \<longleftrightarrow> b \<le> a" by (simp only: word_le_nat_alt unat_to64)
  note d = f_def cpu_set_flags_nzcv_sub_def Let_def le flag_bits
  have "bit f 31 \<longleftrightarrow> bit r 31" by (simp add: d)
  then show "bit f 31 \<longleftrightarrow> sint r < 0" using uint_lt32 [of r] by (auto simp add: sint_unat32 bit31_ge)
  show "bit f 30 \<longleftrightarrow> a = b" by (simp add: d r_def)
  show "bit f 29 \<longleftrightarrow> b \<le> a" by (simp add: d)
  have "bit f 28 \<longleftrightarrow> (bit a 31 \<noteq> bit b 31 \<and> bit a 31 \<noteq> bit r 31)" by (auto simp: d)
  also have "\<dots> \<longleftrightarrow> sint r \<noteq> sint a - sint b"
    using a b unfolding bit31_ge sint_unat32 r by (auto simp: uint_nat simp del: of_nat_unat)
  finally show "bit f 28 \<longleftrightarrow> sint r \<noteq> sint a - sint b" .
  show "f AND 0x0FFFFFFF = apsr c AND 0x0FFFFFFF"
    by (simp add: f_def cpu_set_flags_nzcv_sub_def Let_def orf_mask and.assoc)
qed

lemma nz_flags:
  fixes r :: u32 and c :: cpu_t
  defines "f \<equiv> apsr (cpu_set_flags_nz c r)"
  shows "bit f 31 \<longleftrightarrow> sint r < 0" "bit f 30 \<longleftrightarrow> r = 0"
    "f AND 0x3FFFFFFF = apsr c AND 0x3FFFFFFF"
proof -
  have "bit f 31 \<longleftrightarrow> bit r 31" by (simp add: f_def cpu_set_flags_nz_def Let_def flag_bits)
  then show "bit f 31 \<longleftrightarrow> sint r < 0" using uint_lt32 [of r] by (auto simp add: sint_unat32 bit31_ge)
  show "bit f 30 \<longleftrightarrow> r = 0" by (simp add: f_def cpu_set_flags_nz_def Let_def flag_bits)
  show "f AND 0x3FFFFFFF = apsr c AND 0x3FFFFFFF"
    by (simp add: f_def cpu_set_flags_nz_def Let_def orf_mask and.assoc)
qed

text \<open>What the condition codes mean after a comparison.\<close>

lemma cond_after_cmp:
  fixes a b :: u32 and c :: cpu_t
  defines "f \<equiv> apsr (cpu_set_flags_nzcv_sub c a b (a - b))"
  shows "cond_pass f 0x0 \<longleftrightarrow> a = b" "cond_pass f 0x1 \<longleftrightarrow> a \<noteq> b"
    "cond_pass f 0x2 \<longleftrightarrow> b \<le> a" "cond_pass f 0x3 \<longleftrightarrow> a < b"
    "cond_pass f 0x8 \<longleftrightarrow> b < a" "cond_pass f 0x9 \<longleftrightarrow> a \<le> b"
    "cond_pass f 0xA \<longleftrightarrow> sint b \<le> sint a" "cond_pass f 0xB \<longleftrightarrow> sint a < sint b"
    "cond_pass f 0xC \<longleftrightarrow> sint b < sint a" "cond_pass f 0xD \<longleftrightarrow> sint a \<le> sint b"
proof -
  note d = cond_pass_def Let_def flag_N flag_Z flag_C flag_V sub_flags [of c a b, folded f_def] sign_of_difference
  show "cond_pass f 0x0 \<longleftrightarrow> a = b" "cond_pass f 0x1 \<longleftrightarrow> a \<noteq> b"
    "cond_pass f 0x2 \<longleftrightarrow> b \<le> a" "cond_pass f 0x3 \<longleftrightarrow> a < b"
    "cond_pass f 0x8 \<longleftrightarrow> b < a" "cond_pass f 0x9 \<longleftrightarrow> a \<le> b" by (auto simp: d)
  have ge: "cond_pass f 0xA \<longleftrightarrow> sint b \<le> sint a" by (simp add: d)
  then show "cond_pass f 0xA \<longleftrightarrow> sint b \<le> sint a" .
  have "cond_pass f 0xB \<longleftrightarrow> \<not> cond_pass f 0xA" "cond_pass f 0xC \<longleftrightarrow> \<not> cond_pass f 0x0 \<and> cond_pass f 0xA"
    "cond_pass f 0xD \<longleftrightarrow> cond_pass f 0x0 \<or> \<not> cond_pass f 0xA" "cond_pass f 0x0 \<longleftrightarrow> a = b"
    by (auto simp: cond_pass_def Let_def flag_Z sub_flags [of c a b, folded f_def])
  then show "cond_pass f 0xB \<longleftrightarrow> sint a < sint b" "cond_pass f 0xC \<longleftrightarrow> sint b < sint a" "cond_pass f 0xD \<longleftrightarrow> sint a \<le> sint b"
    using ge sint_eq_iff32 [of a b] by auto
qed

section \<open>The IT block\<close>

definition it_next :: "u8 \<Rightarrow> u8" where
  "it_next s = (if s AND 7 = 0 then 0 else (s AND 0xE0) OR (push_bit 1 (s AND 0x1F) AND 0x1F))"
definition it_at :: "nat \<Rightarrow> u8 \<Rightarrow> u8" where
  "it_at k s = (if push_bit k s AND 0xF = 0 then 0 else (s AND 0xE0) OR (push_bit k s AND 0x1F))"
lemma cpu_it_advance_state: "cpu_it_advance c = c\<lparr>itstate := it_next (itstate c)\<rparr>"
  by (simp add: cpu_it_advance_def it_next_def Let_def)
lemma it_next_0: "it_next s = it_at 1 s"
  by (simp add: it_next_def it_at_def u8_eq_iff bit_simps)

lemma it_next_at: "it_next (it_at k s) = it_at (Suc k) s"
proof (cases "k < 4")
  case True
  then consider "k = 0" | "k = 1" | "k = 2" | "k = 3" by linarith
  then show ?thesis
    by cases (simp_all add: it_next_def it_at_def u8_eq_iff bit_simps)
next
  case False
  then have "push_bit k s AND 0xF = 0" "push_bit (Suc k) s AND 0xF = 0"
    by (simp_all add: u8_eq_iff bit_simps)
  then show ?thesis by (simp add: it_next_def it_at_def)
qed

lemma itstate_advances: "0 < k \<Longrightarrow> itstate ((cpu_it_advance ^^ k) c) = it_at k (itstate c)"
proof (induction k)
  case (Suc k)
  show ?case
  proof (cases "k = 0")
    case True
    then show ?thesis by (simp add: cpu_it_advance_state it_next_0)
  next
    case False
    then show ?thesis using Suc.IH by (simp add: cpu_it_advance_state it_next_at)
  qed
qed simp

lemma it_block_schedule:
  "(cpu_in_it ((cpu_it_advance ^^ k) c) \<longleftrightarrow> push_bit k (itstate c) AND 0xF \<noteq> 0) \<and>
   (cpu_in_it ((cpu_it_advance ^^ k) c) \<longrightarrow>
      cpu_it_cond ((cpu_it_advance ^^ k) c) = fld (itstate c) 4 0xE OR b2w (bit (itstate c) (4 - k))) \<and>
   \<not> cpu_in_it ((cpu_it_advance ^^ 4) c)"
proof -
  let ?s = "itstate c"
  have at: "itstate ((cpu_it_advance ^^ k) c) = (if k = 0 then ?s else it_at k ?s)"
    by (simp add: itstate_advances)
  have last: "push_bit 4 ?s AND 0xF = 0" by (simp add: u8_eq_iff bit_simps)
  have iff: "cpu_in_it ((cpu_it_advance ^^ k) c) \<longleftrightarrow> push_bit k ?s AND 0xF \<noteq> 0"
    unfolding cpu_in_it_def at by (auto simp: it_at_def u8_eq_iff bit_simps)
  have "k < 4" if "push_bit k ?s AND 0xF \<noteq> 0"
    using that by (rule contrapos_np) (simp add: u8_eq_iff bit_simps)
  then have "cpu_it_cond ((cpu_it_advance ^^ k) c) = fld ?s 4 0xE OR b2w (bit ?s (4 - k))"
    if "push_bit k ?s AND 0xF \<noteq> 0"
  proof -
    have "k = 0 \<or> k = 1 \<or> k = 2 \<or> k = 3" using \<open>push_bit k ?s AND 0xF \<noteq> 0 \<Longrightarrow> k < 4\<close> that by linarith
    then show ?thesis
      unfolding cpu_it_cond_def at using that
      by (elim disjE) (auto simp add: it_at_def u8_eq_iff bit_simps b2w_def)
  qed
  then show ?thesis using iff last by (simp add: cpu_in_it_def itstate_advances it_at_def)
qed
end
