(* ===== verification/Periph.thy ===== *)
theory Periph
  imports Cpu
begin

text \<open>
  The register-level peripherals: UART with its replay queue (\<^verbatim>\<open>src/periph/uart.c\<close>), the
  system control block (\<^verbatim>\<open>src/periph/scb.c\<close>), the memory protection unit
  (\<^verbatim>\<open>src/periph/mpu.c\<close>), the STM32 blocks (\<^verbatim>\<open>src/periph/stm32.c\<close>) and the registers of
  the Ethernet MAC (\<^verbatim>\<open>src/periph/eth.c\<close>).  Each callback is a function of the device's own
  record; the bus-level effects (the TX loopback, the output stream) are in Machine.
\<close>

section \<open>UART\<close>

text \<open>The two values the TX sink takes: NULL (stdout) and \<^verbatim>\<open>uart_capture\<close> of board.c.\<close>

datatype uart_sink = SINK_NULL | SINK_CAPTURE

record uart_t =
  u_sink :: uart_sink
  replay_mode :: bool
  rx_q :: "u8 \<Rightarrow> u8"
  rx_head :: u8
  rx_tail :: u8

definition uart_read :: "uart_t \<Rightarrow> u32 \<Rightarrow> u32 \<times> uart_t" where
  "uart_read u off =
     (if off = 0x00 then
        (if replay_mode u \<and> rx_head u \<noteq> rx_tail u
         then (to32 (rx_q u (rx_head u AND 63)), u\<lparr>rx_head := rx_head u + 1\<rparr>)
         else (0, u))
      else if off = 0x04 then
        (if replay_mode u \<and> rx_head u \<noteq> rx_tail u then (0x21, u) else (0x1, u))
      else (0, u))"

definition uart_inject_rx :: "uart_t \<Rightarrow> u8 \<Rightarrow> uart_t" where
  "uart_inject_rx u byte =
     u\<lparr>rx_q := (rx_q u)(rx_tail u AND 63 := byte), rx_tail := rx_tail u + 1\<rparr>"

text \<open>The byte that a write to the device transmits, if any.\<close>

definition uart_tx :: "uart_t \<Rightarrow> u32 \<Rightarrow> u32 \<Rightarrow> u8 option" where
  "uart_tx u off val =
     (if off = 0x00 then (if replay_mode u then None else Some (to8 (val AND 0xFF))) else None)"

section \<open>System control block\<close>

text \<open>
  \<open>scb_ctx\<close> is \<^verbatim>\<open>ctx != NULL\<close>: the pointer, when set, is the CPU of the same board.
  The callbacks take the CPU that \<^verbatim>\<open>scb_cpu\<close> resolves, or \<open>None\<close>.
\<close>

record scb_t =
  vtor :: u32
  aircr :: u32
  ccr :: u32
  pendsv_pending :: bool
  systick_pending_manual :: bool
  scb_ctx :: bool

definition scb_init :: scb_t where
  "scb_init = \<lparr>vtor = 0, aircr = 0, ccr = 0, pendsv_pending = False,
     systick_pending_manual = False, scb_ctx = False\<rparr>"

definition scb_read :: "scb_t \<Rightarrow> cpu_t option \<Rightarrow> u32 \<Rightarrow> u32" where
  "scb_read s c off =
     (if off = 0x00 then 0x410FC231
      else if off = 0x04 then (if pendsv_pending s then 0x10000000 else 0)
      else if off = 0x08 then vtor s
      else if off = 0x0C then aircr s
      else if off = 0x14 then ccr s
      else if off = 0x28 then (case c of Some c \<Rightarrow> cfsr c | None \<Rightarrow> 0)
      else if off = 0x2C then (case c of Some c \<Rightarrow> hfsr c | None \<Rightarrow> 0)
      else if off = 0x34 then (case c of Some c \<Rightarrow> mmfar c | None \<Rightarrow> 0)
      else if off = 0x38 then (case c of Some c \<Rightarrow> bfar c | None \<Rightarrow> 0)
      else 0)"

definition scb_write :: "scb_t \<Rightarrow> cpu_t option \<Rightarrow> u32 \<Rightarrow> u32 \<Rightarrow> scb_t \<times> cpu_t option" where
  "scb_write s c off val =
     (if off = 0x04 then
        (let s = (if val AND 0x10000000 \<noteq> 0 then s\<lparr>pendsv_pending := True\<rparr> else s);
             s = (if val AND 0x08000000 \<noteq> 0 then s\<lparr>pendsv_pending := False\<rparr> else s);
             s = (if val AND 0x04000000 \<noteq> 0 then s\<lparr>systick_pending_manual := True\<rparr> else s);
             s = (if val AND 0x02000000 \<noteq> 0 then s\<lparr>systick_pending_manual := False\<rparr> else s)
         in (s, c))
      else if off = 0x08 then (s\<lparr>vtor := val AND 0xFFFFFF80\<rparr>, c)
      else if off = 0x0C then (s\<lparr>aircr := val\<rparr>, c)
      else if off = 0x14 then (s\<lparr>ccr := val\<rparr>, c)
      else if off = 0x28 then (s, map_option (\<lambda>c. c\<lparr>cfsr := cfsr c AND NOT val\<rparr>) c)
      else if off = 0x2C then (s, map_option (\<lambda>c. c\<lparr>hfsr := hfsr c AND NOT val\<rparr>) c)
      else (s, c))"

section \<open>Memory protection unit\<close>

record mpu_region_t =
  mr_base :: u32
  rasr :: u32
  mr_enabled :: bool

record mpu_t =
  mpu_ctrl :: u32
  rnr :: u32
  mpu_r :: "u32 \<Rightarrow> mpu_region_t"

definition mpu_init :: mpu_t where
  "mpu_init = \<lparr>mpu_ctrl = 0, rnr = 0, mpu_r = (\<lambda>_. \<lparr>mr_base = 0, rasr = 0, mr_enabled = False\<rparr>)\<rparr>"

text \<open>SIZE = 31 shifts a 32-bit value by 32, which C leaves undefined: \<open>None\<close>.\<close>

definition region_size_bytes :: "u32 \<Rightarrow> u32 option" where
  "region_size_bytes v =
     (let sz = fld v 1 0x1F
      in if sz < 4 then Some 0
         else if sz + 1 < 32 then Some (push_bit (unat (sz + 1)) 1) else None)"

definition ap_permits :: "u32 \<Rightarrow> bool \<Rightarrow> bool \<Rightarrow> bool" where
  "ap_permits ap is_write is_priv =
     (let k = ap AND 7
      in if k = 0 then False
         else if k = 1 then is_priv
         else if k = 2 then is_priv \<or> \<not> is_write
         else if k = 3 then True
         else if k = 5 then is_priv \<and> \<not> is_write
         else if k = 6 \<or> k = 7 then \<not> is_write
         else False)"

text \<open>The search from region 7 down to 0; the outer \<open>None\<close> is the undefined shift.\<close>

fun mpu_hit :: "mpu_t \<Rightarrow> addr_t \<Rightarrow> u32 \<Rightarrow> u32 list \<Rightarrow> u32 option option" where
  "mpu_hit m a sz [] = Some None"
| "mpu_hit m a sz (i # is) =
     (let r = mpu_r m i
      in if \<not> mr_enabled r then mpu_hit m a sz is
         else case region_size_bytes (rasr r) of
           None \<Rightarrow> None
         | Some rsz \<Rightarrow>
             if rsz = 0 then mpu_hit m a sz is
             else if a \<ge> mr_base r \<and> a + sz \<le> mr_base r + rsz then Some (Some i)
             else mpu_hit m a sz is)"

definition mpu_check :: "mpu_t \<Rightarrow> addr_t \<Rightarrow> u32 \<Rightarrow> bool \<Rightarrow> bool \<Rightarrow> bool option" where
  "mpu_check m a sz is_write is_priv =
     (if mpu_ctrl m AND 1 = 0 then Some True
      else case mpu_hit m a sz [7, 6, 5, 4, 3, 2, 1, 0] of
        None \<Rightarrow> None
      | Some None \<Rightarrow> Some (mpu_ctrl m AND 4 \<noteq> 0 \<and> is_priv)
      | Some (Some hit) \<Rightarrow> Some (ap_permits (fld (rasr (mpu_r m hit)) 24 7) is_write is_priv))"

definition mpu_read :: "mpu_t \<Rightarrow> u32 \<Rightarrow> u32" where
  "mpu_read m off =
     (let k = rnr m AND 7
      in if off = 0x00 then push_bit 8 8
         else if off = 0x04 then mpu_ctrl m
         else if off = 0x08 then rnr m
         else if off = 0x0C then mr_base (mpu_r m k) OR k
         else if off = 0x10 then rasr (mpu_r m k) OR (if mr_enabled (mpu_r m k) then 1 else 0)
         else 0)"

definition mpu_write :: "mpu_t \<Rightarrow> u32 \<Rightarrow> u32 \<Rightarrow> mpu_t" where
  "mpu_write m off val =
     (if off = 0x04 then m\<lparr>mpu_ctrl := val AND 7\<rparr>
      else if off = 0x08 then m\<lparr>rnr := val AND 7\<rparr>
      else if off = 0x0C then
        (let idx = (if val AND 0x10 \<noteq> 0 then val AND 0xF else rnr m AND 7);
             k = idx AND 7;
             m' = m\<lparr>mpu_r := (mpu_r m)(k := (mpu_r m k)\<lparr>mr_base := val AND 0xFFFFFFE0\<rparr>)\<rparr>
         in if val AND 0x10 \<noteq> 0 then m'\<lparr>rnr := k\<rparr> else m')
      else if off = 0x10 then
        (let idx = rnr m AND 7
         in m\<lparr>mpu_r := (mpu_r m)(idx := (mpu_r m idx)\<lparr>rasr := val AND 0x1FFFFFFE,
                                                       mr_enabled := (val AND 1 \<noteq> 0)\<rparr>)\<rparr>)
      else m)"

section \<open>STM32 blocks\<close>

record stm32_t =
  odr_a :: u32
  odr_b :: u32
  odr_c :: u32
  quiet :: bool

definition stm32_init :: stm32_t where
  "stm32_init = \<lparr>odr_a = 0, odr_b = 0, odr_c = 0, quiet = False\<rparr>"

datatype gpio_tag = GPIO_A | GPIO_B | GPIO_C

definition rcc_read :: "u32 \<Rightarrow> u32" where
  "rcc_read off = (if off = 0x00 then 0x20000 OR 0x2000000 OR 0x83 else 0)"

fun odr_of :: "gpio_tag \<Rightarrow> stm32_t \<Rightarrow> u32" where
  "odr_of GPIO_A s = odr_a s"
| "odr_of GPIO_B s = odr_b s"
| "odr_of GPIO_C s = odr_c s"

fun set_odr :: "gpio_tag \<Rightarrow> u32 \<Rightarrow> stm32_t \<Rightarrow> stm32_t" where
  "set_odr GPIO_A v s = s\<lparr>odr_a := v\<rparr>"
| "set_odr GPIO_B v s = s\<lparr>odr_b := v\<rparr>"
| "set_odr GPIO_C v s = s\<lparr>odr_c := v\<rparr>"

definition gpio_read :: "gpio_tag \<Rightarrow> stm32_t \<Rightarrow> u32 \<Rightarrow> u32" where
  "gpio_read g s off =
     (if off = 0x0C then 0
      else if off = 0x0C + 4 then odr_of g s
      else 0)"

definition gpio_write :: "gpio_tag \<Rightarrow> stm32_t \<Rightarrow> u32 \<Rightarrow> u32 \<Rightarrow> stm32_t" where
  "gpio_write g s off v =
     (if off = 0x0C + 4 then set_odr g v s
      else if off = 0x10 then
        (let set = v AND 0xFFFF; rst = fld v 16 0xFFFF
         in set_odr g ((odr_of g s OR set) AND NOT rst) s)
      else if off = 0x14 then set_odr g (odr_of g s AND NOT (v AND 0xFFFF)) s
      else s)"

definition usart_read :: "u32 \<Rightarrow> u32" where
  "usart_read off = (if off = 0x00 then 0xC0 else 0)"

definition usart_tx :: "u32 \<Rightarrow> u32 \<Rightarrow> u8 option" where
  "usart_tx off v = (if off = 0x04 then Some (to8 (v AND 0xFF)) else None)"

section \<open>Ethernet MAC registers\<close>

text \<open>\<open>eth_bus\<close> is \<^verbatim>\<open>e->bus != NULL\<close>: the pointer, when set, is the bus of the same board.\<close>

record eth_t =
  eth_ctrl :: u32
  tx_addr :: u32
  tx_len :: u32
  rx_addr :: u32
  rx_len :: u32
  eth_status :: u32
  eth_bus :: bool

definition eth_init :: eth_t where
  "eth_init = \<lparr>eth_ctrl = 0, tx_addr = 0, tx_len = 0, rx_addr = 0, rx_len = 0,
     eth_status = 0, eth_bus = True\<rparr>"

definition eth_read :: "eth_t \<Rightarrow> u32 \<Rightarrow> u32" where
  "eth_read e off =
     (if off = 0x00 then eth_ctrl e
      else if off = 0x04 then tx_addr e
      else if off = 0x08 then tx_len e
      else if off = 0x0C then rx_addr e
      else if off = 0x10 then rx_len e
      else if off = 0x14 then eth_status e
      else 0)"

end
