(* ===== verification/Machine.thy ===== *)
theory Machine
  imports Systick Nvic Periph
begin

text \<open>
  The whole emulated board as one record, the memory bus of \<^verbatim>\<open>src/core/bus.c\<close> with the
  dispatch to the peripheral callbacks, and the frame copies of \<^verbatim>\<open>src/periph/eth.c\<close>,
  which go back through the bus.
\<close>

section \<open>State\<close>

text \<open>
  \<open>region_kind_t\<close> joins the C enum with the callback pair and the context pointer that an
  MMIO region carries: a device names both.
\<close>

datatype device =
    DEV_UART | DEV_SYSTICK | DEV_SCB | DEV_MPU | DEV_RCC | DEV_GPIO gpio_tag | DEV_USART
  | DEV_DWT | DEV_DEMCR | DEV_NVIC | DEV_ETH

datatype region_kind_t = REGION_FLAT | REGION_MMIO device

record region_t =
  base :: addr_t
  rsize :: u32
  kind :: region_kind_t
  writable :: bool
  buf :: "u32 \<Rightarrow> u8"
  rname :: string

abbreviation (input) BUS_MAX_REGIONS :: nat where "BUS_MAX_REGIONS \<equiv> 32"

text \<open>
  The binary32 arithmetic of the host that compiles and runs the emulator, on bit
  patterns.  \<open>fp_to_i32\<close> is \<open>None\<close> where C leaves the conversion undefined.
\<close>

record float_ops =
  fp_add :: "u32 \<Rightarrow> u32 \<Rightarrow> u32"
  fp_sub :: "u32 \<Rightarrow> u32 \<Rightarrow> u32"
  fp_mul :: "u32 \<Rightarrow> u32 \<Rightarrow> u32"
  fp_div :: "u32 \<Rightarrow> u32 \<Rightarrow> u32"
  fp_fma :: "u32 \<Rightarrow> u32 \<Rightarrow> u32 \<Rightarrow> u32"
  fp_sqrt :: "u32 \<Rightarrow> u32"
  fp_lt :: "u32 \<Rightarrow> u32 \<Rightarrow> bool"
  fp_eq :: "u32 \<Rightarrow> u32 \<Rightarrow> bool"
  fp_to_i32 :: "u32 \<Rightarrow> u32 option"
  fp_of_i32 :: "u32 \<Rightarrow> u32"

text \<open>
  \<open>g_nvic_for_run\<close> and \<open>g_cpu_for_scb\<close> say whether the legacy globals of that name point at
  this machine; \<open>stdout\<close> is what went to the standard output, \<open>uart_buf\<close> the capture
  buffer of board.c.
\<close>

record machine =
  cpu :: cpu_t
  regions :: "region_t list"
  d_uart :: uart_t
  d_st :: systick_t
  d_scb :: scb_t
  d_mpu :: mpu_t
  d_stm32 :: stm32_t
  d_nvic :: nvic_t
  d_dwt :: dwt_t
  d_eth :: eth_t
  uart_buf :: "u8 list"
  uart_buf_cap :: nat
  stdout :: "u8 list"
  g_nvic_for_run :: bool
  g_cpu_for_scb :: bool
  host_fpu :: float_ops

section \<open>Regions\<close>

fun find_region :: "region_t list \<Rightarrow> addr_t \<Rightarrow> nat option" where
  "find_region [] a = None"
| "find_region (r # rs) a =
     (if a \<ge> base r \<and> a < base r + rsize r then Some 0
      else map_option Suc (find_region rs a))"

definition bus_add_flat :: "region_t list \<Rightarrow> string \<Rightarrow> addr_t \<Rightarrow> u32 \<Rightarrow> bool \<Rightarrow> region_t list option" where
  "bus_add_flat rs nm b sz wr =
     (if length rs \<ge> BUS_MAX_REGIONS then None
      else Some (rs @ [\<lparr>base = b, rsize = sz, kind = REGION_FLAT, writable = wr,
                        buf = (\<lambda>_. 0), rname = nm\<rparr>]))"

definition bus_add_mmio :: "region_t list \<Rightarrow> string \<Rightarrow> addr_t \<Rightarrow> u32 \<Rightarrow> device \<Rightarrow> region_t list option" where
  "bus_add_mmio rs nm b sz d =
     (if length rs \<ge> BUS_MAX_REGIONS then None
      else Some (rs @ [\<lparr>base = b, rsize = sz, kind = REGION_MMIO d, writable = True,
                        buf = (\<lambda>_. 0), rname = nm\<rparr>]))"

fun bus_find_flat :: "region_t list \<Rightarrow> addr_t \<Rightarrow> nat option" where
  "bus_find_flat [] a = None"
| "bus_find_flat (r # rs) a =
     (if kind r = REGION_FLAT \<and> base r = a then Some 0
      else map_option Suc (bus_find_flat rs a))"

text \<open>\<^verbatim>\<open>memcpy\<close> of \<open>n\<close> little-endian bytes out of and into a buffer.\<close>

fun get_le :: "(u32 \<Rightarrow> u8) \<Rightarrow> u32 \<Rightarrow> nat \<Rightarrow> u32" where
  "get_le f off 0 = 0"
| "get_le f off (Suc n) = to32 (f off) OR push_bit 8 (get_le f (off + 1) n)"

fun put_le :: "(u32 \<Rightarrow> u8) \<Rightarrow> u32 \<Rightarrow> nat \<Rightarrow> u32 \<Rightarrow> (u32 \<Rightarrow> u8)" where
  "put_le f off 0 v = f"
| "put_le f off (Suc n) v = put_le (f(off := to8 v)) (off + 1) n (drop_bit 8 v)"

definition put_flat :: "machine \<Rightarrow> nat \<Rightarrow> u32 \<Rightarrow> u32 \<Rightarrow> u32 \<Rightarrow> machine" where
  "put_flat m k off sz v =
     m\<lparr>regions := (regions m)[k := (regions m ! k)\<lparr>buf := put_le (buf (regions m ! k)) off (unat sz) v\<rparr>]\<rparr>"

section \<open>Device dispatch\<close>

definition scb_cpu :: "machine \<Rightarrow> cpu_t option" where
  "scb_cpu m = (if scb_ctx (d_scb m) \<or> g_cpu_for_scb m then Some (cpu m) else None)"

definition emit_stdout :: "machine \<Rightarrow> u8 \<Rightarrow> machine" where
  "emit_stdout m b = m\<lparr>stdout := stdout m @ [b]\<rparr>"

definition uart_capture :: "machine \<Rightarrow> u8 \<Rightarrow> machine" where
  "uart_capture m b =
     (if length (uart_buf m) < uart_buf_cap m then m\<lparr>uart_buf := uart_buf m @ [b]\<rparr> else m)"

definition uart_write :: "machine \<Rightarrow> u32 \<Rightarrow> u32 \<Rightarrow> machine" where
  "uart_write m off val =
     (case uart_tx (d_uart m) off val of
        None \<Rightarrow> m
      | Some b \<Rightarrow> (case u_sink (d_uart m) of
            SINK_CAPTURE \<Rightarrow> uart_capture m b
          | SINK_NULL \<Rightarrow> emit_stdout m b))"

fun dev_read :: "machine \<Rightarrow> device \<Rightarrow> u32 \<Rightarrow> u32 \<times> machine" where
  "dev_read m DEV_UART off = (let (v, u) = uart_read (d_uart m) off in (v, m\<lparr>d_uart := u\<rparr>))"
| "dev_read m DEV_SYSTICK off = (let (v, t) = st_read (d_st m) off in (v, m\<lparr>d_st := t\<rparr>))"
| "dev_read m DEV_SCB off = (scb_read (d_scb m) (scb_cpu m) off, m)"
| "dev_read m DEV_MPU off = (mpu_read (d_mpu m) off, m)"
| "dev_read m DEV_RCC off = (rcc_read off, m)"
| "dev_read m (DEV_GPIO g) off = (gpio_read g (d_stm32 m) off, m)"
| "dev_read m DEV_USART off = (usart_read off, m)"
| "dev_read m DEV_DWT off = (dwt_read (d_dwt m) off, m)"
| "dev_read m DEV_DEMCR off = (demcr_read (d_dwt m) off, m)"
| "dev_read m DEV_NVIC off = (nvic_read (d_nvic m) off, m)"
| "dev_read m DEV_ETH off = (eth_read (d_eth m) off, m)"

text \<open>Writes to every device but the Ethernet MAC, whose TX_LEN register copies a frame.\<close>

fun dev_write :: "machine \<Rightarrow> device \<Rightarrow> u32 \<Rightarrow> u32 \<Rightarrow> machine" where
  "dev_write m DEV_UART off v = uart_write m off v"
| "dev_write m DEV_SYSTICK off v = m\<lparr>d_st := st_write (d_st m) off v\<rparr>"
| "dev_write m DEV_SCB off v =
     (let (s, c) = scb_write (d_scb m) (scb_cpu m) off v
      in (m\<lparr>d_scb := s\<rparr>)\<lparr>cpu := (case c of Some c' \<Rightarrow> c' | None \<Rightarrow> cpu m)\<rparr>)"
| "dev_write m DEV_MPU off v = m\<lparr>d_mpu := mpu_write (d_mpu m) off v\<rparr>"
| "dev_write m DEV_RCC off v = m"
| "dev_write m (DEV_GPIO g) off v = m\<lparr>d_stm32 := gpio_write g (d_stm32 m) off v\<rparr>"
| "dev_write m DEV_USART off v = (case usart_tx off v of None \<Rightarrow> m | Some b \<Rightarrow> emit_stdout m b)"
| "dev_write m DEV_DWT off v = m\<lparr>d_dwt := dwt_write (d_dwt m) off v\<rparr>"
| "dev_write m DEV_DEMCR off v = m\<lparr>d_dwt := demcr_write (d_dwt m) off v\<rparr>"
| "dev_write m DEV_NVIC off v = m\<lparr>d_nvic := nvic_write (d_nvic m) off v\<rparr>"
| "dev_write m DEV_ETH off v = m"

section \<open>Reads\<close>

definition bus_read :: "machine \<Rightarrow> addr_t \<Rightarrow> u32 \<Rightarrow> u32 option \<times> machine" where
  "bus_read m a sz =
     (case find_region (regions m) a of
        None \<Rightarrow> (None, m)
      | Some k \<Rightarrow>
          (let r = regions m ! k; off = a - base r
           in if off + sz > rsize r then (None, m)
              else case kind r of
                REGION_FLAT \<Rightarrow> (Some (get_le (buf r) off (unat sz)), m)
              | REGION_MMIO d \<Rightarrow> (let (v, m') = dev_read m d off in (Some v, m'))))"

text \<open>\<^verbatim>\<open>bus_r32\<close>, \<^verbatim>\<open>bus_r16\<close>: 0 where the read faults.\<close>

definition bus_r32 :: "machine \<Rightarrow> addr_t \<Rightarrow> u32 \<times> machine" where
  "bus_r32 m a = (let (v, m') = bus_read m a 4 in (case v of Some x \<Rightarrow> x | None \<Rightarrow> 0, m'))"

definition bus_r16 :: "machine \<Rightarrow> addr_t \<Rightarrow> u16 \<times> machine" where
  "bus_r16 m a = (let (v, m') = bus_read m a 2 in (to16 (case v of Some x \<Rightarrow> x | None \<Rightarrow> 0), m'))"

section \<open>The Ethernet loopback (src/periph/eth.c)\<close>

text \<open>
  \<^verbatim>\<open>make_echo_reply\<close> reads and writes the frame through the bus, so its definition is
  over the bus write \<open>w\<close> it calls.  The edit of the frame itself is \<open>echo_frame\<close>, on the
  bytes of the buffer: the MAC addresses and the IPv4 addresses change places, the ICMP
  type becomes 0 and the ICMP checksum is computed anew.
\<close>

type_synonym write_fn = "machine \<Rightarrow> addr_t \<Rightarrow> u32 \<Rightarrow> u32 \<Rightarrow> (bool \<times> machine) option"

definition swap_bytes :: "nat \<Rightarrow> nat \<Rightarrow> u8 list \<Rightarrow> u8 list" where
  "swap_bytes i j xs = xs[i := xs ! j, j := xs ! i]"

definition swap_range :: "nat \<Rightarrow> nat \<Rightarrow> nat \<Rightarrow> u8 list \<Rightarrow> u8 list" where
  "swap_range i j n xs = fold (\<lambda>k. swap_bytes (i + k) (j + k)) [0..<n] xs"

text \<open>\<^verbatim>\<open>for (i = 34; i + 1 < n; i += 2) sum += (buf[i] << 8) | buf[i+1]\<close>\<close>

fun sum_words :: "u8 list \<Rightarrow> u32" where
  "sum_words (a # b # xs) = (push_bit 8 (to32 a) OR to32 b) + sum_words xs"
| "sum_words xs = 0"

text \<open>\<^verbatim>\<open>while (sum >> 16) sum = (sum & 0xFFFF) + (sum >> 16)\<close>\<close>

function fold_carry :: "u32 \<Rightarrow> u32" where
  "fold_carry s = (if drop_bit 16 s \<noteq> 0 then fold_carry ((s AND 0xFFFF) + drop_bit 16 s) else s)"
  by pat_completeness auto

lemma fold_carry_step:
  fixes s :: u32
  shows "unat ((s AND 0xFFFF) + drop_bit 16 s) = unat s mod 2 ^ 16 + unat s div 2 ^ 16"
proof -
  have "s AND 0xFFFF = take_bit 16 s" by (simp add: take_bit_eq_mask mask_eq_exp_minus_1)
  then have "unat (s AND 0xFFFF) = take_bit 16 (unat s)" by (simp only: unsigned_take_bit_eq)
  then have lo: "unat (s AND 0xFFFF) = unat s mod 2 ^ 16" by (simp only: take_bit_eq_mod)
  have hi: "unat (drop_bit 16 s) = unat s div 2 ^ 16"
    unfolding unat_drop_bit_eq by (simp only: drop_bit_eq_div)
  have "unat s < 2 ^ 32" by (rule unat_lt32)
  then have "unat s mod 2 ^ 16 + unat s div 2 ^ 16 < 2 ^ 32" by simp
  then show ?thesis by (simp only: unat_word_ariths lo hi) simp
qed

termination fold_carry
proof (relation "measure unat", goal_cases)
  case (2 s)
  then have "unat (drop_bit 16 s) \<noteq> 0" by (metis unat_eq_0)
  then have "unat s div 2 ^ 16 \<noteq> 0"
    unfolding unat_drop_bit_eq by (simp only: drop_bit_eq_div not_False_eq_True)
  then have "unat s mod 2 ^ 16 + unat s div 2 ^ 16 < unat s"
    using div_mult_mod_eq [of "unat s" "2 ^ 16"]
    by (simp only: power_numeral Num.pow.simps Num.sqr.simps)
  then show ?case by (simp only: fold_carry_step in_measure)
qed simp

declare fold_carry.simps [simp del]

definition echo_frame :: "u8 list \<Rightarrow> u8 list" where
  "echo_frame b =
     (let b = swap_range 0 6 6 b;
          b = swap_range 26 30 4 b;
          b = b[34 := 0];
          b = b[36 := 0, 37 := 0];
          sum = fold_carry (sum_words (drop 34 b));
          sum = NOT sum AND 0xFFFF
      in b[36 := to8 (drop_bit 8 sum), 37 := to8 sum])"

fun copy_loop :: "write_fn \<Rightarrow> machine \<Rightarrow> addr_t \<Rightarrow> addr_t \<Rightarrow> nat \<Rightarrow> machine option" where
  "copy_loop w m src dst 0 = Some m"
| "copy_loop w m src dst (Suc n) =
     (let (v, m1) = bus_read m src 1
      in do { (ok, m2) \<leftarrow> w m1 dst 1 (case v of Some x \<Rightarrow> x | None \<Rightarrow> 0);
              copy_loop w m2 (src + 1) (dst + 1) n })"

fun read_frame :: "machine \<Rightarrow> addr_t \<Rightarrow> nat \<Rightarrow> u8 list \<times> machine" where
  "read_frame m src 0 = ([], m)"
| "read_frame m src (Suc n) =
     (let (v, m1) = bus_read m src 1;
          (bs, m2) = read_frame m1 (src + 1) n
      in (to8 (case v of Some x \<Rightarrow> x | None \<Rightarrow> 0) # bs, m2))"

fun store_bytes :: "write_fn \<Rightarrow> machine \<Rightarrow> addr_t \<Rightarrow> u8 list \<Rightarrow> machine option" where
  "store_bytes w m dst [] = Some m"
| "store_bytes w m dst (b # bs) =
     do { (ok, m1) \<leftarrow> w m dst 1 (to32 b); store_bytes w m1 (dst + 1) bs }"

definition make_echo_reply :: "write_fn \<Rightarrow> machine \<Rightarrow> addr_t \<Rightarrow> addr_t \<Rightarrow> u32 \<Rightarrow> machine option" where
  "make_echo_reply w m src dst len =
     (if len < 14 + 20 + 8 then copy_loop w m src dst (unat len)
      else let n = (if len < 1600 then len else 1600);
               (b, m1) = read_frame m src (unat n)
           in store_bytes w m1 dst (echo_frame b))"

definition eth_write :: "write_fn \<Rightarrow> machine \<Rightarrow> u32 \<Rightarrow> u32 \<Rightarrow> machine option" where
  "eth_write w m off v =
     (let e = d_eth m
      in if off = 0x00 then Some (m\<lparr>d_eth := e\<lparr>eth_ctrl := v\<rparr>\<rparr>)
         else if off = 0x04 then Some (m\<lparr>d_eth := e\<lparr>tx_addr := v\<rparr>\<rparr>)
         else if off = 0x08 then
           (let e = e\<lparr>tx_len := v\<rparr>; m = m\<lparr>d_eth := e\<rparr>
            in if eth_bus e \<and> rx_addr e \<noteq> 0
               then do { m1 \<leftarrow> make_echo_reply w m (tx_addr e) (rx_addr e) v;
                         let e1 = d_eth m1 in
                         Some (m1\<lparr>d_eth := e1\<lparr>rx_len := v, eth_status := eth_status e1 OR 0x3\<rparr>\<rparr>) }
               else Some m)
         else if off = 0x0C then Some (m\<lparr>d_eth := e\<lparr>rx_addr := v\<rparr>\<rparr>)
         else if off = 0x10 then Some (m\<lparr>d_eth := e\<lparr>rx_len := v\<rparr>\<rparr>)
         else if off = 0x14 then Some (m\<lparr>d_eth := e\<lparr>eth_status := eth_status e AND NOT v\<rparr>\<rparr>)
         else Some m)"

section \<open>Writes\<close>

text \<open>
  A write to the Ethernet TX_LEN register writes the frame back through the bus, and the
  target may be that register again: the nesting of \<open>bus_write\<close> has no bound in the code.
  The definition is the least fixed point; \<open>None\<close> is a write that never returns.
\<close>

lemma mono_copy_loop [partial_function_mono]:
  "mono_option (\<lambda>f. copy_loop (\<lambda>m a sz v. f (((m, a), sz), v)) m src dst n)"
proof (induction n arbitrary: m src dst)
  case 0
  show ?case by (simp add: option.const_mono)
next
  case (Suc n)
  show ?case
    unfolding copy_loop.simps Let_def case_prod_unfold
    by (intro bind_mono Suc.IH call_mono)
qed

lemma mono_store_bytes [partial_function_mono]:
  "mono_option (\<lambda>f. store_bytes (\<lambda>m a sz v. f (((m, a), sz), v)) m dst bs)"
proof (induction bs arbitrary: m dst)
  case Nil
  show ?case by (simp add: option.const_mono)
next
  case (Cons b bs)
  show ?case
    unfolding store_bytes.simps case_prod_unfold
    by (intro bind_mono Cons.IH call_mono)
qed

lemma mono_make_echo_reply [partial_function_mono]:
  "mono_option (\<lambda>f. make_echo_reply (\<lambda>m a sz v. f (((m, a), sz), v)) m src dst len)"
  unfolding make_echo_reply_def Let_def case_prod_unfold
  by (intro if_mono mono_copy_loop mono_store_bytes)

lemma mono_eth_write [partial_function_mono]:
  "mono_option (\<lambda>f. eth_write (\<lambda>m a sz v. f (((m, a), sz), v)) m off v)"
  unfolding eth_write_def Let_def
  by (intro if_mono bind_mono mono_make_echo_reply option.const_mono)

partial_function (option) bus_write :: "machine \<Rightarrow> addr_t \<Rightarrow> u32 \<Rightarrow> u32 \<Rightarrow> (bool \<times> machine) option" where
  "bus_write m a sz val =
     (case find_region (regions m) a of
        None \<Rightarrow> Some (False, m)
      | Some k \<Rightarrow>
          (let r = regions m ! k; off = a - base r
           in if \<not> writable r then Some (False, m)
              else if off + sz > rsize r then Some (False, m)
              else case kind r of
                REGION_FLAT \<Rightarrow> Some (True, put_flat m k off sz val)
              | REGION_MMIO d \<Rightarrow>
                  (if d = DEV_ETH
                   then do { m' \<leftarrow> eth_write (\<lambda>m a sz v. bus_write m a sz v) m off val; Some (True, m') }
                   else Some (True, dev_write m d off val))))"

text \<open>The accessors of the other widths drop the result of the write.\<close>

definition bus_w32 :: "machine \<Rightarrow> addr_t \<Rightarrow> u32 \<Rightarrow> machine option" where
  "bus_w32 m a v = map_option snd (bus_write m a 4 v)"

definition bus_w16 :: "machine \<Rightarrow> addr_t \<Rightarrow> u16 \<Rightarrow> machine option" where
  "bus_w16 m a v = map_option snd (bus_write m a 2 (to32 v))"

definition bus_w8 :: "machine \<Rightarrow> addr_t \<Rightarrow> u8 \<Rightarrow> machine option" where
  "bus_w8 m a v = map_option snd (bus_write m a 1 (to32 v))"

definition bus_r8 :: "machine \<Rightarrow> addr_t \<Rightarrow> u8 \<times> machine" where
  "bus_r8 m a = (let (v, m') = bus_read m a 1 in (to8 (case v of Some x \<Rightarrow> x | None \<Rightarrow> 0), m'))"

definition bus_init :: "machine \<Rightarrow> machine" where
  "bus_init m = m\<lparr>regions := []\<rparr>"

section \<open>Loading an image, receiving a frame\<close>

fun put_bytes :: "(u32 \<Rightarrow> u8) \<Rightarrow> u32 \<Rightarrow> u8 list \<Rightarrow> (u32 \<Rightarrow> u8)" where
  "put_bytes f off [] = f"
| "put_bytes f off (b # bs) = put_bytes (f(off := b)) (off + 1) bs"

definition bus_load_blob :: "machine \<Rightarrow> addr_t \<Rightarrow> u8 list \<Rightarrow> bool \<times> machine" where
  "bus_load_blob m a data =
     (case find_region (regions m) a of
        None \<Rightarrow> (False, m)
      | Some k \<Rightarrow>
          (let r = regions m ! k; off = a - base r; n = of_nat (length data) :: u32
           in if kind r \<noteq> REGION_FLAT then (False, m)
              else if off + n > rsize r then (False, m)
              else (True, m\<lparr>regions := (regions m)[k := r\<lparr>buf := put_bytes (buf r) off data\<rparr>]\<rparr>)))"

text \<open>The loop reads \<^verbatim>\<open>e->rx_addr\<close> anew for every byte.\<close>

fun inject_loop :: "machine \<Rightarrow> u32 \<Rightarrow> u8 list \<Rightarrow> machine option" where
  "inject_loop m i [] = Some m"
| "inject_loop m i (b # bs) =
     do { (ok, m1) \<leftarrow> bus_write m (rx_addr (d_eth m) + i) 1 (to32 b); inject_loop m1 (i + 1) bs }"

definition eth_inject_rx :: "machine \<Rightarrow> u8 list \<Rightarrow> machine option" where
  "eth_inject_rx m fr =
     (if \<not> eth_bus (d_eth m) \<or> rx_addr (d_eth m) = 0 \<or> fr = [] then Some m
      else do { m1 \<leftarrow> inject_loop m 0 fr;
                let e = d_eth m1 in
                Some (m1\<lparr>d_eth := e\<lparr>rx_len := of_nat (length fr), eth_status := eth_status e OR 0x3\<rparr>\<rparr>) })"

end
