(* ===== verification/Bus_Laws.thy ===== *)
theory Bus_Laws
  imports Machine
begin

text \<open>
  Laws of the bus.  The locale \<open>machine_preorder\<close> is the contract of a relation that every
  elementary change of the machine respects; its lemmas carry it to the bus write, which
  may recurse through the Ethernet loopback, and, in the later theories, to exceptions,
  instructions and the run loop.  The locale \<open>word_store\<close> is the contract of memory as its
  clients use it, with sequences of stores and loads proved once; the flat regions of the
  bus provide it.
\<close>

section \<open>Relations every change of the machine respects\<close>

locale machine_preorder =
  fixes R :: "machine \<Rightarrow> machine \<Rightarrow> bool"
  assumes R_refl: "R m m"
    and R_trans: "R m1 m2 \<Longrightarrow> R m2 m3 \<Longrightarrow> R m1 m3"
    and R_put_flat: "k < length (regions m) \<Longrightarrow> writable (regions m ! k) \<Longrightarrow> R m (put_flat m k off sz v)"
    and R_dev_read: "R m (snd (dev_read m d off))"
    and R_dev_write: "R m (dev_write m d off v)"
    and R_eth: "R m (d_eth_update f m)"
    and R_nvic: "R m (d_nvic_update g m)"
    and R_cpu: "cycles (h (cpu m)) = cycles (cpu m) \<Longrightarrow> R m (cpu_update h m)"
begin

lemma R_upd:
  "R m0 m \<Longrightarrow> cycles (h (cpu m)) = cycles (cpu m) \<Longrightarrow> R m0 (cpu_update h m)"
  "R m0 m \<Longrightarrow> R m0 (d_eth_update f m)"
  "R m0 m \<Longrightarrow> R m0 (d_nvic_update g m)"
  by (blast intro: R_trans R_cpu R_eth R_nvic)+

end

lemma find_region_Some:
  "find_region rs a = Some k \<Longrightarrow> k < length rs \<and> base (rs ! k) \<le> a \<and> a < base (rs ! k) + rsize (rs ! k)"
  by (induction rs a arbitrary: k rule: find_region.induct) (auto split: if_splits)

context machine_preorder
begin

lemma bus_read_R: "R m (snd (bus_read m a sz))"
  by (auto simp: bus_read_def Let_def case_prod_unfold R_refl R_dev_read split: option.splits region_kind_t.splits)

lemma read_R: "R m0 m \<Longrightarrow> bus_read m a sz = (v, m') \<Longrightarrow> R m0 m'"
  using bus_read_R [of m a sz] by (auto intro: R_trans)

definition keeps :: "write_fn \<Rightarrow> bool" where
  "keeps w \<longleftrightarrow> (\<forall>m a sz v ok m'. w m a sz v = Some (ok, m') \<longrightarrow> R m m')"

lemma keepsD: "keeps w \<Longrightarrow> w m a sz v = Some (ok, m') \<Longrightarrow> R m0 m \<Longrightarrow> R m0 m'"
  unfolding keeps_def by (blast intro: R_trans)

lemma copy_loop_R: "keeps w \<Longrightarrow> copy_loop w m src dst n = Some m' \<Longrightarrow> R m m'"
proof (induction n arbitrary: m src dst)
  case (Suc n)
  obtain v m1 where r: "bus_read m src 1 = (v, m1)" by (cases "bus_read m src 1")
  then obtain ok m2 where w: "w m1 dst 1 (case v of Some x \<Rightarrow> x | None \<Rightarrow> 0) = Some (ok, m2)"
    and l: "copy_loop w m2 (src + 1) (dst + 1) n = Some m'"
    using Suc.prems(2) by (auto simp: Let_def split: bind_splits)
  have "R m m1" using r R_refl by (rule read_R [rotated])
  then have "R m m2" using keepsD [OF Suc.prems(1) w] by blast
  then show ?case using Suc.IH [OF Suc.prems(1) l] by (blast intro: R_trans)
qed (simp add: R_refl)

lemma store_bytes_R: "keeps w \<Longrightarrow> store_bytes w m dst bs = Some m' \<Longrightarrow> R m m'"
proof (induction bs arbitrary: m dst)
  case (Cons b bs)
  then obtain ok m1 where w: "w m dst 1 (to32 b) = Some (ok, m1)"
    and l: "store_bytes w m1 (dst + 1) bs = Some m'" by (auto split: bind_splits)
  have "R m m1" using keepsD [OF Cons.prems(1) w R_refl] .
  then show ?case using Cons.IH [OF Cons.prems(1) l] by (blast intro: R_trans)
qed (simp add: R_refl)

lemma read_frame_R: "R m (snd (read_frame m src n))"
proof (induction n arbitrary: m src)
  case (Suc n)
  obtain v m1 where r: "bus_read m src 1 = (v, m1)" by (cases "bus_read m src 1")
  then have "R m m1" using R_refl by (rule read_R [rotated])
  then show ?case using Suc.IH [of m1 "src + 1"] r
    by (simp add: Let_def case_prod_unfold) (blast intro: R_trans)
qed (simp add: R_refl)

lemma make_echo_reply_R:
  assumes "keeps w" "make_echo_reply w m src dst len = Some m'"
  shows "R m m'"
proof (cases "len < 14 + 20 + 8")
  case True
  then show ?thesis using assms copy_loop_R by (simp add: make_echo_reply_def)
next
  case False
  let ?n = "unat (if len < 1600 then len else 1600)"
  have "store_bytes w (snd (read_frame m src ?n)) dst (echo_frame (fst (read_frame m src ?n))) = Some m'"
    using False assms(2) by (simp add: make_echo_reply_def Let_def case_prod_unfold)
  then show ?thesis
    using store_bytes_R [OF assms(1)] read_frame_R [of m src ?n] by (blast intro: R_trans)
qed

lemma eth_write_R:
  assumes "keeps w" "eth_write w m off v = Some m'"
  shows "R m m'"
proof (cases "off = 0x08 \<and> eth_bus (d_eth m) \<and> rx_addr (d_eth m) \<noteq> 0")
  case True
  let ?m = "m\<lparr>d_eth := (d_eth m)\<lparr>tx_len := v\<rparr>\<rparr>"
  obtain m1 where "make_echo_reply w ?m (tx_addr (d_eth m)) (rx_addr (d_eth m)) v = Some m1"
    and m': "m' = m1\<lparr>d_eth := (d_eth m1)\<lparr>rx_len := v, eth_status := eth_status (d_eth m1) OR 3\<rparr>\<rparr>"
    using True assms(2) by (auto simp: eth_write_def Let_def split: bind_splits)
  then have "R ?m m1" using make_echo_reply_R [OF assms(1)] by blast
  then have "R m m1" by (blast intro: R_trans R_eth)
  then show ?thesis unfolding m' by (rule R_upd)
next
  case False
  then have "\<exists>f. m' = d_eth_update f m \<or> m' = m"
    using assms(2) by (auto simp: eth_write_def Let_def split: if_splits)
  then show ?thesis by (auto intro: R_eth R_refl)
qed

lemma bus_write_R: "bus_write m a sz v = Some (ok, m') \<Longrightarrow> R m m'"
proof -
  have step: "R m (snd y)"
    if w: "keeps w" and y: "(case find_region (regions m) a of None \<Rightarrow> Some (False, m)
      | Some k \<Rightarrow> (let r = regions m ! k; off = a - base r
           in if \<not> writable r then Some (False, m)
              else if off + sz > rsize r then Some (False, m)
              else case kind r of
                REGION_FLAT \<Rightarrow> Some (True, put_flat m k off sz v)
              | REGION_MMIO d \<Rightarrow>
                  (if d = DEV_ETH
                   then do { m' \<leftarrow> eth_write w m off v; Some (True, m') }
                   else Some (True, dev_write m d off v)))) = Some y" for w m a sz v y
  proof (cases "find_region (regions m) a")
    case None
    then show ?thesis using y by (auto simp: R_refl)
  next
    case (Some k)
    then have k: "k < length (regions m)" using find_region_Some by blast
    show ?thesis
      using y Some k
      by (auto simp: Let_def R_refl R_put_flat R_dev_write eth_write_R [OF w]
          split: if_splits region_kind_t.splits bind_splits)
  qed
  have "bus_write m a sz v = Some y \<Longrightarrow> R m (snd y)" for y
    by (rule bus_write.raw_induct [where P = "\<lambda>m a sz v y. R m (snd y)"])
      (erule step [rotated], force simp: keeps_def)
  then show "bus_write m a sz v = Some (ok, m') \<Longrightarrow> R m m'" by fastforce
qed

lemma write_R: "R m0 m \<Longrightarrow> bus_write m a sz v = Some (ok, m') \<Longrightarrow> R m0 m'"
  by (blast intro: R_trans bus_write_R)

end

section \<open>Memory as words\<close>

locale word_store =
  fixes ld :: "'m \<Rightarrow> addr_t \<Rightarrow> u32 option"
    and st :: "'m \<Rightarrow> addr_t \<Rightarrow> u32 \<Rightarrow> 'm option"
    and ok :: "'m \<Rightarrow> addr_t \<Rightarrow> bool"
  assumes st_some: "ok m a \<Longrightarrow> \<exists>m'. st m a v = Some m'"
    and st_ok: "ok m a \<Longrightarrow> st m a v = Some m' \<Longrightarrow> ok m' b \<longleftrightarrow> ok m b"
    and ld_same: "ok m a \<Longrightarrow> st m a v = Some m' \<Longrightarrow> ld m' a = Some v"
    and ld_other: "ok m a \<Longrightarrow> st m a v = Some m' \<Longrightarrow> ok m b \<Longrightarrow>
      4 \<le> a - b \<Longrightarrow> 4 \<le> b - a \<Longrightarrow> ld m' b = ld m b"
begin

fun st_seq :: "'m \<Rightarrow> addr_t \<Rightarrow> u32 list \<Rightarrow> 'm option" where
  "st_seq m a [] = Some m"
| "st_seq m a (v # vs) = do { m' \<leftarrow> st m a v; st_seq m' (a + 4) vs }"

definition apart :: "addr_t \<Rightarrow> addr_t \<Rightarrow> nat \<Rightarrow> bool" where
  "apart b a n \<longleftrightarrow> (\<forall>k<n. 4 \<le> a + 4 * of_nat k - b \<and> 4 \<le> b - (a + 4 * of_nat k))"

lemma apart_Suc: "apart b a (Suc n) \<longleftrightarrow> 4 \<le> a - b \<and> 4 \<le> b - a \<and> apart b (a + 4) n"
  unfolding apart_def by (auto simp: less_Suc_eq_0_disj algebra_simps)

lemma words_apart:
  assumes "0 < k" "k < 2 ^ 30"
  shows "(4 :: u32) \<le> 4 * of_nat k \<and> 4 \<le> - (4 * of_nat k :: u32)"
proof -
  have u: "unat (4 * of_nat k :: u32) = 4 * k"
    using assms by (simp add: unat_word_ariths unsigned_of_nat take_bit_nat_eq_self)
  then have "4 * of_nat k \<noteq> (0 :: u32)" using assms by (metis unat_0 mult_is_0 not_less_zero zero_neq_numeral less_irrefl)
  then have "unat (0 - (4 * of_nat k :: u32)) = 2 ^ 32 - 4 * k"
    using u assms by (subst unat_sub_if') simp
  with u show ?thesis using assms by (simp add: word_le_nat_alt)
qed

lemma apart_before: "n < 2 ^ 30 \<Longrightarrow> apart a (a + 4) (n - 1)"
  unfolding apart_def
proof (intro allI impI)
  fix k assume "n < 2 ^ 30" "k < n - 1"
  then have "(4 :: u32) \<le> 4 * of_nat (Suc k) \<and> 4 \<le> - (4 * of_nat (Suc k) :: u32)" by (intro words_apart) auto
  then show "4 \<le> a + 4 + 4 * of_nat k - a \<and> 4 \<le> a - (a + 4 + 4 * of_nat k)" by (simp add: algebra_simps)
qed

lemma st_seq_laws:
  assumes "\<forall>k<length vs. ok m (a + 4 * of_nat k)" "length vs < 2 ^ 30"
  shows "\<exists>m'. st_seq m a vs = Some m' \<and> (\<forall>b. ok m' b = ok m b) \<and>
    (\<forall>k<length vs. ld m' (a + 4 * of_nat k) = Some (vs ! k)) \<and>
    (\<forall>b. ok m b \<longrightarrow> apart b a (length vs) \<longrightarrow> ld m' b = ld m b)"
  using assms
proof (induction vs arbitrary: m a)
  case (Cons v vs)
  have a: "ok m a" using Cons.prems(1) by force
  then obtain m1 where m1: "st m a v = Some m1" using st_some by blast
  have ok1: "ok m1 b = ok m b" for b using st_ok [OF a m1] .
  have "\<forall>k<length vs. ok m1 (a + 4 + 4 * of_nat k)"
  proof (intro allI impI)
    fix k assume "k < length vs"
    then have "ok m (a + 4 * of_nat (Suc k))" using Cons.prems(1) by (metis Suc_less_eq length_Cons)
    then show "ok m1 (a + 4 + 4 * of_nat k)" unfolding ok1 by (simp add: algebra_simps)
  qed
  moreover have "length vs < 2 ^ 30" using Cons.prems by simp
  ultimately obtain m' where m': "st_seq m1 (a + 4) vs = Some m'" "\<forall>b. ok m' b = ok m1 b"
    "\<forall>k<length vs. ld m' (a + 4 + 4 * of_nat k) = Some (vs ! k)"
    "\<forall>b. ok m1 b \<longrightarrow> apart b (a + 4) (length vs) \<longrightarrow> ld m' b = ld m1 b"
    using Cons.IH [of m1 "a + 4"] by blast
  have "ld m' a = Some v"
    using m'(4) ld_same [OF a m1] ok1 a apart_before [OF Cons.prems(2), of a] by simp
  moreover have "ld m' b = ld m b" if "ok m b" "apart b a (Suc (length vs))" for b
    using that m'(4) ok1 ld_other [OF a m1 that(1)] unfolding apart_Suc by simp
  ultimately show ?case
    using m1 m' ok1 by (intro exI [of _ m']) (auto simp: less_Suc_eq_0_disj algebra_simps)
qed simp

end

lemma put_le_4: "put_le f p 4 v x =
    (if x = p + 3 then to8 (drop_bit 24 v) else if x = p + 2 then to8 (drop_bit 16 v)
     else if x = p + 1 then to8 (drop_bit 8 v) else if x = p then to8 v else f x)"
  by (simp add: eval_nat_numeral drop_bit_drop_bit add.assoc [symmetric])

lemma get_le_4: "get_le f p 4 =
    to32 (f p) OR push_bit 8 (to32 (f (p + 1))) OR push_bit 16 (to32 (f (p + 2))) OR push_bit 24 (to32 (f (p + 3)))"
  by (simp add: eval_nat_numeral push_bit_or or.assoc add.assoc)

lemma get_put_le_4: "get_le (put_le f p 4 v) p 4 = v"
proof -
  have "to32 (to8 v) OR push_bit 8 (to32 (to8 (drop_bit 8 v))) OR push_bit 16 (to32 (to8 (drop_bit 16 v)))
      OR push_bit 24 (to32 (to8 (drop_bit 24 v))) = v" (is "?l = v")
  proof (rule bit_word_eqI)
    fix n assume "n < LENGTH(32)"
    then consider "n < 8" | "8 \<le> n" "n < 16" | "16 \<le> n" "n < 24" | "24 \<le> n" "n < 32" by fastforce
    then show "bit ?l n = bit v n" by cases (auto simp add: bit_simps)
  qed
  then show ?thesis unfolding get_le_4 put_le_4 by simp
qed

lemma get_put_le_apart:
  assumes "4 \<le> p - q" "4 \<le> q - p"
  shows "get_le (put_le f p 4 v) q 4 = get_le f q 4"
proof -
  have ne: "q + i \<noteq> p + j" if "i < 4" "j < 4" for i j :: u32
  proof
    assume e: "q + i = p + j"
    show False
    proof (cases "i \<le> j")
      case True
      have "q - p = j - i" using e by (simp add: algebra_simps)
      then have "4 \<le> j - i" using assms by simp
      then show False using that True by (simp add: word_le_nat_alt word_less_nat_alt unat_sub)
    next
      case False
      have "p - q = i - j" using e by (simp add: algebra_simps)
      then have "4 \<le> i - j" using assms by simp
      then show False using that False by (simp add: word_le_nat_alt word_less_nat_alt unat_sub not_le)
    qed
  qed
  have "put_le f p 4 v (q + i) = f (q + i)" if "i < 4" for i
    using ne [OF that, of 0] ne [OF that, of 1] ne [OF that, of 2] ne [OF that, of 3]
    unfolding put_le_4 by simp
  from this [of 0] this [of 1] this [of 2] this [of 3] show ?thesis unfolding get_le_4 by simp
qed

text \<open>
  The flat words of a machine: the address lies in a writable flat region, with its four
  bytes inside.
\<close>

definition flat_ok :: "machine \<Rightarrow> addr_t \<Rightarrow> bool" where
  "flat_ok m a \<longleftrightarrow> (case find_region (regions m) a of
     None \<Rightarrow> False
   | Some k \<Rightarrow> let r = regions m ! k in
       kind r = REGION_FLAT \<and> writable r \<and> a - base r + 4 \<le> rsize r)"

definition ld_word :: "machine \<Rightarrow> addr_t \<Rightarrow> u32 option" where
  "ld_word m a = fst (bus_read m a 4)"

definition st_word :: "machine \<Rightarrow> addr_t \<Rightarrow> u32 \<Rightarrow> machine option" where
  "st_word m a v = (case bus_write m a 4 v of Some (True, m') \<Rightarrow> Some m' | _ \<Rightarrow> None)"

lemma flat_okE:
  assumes "flat_ok m a"
  obtains k where "find_region (regions m) a = Some k" "k < length (regions m)"
    "kind (regions m ! k) = REGION_FLAT" "writable (regions m ! k)"
    "\<not> rsize (regions m ! k) < a - base (regions m ! k) + 4"
  using assms by (auto simp: flat_ok_def Let_def not_less split: option.splits dest: find_region_Some)

lemma bus_write_flat:
  "find_region (regions m) a = Some k \<Longrightarrow> kind (regions m ! k) = REGION_FLAT \<Longrightarrow> writable (regions m ! k) \<Longrightarrow>
   \<not> rsize (regions m ! k) < a - base (regions m ! k) + sz \<Longrightarrow>
   bus_write m a sz v = Some (True, put_flat m k (a - base (regions m ! k)) sz v)"
  by (subst bus_write.simps) (simp add: Let_def)

lemma bus_read_flat:
  "find_region (regions m) a = Some k \<Longrightarrow> kind (regions m ! k) = REGION_FLAT \<Longrightarrow>
   \<not> rsize (regions m ! k) < a - base (regions m ! k) + sz \<Longrightarrow>
   bus_read m a sz = (Some (get_le (buf (regions m ! k)) (a - base (regions m ! k)) (unat sz)), m)"
  by (simp add: bus_read_def Let_def)

text \<open>What a region is, apart from its contents.\<close>

definition shape :: "region_t \<Rightarrow> region_t" where
  "shape r = r\<lparr>buf := (\<lambda>_. 0)\<rparr>"

lemma shape_fields: "shape r = shape r' \<Longrightarrow>
    base r = base r' \<and> rsize r = rsize r' \<and> kind r = kind r' \<and> writable r = writable r'"
  by (cases r; cases r') (simp add: shape_def)

lemma find_region_shape: "map shape rs = map shape rs' \<Longrightarrow> find_region rs a = find_region rs' a"
proof (induction rs arbitrary: rs')
  case (Cons r rs)
  then obtain r' rs'' where rs': "rs' = r' # rs''" "shape r = shape r'" "map shape rs = map shape rs''"
    by (cases rs') simp_all
  show ?case using Cons.IH [OF rs'(3)] shape_fields [OF rs'(2)] rs'(1) by simp
qed simp

lemma put_flat_shape [simp]:
  assumes "k < length (regions m)"
  shows "map shape (regions (put_flat m k off sz v)) = map shape (regions m)"
proof -
  have "shape (r\<lparr>buf := f\<rparr>) = shape r" for r f by (simp add: shape_def)
  then have "map shape (regions (put_flat m k off sz v)) = (map shape (regions m))[k := map shape (regions m) ! k]"
    using assms by (simp add: put_flat_def map_update)
  then show ?thesis by (simp only: list_update_id)
qed

lemma flat_ok_shape:
  assumes e: "map shape (regions m) = map shape (regions m')"
  shows "flat_ok m a = flat_ok m' a"
proof (cases "find_region (regions m) a")
  case None
  then show ?thesis using find_region_shape [OF e, of a] by (simp add: flat_ok_def)
next
  case (Some k)
  then have "k < length (regions m)" using find_region_Some by blast
  moreover have "length (regions m) = length (regions m')" using e by (metis length_map)
  ultimately have "shape (regions m ! k) = shape (regions m' ! k)" using e by (metis nth_map)
  from shape_fields [OF this] show ?thesis
    using Some find_region_shape [OF e, of a] by (simp add: flat_ok_def Let_def)
qed

lemma put_flat_nth: "k < length (regions m) \<Longrightarrow> regions (put_flat m k off sz v) ! j =
    (if j = k then (regions m ! k)\<lparr>buf := put_le (buf (regions m ! k)) off (unat sz) v\<rparr> else regions m ! j)"
  by (simp add: put_flat_def nth_list_update)

interpretation flat_word: word_store ld_word st_word flat_ok
proof
  fix m :: machine and a v
  assume "flat_ok m a"
  then obtain k where k: "find_region (regions m) a = Some k" "k < length (regions m)"
    "kind (regions m ! k) = REGION_FLAT" "writable (regions m ! k)"
    "\<not> rsize (regions m ! k) < a - base (regions m ! k) + 4" by (rule flat_okE)
  then have w: "st_word m a v = Some (put_flat m k (a - base (regions m ! k)) 4 v)"
    by (simp add: st_word_def bus_write_flat)
  then show "\<exists>m'. st_word m a v = Some m'" by blast
  fix m' assume st: "st_word m a v = Some m'"
  then have m': "m' = put_flat m k (a - base (regions m ! k)) 4 v" using w by simp
  show "flat_ok m' b = flat_ok m b" for b
    unfolding m' by (rule flat_ok_shape) (simp add: k)
  have fr: "find_region (regions m') b = find_region (regions m) b" for b
    unfolding m' by (rule find_region_shape) (simp add: k)
  have nth: "regions m' ! j = (if j = k then (regions m ! k)\<lparr>buf := put_le (buf (regions m ! k))
      (a - base (regions m ! k)) 4 v\<rparr> else regions m ! j)" for j
    unfolding m' put_flat_nth [OF k(2)] by simp
  show "ld_word m' a = Some v"
    using k by (simp add: ld_word_def bus_read_flat fr nth get_put_le_4)
  fix b assume ok: "flat_ok m b" and ap: "4 \<le> a - b" "4 \<le> b - a"
  obtain j where j: "find_region (regions m) b = Some j" "j < length (regions m)"
    "kind (regions m ! j) = REGION_FLAT" "\<not> rsize (regions m ! j) < b - base (regions m ! j) + 4"
    using ok by (rule flat_okE)
  show "ld_word m' b = ld_word m b"
    using j ap by (cases "j = k") (simp_all add: ld_word_def bus_read_flat fr nth get_put_le_apart)
qed

lemma st_word_Some: "st_word m a v = Some m' \<longleftrightarrow> bus_write m a 4 v = Some (True, m')"
  by (auto simp: st_word_def split: option.splits bool.splits)

end
