(* ===== verification/Exceptions.thy ===== *)
theory Exceptions
  imports Bus_Laws
begin

text \<open>
  Fault escalation, exception entry and exception return (\<^verbatim>\<open>src/core/nvic.c\<close>).  Every
  stack access goes through the bus.  The results of the operations are the C booleans
  with the machine the call leaves behind; \<open>None\<close> is a bus write that never returns.
\<close>

section \<open>Sequences of bus accesses that stop at the first fault\<close>

text \<open>
  \<open>push_w\<close> is \<^verbatim>\<open>if (!bus_write(b, a, 4, v)) return false;\<close> followed by the rest \<open>k\<close>;
  \<open>pop_w\<close> is \<^verbatim>\<open>if (!bus_read(b, a, 4, &v)) return false;\<close>.  The value pushed is read from
  the processor state of the moment.
\<close>

definition push_w :: "machine \<Rightarrow> addr_t \<Rightarrow> (cpu_t \<Rightarrow> u32) \<Rightarrow> (machine \<Rightarrow> (bool \<times> machine) option)
    \<Rightarrow> (bool \<times> machine) option" where
  "push_w m a v k = do { (ok, m') \<leftarrow> bus_write m a 4 (v (cpu m)); if ok then k m' else Some (False, m') }"

definition pop_w :: "machine \<Rightarrow> addr_t \<Rightarrow> (u32 \<Rightarrow> machine \<Rightarrow> bool \<times> machine) \<Rightarrow> bool \<times> machine" where
  "pop_w m a k = (let (v, m') = bus_read m a 4 in case v of None \<Rightarrow> (False, m') | Some x \<Rightarrow> k x m')"

abbreviation reg :: "machine \<Rightarrow> u8 \<Rightarrow> u32" where "reg m n \<equiv> r_of (cpu m) n"
abbreviation set_reg :: "machine \<Rightarrow> u8 \<Rightarrow> u32 \<Rightarrow> machine" where
  "set_reg m n v \<equiv> cpu_update (r_of_update (\<lambda>f. f(n := v))) m"

section \<open>Entry\<close>

abbreviation (input) EXC_HARD_FAULT :: u8 where "EXC_HARD_FAULT \<equiv> 3"
abbreviation (input) EXC_MEM_FAULT :: u8 where "EXC_MEM_FAULT \<equiv> 4"
abbreviation (input) EXC_BUS_FAULT :: u8 where "EXC_BUS_FAULT \<equiv> 5"
abbreviation (input) EXC_USAGE_FAULT :: u8 where "EXC_USAGE_FAULT \<equiv> 6"
abbreviation (input) EXC_SVC :: u8 where "EXC_SVC \<equiv> 11"
abbreviation (input) EXC_PENDSV :: u8 where "EXC_PENDSV \<equiv> 14"
abbreviation (input) EXC_SYSTICK :: u8 where "EXC_SYSTICK \<equiv> 15"
abbreviation (input) EXC_IRQ0 :: u32 where "EXC_IRQ0 \<equiv> 16"

definition entry_xpsr :: "cpu_t \<Rightarrow> u8 \<Rightarrow> u32" where
  "entry_xpsr c exc = (apsr c AND 0xF8000000) OR (epsr c AND 0x0600FC00) OR (to32 exc AND 0x1FF)"

text \<open>The eight stores of the frame, and what follows once they have succeeded.\<close>

definition push_frame :: "machine \<Rightarrow> addr_t \<Rightarrow> u32 \<Rightarrow> (machine \<Rightarrow> (bool \<times> machine) option)
    \<Rightarrow> (bool \<times> machine) option" where
  "push_frame m p xpsr k =
     push_w m (p + 0x00) (\<lambda>c. r_of c 0) (\<lambda>m.
     push_w m (p + 0x04) (\<lambda>c. r_of c 1) (\<lambda>m.
     push_w m (p + 0x08) (\<lambda>c. r_of c 2) (\<lambda>m.
     push_w m (p + 0x0C) (\<lambda>c. r_of c 3) (\<lambda>m.
     push_w m (p + 0x10) (\<lambda>c. r_of c 12) (\<lambda>m.
     push_w m (p + 0x14) (\<lambda>c. r_of c REG_LR) (\<lambda>m.
     push_w m (p + 0x18) (\<lambda>c. r_of c REG_PC) (\<lambda>m.
     push_w m (p + 0x1C) (\<lambda>c. xpsr) k)))))))"

definition enter_handler :: "machine \<Rightarrow> bool \<Rightarrow> addr_t \<Rightarrow> u8 \<Rightarrow> bool \<times> machine" where
  "enter_handler m use_psp sp exc =
     (let m = (if use_psp then cpu_update (psp_update (\<lambda>_. sp)) m
               else cpu_update (msp_update (\<lambda>_. sp)) m);
          m = cpu_update (mode_update (\<lambda>_. MODE_HANDLER)) m;
          m = set_reg m REG_SP (msp (cpu m));
          exc_ret = (if use_psp then 0xFFFFFFFD else 0xFFFFFFF9);
          m = set_reg m REG_LR exc_ret
      in pop_w m (4 * to32 exc) (\<lambda>handler m.
           let m = set_reg m REG_PC (handler AND NOT 1);
               m = cpu_update (ipsr_update (\<lambda>_. to32 exc)) m;
               m = cpu_update (itstate_update (\<lambda>_. 0)) m
           in (True, m)))"

definition on_psp :: "cpu_t \<Rightarrow> bool" where
  "on_psp c \<longleftrightarrow> mode c = MODE_THREAD \<and> control c AND 2 \<noteq> 0"

definition sync_sp :: "machine \<Rightarrow> machine" where
  "sync_sp m = (if on_psp (cpu m) then cpu_update (psp_update (\<lambda>_. reg m REG_SP)) m
                else cpu_update (msp_update (\<lambda>_. reg m REG_SP)) m)"

definition exc_enter :: "machine \<Rightarrow> u8 \<Rightarrow> (bool \<times> machine) option" where
  "exc_enter m exc =
     (let use_psp = on_psp (cpu m);
          m = sync_sp m;
          sp = (if use_psp then psp (cpu m) else msp (cpu m)) - 32;
          xpsr = entry_xpsr (cpu m) exc
      in push_frame m sp xpsr (\<lambda>m. Some (enter_handler m use_psp sp exc)))"

definition raise_fault :: "machine \<Rightarrow> u8 \<Rightarrow> u32 \<Rightarrow> u32 \<Rightarrow> machine option" where
  "raise_fault m fault fault_addr status_bit =
     (let c = cpu m;
          c = (if fault = EXC_MEM_FAULT then
                 (let c = c\<lparr>cfsr := cfsr c OR (status_bit AND 0xFF)\<rparr>
                  in if status_bit AND 0x80 \<noteq> 0 then c\<lparr>mmfar := fault_addr\<rparr> else c)
               else if fault = EXC_BUS_FAULT then
                 (let c = c\<lparr>cfsr := cfsr c OR push_bit 8 (status_bit AND 0xFF)\<rparr>
                  in if status_bit AND 0x80 \<noteq> 0 then c\<lparr>bfar := fault_addr\<rparr> else c)
               else if fault = EXC_USAGE_FAULT then
                 c\<lparr>cfsr := cfsr c OR push_bit 16 (status_bit AND 0xFFFF)\<rparr>
               else c);
          handler = (mode c = MODE_HANDLER);
          c = (if handler then c\<lparr>hfsr := hfsr c OR push_bit 30 1\<rparr> else c);
          target = (if handler then EXC_HARD_FAULT else fault)
      in map_option snd (exc_enter (m\<lparr>cpu := c\<rparr>) target))"

section \<open>Return\<close>

text \<open>
  The two return functions differ only in the interrupt controller whose active bit they
  clear: \<^verbatim>\<open>exc_return\<close> takes the global pointer, \<^verbatim>\<open>exc_return_ctx\<close> the one of the context it
  is given.  \<open>unstack\<close> is the rest, the same text in both.
\<close>

definition leave_active :: "machine \<Rightarrow> machine" where
  "leave_active m =
     (if ipsr (cpu m) \<ge> EXC_IRQ0 \<and> ipsr (cpu m) < EXC_IRQ0 + NVIC_IRQ_LINES
      then m\<lparr>d_nvic := nvic_clear_active (d_nvic m) (ipsr (cpu m) - EXC_IRQ0)\<rparr> else m)"

definition restore_cpu :: "bool \<Rightarrow> bool \<Rightarrow> addr_t \<Rightarrow> u32 \<Rightarrow> u32 \<Rightarrow> u32 \<Rightarrow> u32 \<Rightarrow> u32 \<Rightarrow> u32 \<Rightarrow> u32 \<Rightarrow> u32
    \<Rightarrow> cpu_t \<Rightarrow> cpu_t" where
  "restore_cpu to_psp to_handler sp r0 r1 r2 r3 r12 lr pc xpsr c =
     (let c = c\<lparr>r_of := (r_of c)(0 := r0, 1 := r1, 2 := r2, 3 := r3, 12 := r12,
                 REG_LR := lr, REG_PC := pc AND NOT 1)\<rparr>;
          c = c\<lparr>apsr := xpsr AND 0xF8000000\<rparr>;
          c = c\<lparr>ipsr := xpsr AND 0x1FF\<rparr>;
          c = (if to_psp then c\<lparr>psp := sp + 32\<rparr>
               else if to_handler then c\<lparr>msp := sp + 32\<rparr>
               else c\<lparr>msp := sp + 32\<rparr>);
          c = (if to_handler then
                 (let c = c\<lparr>mode := MODE_HANDLER\<rparr>
                  in c\<lparr>r_of := (r_of c)(REG_SP := msp c)\<rparr>)
               else
                 (let c = c\<lparr>mode := MODE_THREAD\<rparr>
                  in if to_psp then
                       (let c = c\<lparr>control := control c OR 2\<rparr>
                        in c\<lparr>r_of := (r_of c)(REG_SP := psp c)\<rparr>)
                     else
                       (let c = c\<lparr>control := control c AND NOT 2\<rparr>
                        in c\<lparr>r_of := (r_of c)(REG_SP := msp c)\<rparr>)))
      in c\<lparr>itstate := 0\<rparr>)"

definition unstack :: "machine \<Rightarrow> u32 \<Rightarrow> bool \<times> machine" where
  "unstack m exc_return_val =
     (let to_psp = (exc_return_val AND 0xF = 0xD);
          to_handler = (exc_return_val AND 0xF = 0x1);
          sp = (if to_psp then psp (cpu m) else msp (cpu m))
      in pop_w m (sp + 0x00) (\<lambda>r0 m.
         pop_w m (sp + 0x04) (\<lambda>r1 m.
         pop_w m (sp + 0x08) (\<lambda>r2 m.
         pop_w m (sp + 0x0C) (\<lambda>r3 m.
         pop_w m (sp + 0x10) (\<lambda>r12 m.
         pop_w m (sp + 0x14) (\<lambda>lr m.
         pop_w m (sp + 0x18) (\<lambda>pc m.
         pop_w m (sp + 0x1C) (\<lambda>xpsr m.
           (True, cpu_update (restore_cpu to_psp to_handler sp r0 r1 r2 r3 r12 lr pc xpsr) m))))))))))"

definition exc_return :: "machine \<Rightarrow> u32 \<Rightarrow> bool \<times> machine" where
  "exc_return m v = unstack (if g_nvic_for_run m then leave_active m else m) v"

text \<open>\<open>ctx\<close> is whether a context is passed, and with it whether its \<^verbatim>\<open>nvic\<close> is this machine's.\<close>

definition exc_return_ctx :: "machine \<Rightarrow> u32 \<Rightarrow> bool option \<Rightarrow> bool \<times> machine" where
  "exc_return_ctx m v ctx =
     (let nvic = (case ctx of Some b \<Rightarrow> b | None \<Rightarrow> g_nvic_for_run m)
      in unstack (if nvic then leave_active m else m) v)"

section \<open>Every change is an elementary one\<close>

lemma restore_cpu_cycles [simp]: "cycles (restore_cpu p h sp r0 r1 r2 r3 r12 lr pc x c) = cycles c"
  by (simp add: restore_cpu_def Let_def)

context machine_preorder
begin

lemma push_w_R:
  assumes "push_w m a v k = Some (b, m')" "R m0 m"
    "\<And>m1 b m'. R m0 m1 \<Longrightarrow> k m1 = Some (b, m') \<Longrightarrow> R m0 m'"
  shows "R m0 m'"
proof -
  obtain ok m1 where w: "bus_write m a 4 (v (cpu m)) = Some (ok, m1)"
    and k: "(if ok then k m1 else Some (False, m1)) = Some (b, m')"
    using assms(1) by (auto simp: push_w_def split: bind_splits)
  have "R m0 m1" using write_R [OF assms(2) w] .
  then show ?thesis using k assms(3) by (cases ok) auto
qed

lemma pop_w_R:
  assumes "R m0 m" "\<And>v m1. R m0 m1 \<Longrightarrow> R m0 (snd (k v m1))"
  shows "R m0 (snd (pop_w m a k))"
proof -
  obtain v m1 where r: "bus_read m a 4 = (v, m1)" by (cases "bus_read m a 4")
  have "R m0 m1" using read_R [OF assms(1) r] .
  then show ?thesis using r assms(2) by (cases v) (simp_all add: pop_w_def)
qed

lemma push_frame_R:
  assumes "push_frame m p xpsr k = Some (b, m')" "R m0 m"
    "\<And>m1 b m'. R m0 m1 \<Longrightarrow> k m1 = Some (b, m') \<Longrightarrow> R m0 m'"
  shows "R m0 m'"
  using assms(1,2) unfolding push_frame_def
  apply -
  apply (erule push_w_R, assumption)
  apply (erule push_w_R, assumption)+
  apply (rule assms(3) [rotated], assumption+)
  done

lemma sync_sp_R: "R m0 m \<Longrightarrow> R m0 (sync_sp m)"
  by (simp add: sync_sp_def R_upd)

lemma enter_handler_R: "R m0 m \<Longrightarrow> R m0 (snd (enter_handler m u sp exc))"
  unfolding enter_handler_def Let_def by (intro pop_w_R) (simp_all add: R_upd)

lemma exc_enter_R:
  assumes "R m0 m" "exc_enter m exc = Some (b, m')"
  shows "R m0 m'"
  using assms(2) unfolding exc_enter_def Let_def
  by (rule push_frame_R) (auto simp: sync_sp_R assms(1) dest!: arg_cong [where f = snd] intro: enter_handler_R)

lemma raise_fault_R:
  assumes "R m0 m" "raise_fault m fault a s = Some m'"
  shows "R m0 m'"
proof -
  obtain c t b where e: "exc_enter (m\<lparr>cpu := c\<rparr>) t = Some (b, m')" and c: "cycles c = cycles (cpu m)"
    using assms(2) by (auto simp: raise_fault_def Let_def split: if_splits)
  have "R m0 (m\<lparr>cpu := c\<rparr>)" using assms(1) by (intro R_upd) (simp_all add: c)
  then show ?thesis using exc_enter_R e by blast
qed

lemma leave_active_R: "R m0 m \<Longrightarrow> R m0 (leave_active m)"
  by (simp add: leave_active_def R_upd)

lemma unstack_R: "R m0 m \<Longrightarrow> R m0 (snd (unstack m v))"
  unfolding unstack_def Let_def
  by (intro pop_w_R) (assumption | simp add: R_upd restore_cpu_cycles)+

lemma exc_return_R: "R m0 m \<Longrightarrow> R m0 (snd (exc_return m v))"
  by (simp add: exc_return_def unstack_R leave_active_R)

lemma exc_return_ctx_R: "R m0 m \<Longrightarrow> R m0 (snd (exc_return_ctx m v ctx))"
  by (auto simp: exc_return_ctx_def Let_def intro: unstack_R leave_active_R)

end

section \<open>The frame in flat memory\<close>

definition frame_ok :: "machine \<Rightarrow> addr_t \<Rightarrow> bool" where
  "frame_ok m p \<longleftrightarrow> (\<forall>k<8. flat_ok m (p + 4 * of_nat k))"

definition frame_of :: "cpu_t \<Rightarrow> u32 \<Rightarrow> u32 list" where
  "frame_of c xpsr = [r_of c 0, r_of c 1, r_of c 2, r_of c 3, r_of c 12, r_of c REG_LR, r_of c REG_PC, xpsr]"

definition frame_at :: "machine \<Rightarrow> addr_t \<Rightarrow> u32 list \<Rightarrow> bool" where
  "frame_at m p vs \<longleftrightarrow> (\<forall>k<length vs. ld_word m (p + 4 * of_nat k) = Some (vs ! k))"

lemma st_word_frame: "flat_ok m a \<Longrightarrow> st_word m a v = Some m' \<Longrightarrow> m' = m\<lparr>regions := regions m'\<rparr>"
  by (auto simp: st_word_Some bus_write_flat put_flat_def elim!: flat_okE)

lemma push_w_flat: "st_word m a (v (cpu m)) = Some m' \<Longrightarrow> push_w m a v k = k m'"
  by (simp add: push_w_def st_word_Some)

lemma pop_w_flat:
  assumes "flat_ok m a" "ld_word m a = Some v"
  shows "pop_w m a k = k v m"
  using assms(1)
proof (rule flat_okE)
  fix j assume "find_region (regions m) a = Some j" "kind (regions m ! j) = REGION_FLAT"
    "\<not> rsize (regions m ! j) < a - base (regions m ! j) + 4"
  from bus_read_flat [OF this] show ?thesis using assms(2) by (simp add: pop_w_def ld_word_def)
qed

lemma st_seq_frame:
  assumes "flat_word.st_seq m a vs = Some m'" "\<forall>k<length vs. flat_ok m (a + 4 * of_nat k)"
  shows "m' = m\<lparr>regions := regions m'\<rparr>"
  using assms
proof (induction vs arbitrary: m a)
  case (Cons v vs)
  have a: "flat_ok m a" using Cons.prems(2) by force
  obtain m1 where m1: "st_word m a v = Some m1" "flat_word.st_seq m1 (a + 4) vs = Some m'"
    using Cons.prems(1) by (auto split: bind_splits)
  have "flat_ok m1 (a + 4 + 4 * of_nat k)" if "k < length vs" for k
  proof -
    have "flat_ok m (a + 4 * of_nat (Suc k))" using that Cons.prems(2) by (metis Suc_less_eq length_Cons)
    then show ?thesis using flat_word.st_ok [OF a m1(1)] by (simp add: algebra_simps)
  qed
  then have "m' = m1\<lparr>regions := regions m'\<rparr>" using Cons.IH [OF m1(2)] by blast
  moreover have "m1 = m\<lparr>regions := regions m1\<rparr>" using st_word_frame [OF a m1(1)] .
  ultimately show ?case by (metis machine.surjective machine.update_convs(2))
qed simp

text \<open>The eight stores as a list.\<close>

fun push_list :: "machine \<Rightarrow> addr_t \<Rightarrow> (cpu_t \<Rightarrow> u32) list \<Rightarrow> (machine \<Rightarrow> (bool \<times> machine) option)
    \<Rightarrow> (bool \<times> machine) option" where
  "push_list m a [] k = k m"
| "push_list m a (v # vs) k = push_w m a v (\<lambda>m. push_list m (a + 4) vs k)"

lemma push_frame_list:
  "push_frame m p xpsr k = push_list m p [\<lambda>c. r_of c 0, \<lambda>c. r_of c 1, \<lambda>c. r_of c 2, \<lambda>c. r_of c 3,
     \<lambda>c. r_of c 12, \<lambda>c. r_of c REG_LR, \<lambda>c. r_of c REG_PC, \<lambda>c. xpsr] k"
  by (simp add: push_frame_def ac_simps)

lemma push_list_flat:
  assumes "flat_word.st_seq m a (map (\<lambda>v. v (cpu m)) vs) = Some m'"
    "\<forall>k<length vs. flat_ok m (a + 4 * of_nat k)"
  shows "push_list m a vs j = j m'"
  using assms
proof (induction vs arbitrary: m a)
  case (Cons v vs)
  have a: "flat_ok m a" using Cons.prems(2) by force
  obtain m1 where m1: "st_word m a (v (cpu m)) = Some m1"
    "flat_word.st_seq m1 (a + 4) (map (\<lambda>v. v (cpu m)) vs) = Some m'"
    using Cons.prems(1) by (auto split: bind_splits)
  have c: "cpu m1 = cpu m"
    using st_word_frame [OF a m1(1)] by (metis machine.select_convs(1) machine.surjective machine.update_convs(2))
  have "flat_ok m1 (a + 4 + 4 * of_nat k)" if "k < length vs" for k
  proof -
    have "flat_ok m (a + 4 * of_nat (Suc k))" using that Cons.prems(2) by (metis Suc_less_eq length_Cons)
    then show ?thesis using flat_word.st_ok [OF a m1(1)] by (simp add: algebra_simps)
  qed
  moreover have "flat_word.st_seq m1 (a + 4) (map (\<lambda>v. v (cpu m1)) vs) = Some m'" using m1(2) by (simp add: c)
  ultimately have "push_list m1 (a + 4) vs j = j m'" using Cons.IH by blast
  then show ?case using push_w_flat [of m a v m1] m1(1) by simp
qed simp

lemma push_frame_flat:
  assumes "frame_ok m p"
  obtains rs where "\<And>k. push_frame m p xpsr k = k (m\<lparr>regions := rs\<rparr>)"
    "frame_at (m\<lparr>regions := rs\<rparr>) p (frame_of (cpu m) xpsr)"
    "\<And>b. flat_ok (m\<lparr>regions := rs\<rparr>) b = flat_ok m b"
proof -
  let ?vs = "frame_of (cpu m) xpsr"
  have len: "length ?vs = 8" by (simp add: frame_of_def)
  then have ok: "\<forall>k<length ?vs. flat_ok m (p + 4 * of_nat k)" using assms by (simp add: frame_ok_def)
  then obtain m' where m': "flat_word.st_seq m p ?vs = Some m'" "\<forall>b. flat_ok m' b = flat_ok m b"
    "\<forall>k<length ?vs. ld_word m' (p + 4 * of_nat k) = Some (?vs ! k)"
    using flat_word.st_seq_laws [OF ok] len by auto
  have eq: "m\<lparr>regions := regions m'\<rparr> = m'" using st_seq_frame [OF m'(1) ok] by simp
  have "push_frame m p xpsr k = k m'" for k
    unfolding push_frame_list using m'(1) assms
    by (intro push_list_flat) (simp_all add: frame_of_def frame_ok_def)
  then show thesis using that [of "regions m'"] m'(2,3) unfolding eq frame_at_def by blast
qed

text \<open>Popping the frame: the reads of \<open>unstack\<close> find what the frame holds.\<close>

lemma frame_pops:
  assumes "frame_at m p vs" "length vs = 8" "frame_ok m p"
  shows "pop_w m p k = k (vs ! 0) m" "pop_w m (p + 4) k = k (vs ! 1) m"
    "pop_w m (p + 8) k = k (vs ! 2) m" "pop_w m (p + 12) k = k (vs ! 3) m"
    "pop_w m (p + 16) k = k (vs ! 4) m" "pop_w m (p + 20) k = k (vs ! 5) m"
    "pop_w m (p + 24) k = k (vs ! 6) m" "pop_w m (p + 28) k = k (vs ! 7) m"
proof -
  have "pop_w m (p + 4 * of_nat j) k = k (vs ! j) m" if "j < 8" for j
    using that assms by (intro pop_w_flat) (auto simp: frame_at_def frame_ok_def)
  from this [of 0] this [of 1] this [of 2] this [of 3] this [of 4] this [of 5] this [of 6] this [of 7]
  show "pop_w m p k = k (vs ! 0) m" "pop_w m (p + 4) k = k (vs ! 1) m"
    "pop_w m (p + 8) k = k (vs ! 2) m" "pop_w m (p + 12) k = k (vs ! 3) m"
    "pop_w m (p + 16) k = k (vs ! 4) m" "pop_w m (p + 20) k = k (vs ! 5) m"
    "pop_w m (p + 24) k = k (vs ! 6) m" "pop_w m (p + 28) k = k (vs ! 7) m" by simp_all
qed

lemma unstack_frame:
  assumes "frame_at m p vs" "length vs = 8" "frame_ok m p"
    "p = (if v AND 0xF = 0xD then psp (cpu m) else msp (cpu m))"
  shows "unstack m v = (True, cpu_update (restore_cpu (v AND 0xF = 0xD) (v AND 0xF = 0x1) p
    (vs ! 0) (vs ! 1) (vs ! 2) (vs ! 3) (vs ! 4) (vs ! 5) (vs ! 6) (vs ! 7)) m)"
  unfolding unstack_def Let_def assms(4) [symmetric] by (simp add: frame_pops [OF assms(1-3)])

lemma dev_read_frame: "regions (snd (dev_read m d off)) = regions m \<and> cpu (snd (dev_read m d off)) = cpu m"
  by (cases "(m, d, off)" rule: dev_read.cases) (simp_all add: case_prod_unfold Let_def)

lemma bus_read_frame: "regions (snd (bus_read m a sz)) = regions m \<and> cpu (snd (bus_read m a sz)) = cpu m"
  using dev_read_frame by (simp add: bus_read_def Let_def case_prod_unfold split: option.splits region_kind_t.splits)

lemma flat_ok_regions: "regions m' = regions m \<Longrightarrow> flat_ok m' a = flat_ok m a"
  by (simp add: flat_ok_def split: option.split)

lemma ld_word_regions: "flat_ok m a \<Longrightarrow> regions m' = regions m \<Longrightarrow> ld_word m' a = ld_word m a"
  by (auto simp: ld_word_def bus_read_flat elim!: flat_okE)

lemma frame_regions:
  assumes "frame_ok m p" "regions m' = regions m"
  shows "frame_ok m' p" "length vs = 8 \<Longrightarrow> frame_at m p vs \<Longrightarrow> frame_at m' p vs"
proof -
  show "frame_ok m' p" using assms flat_ok_regions [OF assms(2)] by (simp add: frame_ok_def)
  show "length vs = 8 \<Longrightarrow> frame_at m p vs \<Longrightarrow> frame_at m' p vs"
    using assms ld_word_regions [OF _ assms(2)] unfolding frame_at_def frame_ok_def by metis
qed

lemma sync_sp_facts [simp]:
  "regions (sync_sp m) = regions m" "r_of (cpu (sync_sp m)) = r_of (cpu m)"
  "apsr (cpu (sync_sp m)) = apsr (cpu m)" "epsr (cpu (sync_sp m)) = epsr (cpu m)"
  "control (cpu (sync_sp m)) = control (cpu m)" "mode (cpu (sync_sp m)) = mode (cpu m)"
  "on_psp (cpu m) \<Longrightarrow> psp (cpu (sync_sp m)) = reg m REG_SP"
  "\<not> on_psp (cpu m) \<Longrightarrow> msp (cpu (sync_sp m)) = reg m REG_SP"
  by (simp_all add: sync_sp_def)

lemma enter_handler_facts:
  assumes "enter_handler m u sp exc = (True, m1)"
  shows "regions m1 = regions m" "mode (cpu m1) = MODE_HANDLER" "ipsr (cpu m1) = to32 exc"
    "itstate (cpu m1) = 0" "reg m1 REG_SP = msp (cpu m1)"
    "reg m1 REG_LR = (if u then 0xFFFFFFFD else 0xFFFFFFF9)"
    "psp (cpu m1) = (if u then sp else psp (cpu m))" "msp (cpu m1) = (if u then msp (cpu m) else sp)"
    "control (cpu m1) = control (cpu m)"
proof -
  define m0 where "m0 = (let m = (if u then cpu_update (psp_update (\<lambda>_. sp)) m
               else cpu_update (msp_update (\<lambda>_. sp)) m);
          m = cpu_update (mode_update (\<lambda>_. MODE_HANDLER)) m;
          m = set_reg m REG_SP (msp (cpu m));
          exc_ret = (if u then 0xFFFFFFFD else 0xFFFFFFF9)
      in set_reg m REG_LR exc_ret)"
  obtain v m2 where b: "bus_read m0 (4 * to32 exc) 4 = (v, m2)" by (cases "bus_read m0 (4 * to32 exc) 4")
  have fr: "regions m2 = regions m0" "cpu m2 = cpu m0"
    using bus_read_frame [of m0 "4 * to32 exc" 4] b by simp_all
  have "enter_handler m u sp exc = pop_w m0 (4 * to32 exc) (\<lambda>handler m.
      (True, cpu_update (itstate_update (\<lambda>_. 0)) (cpu_update (ipsr_update (\<lambda>_. to32 exc))
         (set_reg m REG_PC (handler AND NOT 1)))))"
    unfolding enter_handler_def m0_def Let_def ..
  then obtain x where m1: "m1 = cpu_update (itstate_update (\<lambda>_. 0)) (cpu_update (ipsr_update (\<lambda>_. to32 exc))
         (set_reg m2 REG_PC x))"
    using assms b by (auto simp: pop_w_def split: option.splits)
  show "regions m1 = regions m" "mode (cpu m1) = MODE_HANDLER" "ipsr (cpu m1) = to32 exc"
    "itstate (cpu m1) = 0" "reg m1 REG_SP = msp (cpu m1)"
    "reg m1 REG_LR = (if u then 0xFFFFFFFD else 0xFFFFFFF9)"
    "psp (cpu m1) = (if u then sp else psp (cpu m))" "msp (cpu m1) = (if u then msp (cpu m) else sp)"
    "control (cpu m1) = control (cpu m)"
    unfolding m1 using fr by (simp_all add: m0_def Let_def)
qed

lemma exc_enter_flat:
  assumes ok: "frame_ok m p" and p: "p = reg m REG_SP - 32" and e: "exc_enter m exc = Some (True, m1)"
  shows "frame_ok m1 p \<and> frame_at m1 p (frame_of (cpu m) (entry_xpsr (cpu m) exc)) \<and>
    mode (cpu m1) = MODE_HANDLER \<and> ipsr (cpu m1) = to32 exc \<and> itstate (cpu m1) = 0 \<and>
    reg m1 REG_SP = msp (cpu m1) \<and>
    reg m1 REG_LR = (if on_psp (cpu m) then 0xFFFFFFFD else 0xFFFFFFF9) \<and>
    (if on_psp (cpu m) then psp (cpu m1) else msp (cpu m1)) = p \<and>
    (on_psp (cpu m) \<longrightarrow> msp (cpu m1) = msp (cpu m)) \<and>
    control (cpu m1) = control (cpu m)"
proof -
  let ?vs = "frame_of (cpu m) (entry_xpsr (cpu m) exc)"
  have xp: "entry_xpsr (cpu (sync_sp m)) exc = entry_xpsr (cpu m) exc"
    "frame_of (cpu (sync_sp m)) x = frame_of (cpu m) x" for x by (simp_all add: entry_xpsr_def frame_of_def)
  have sp: "(if on_psp (cpu m) then psp (cpu (sync_sp m)) else msp (cpu (sync_sp m))) - 32 = p"
    by (simp add: p)
  have "frame_ok (sync_sp m) p" by (rule frame_regions(1) [OF ok]) simp
  then obtain rs where rs: "\<And>k. push_frame (sync_sp m) p (entry_xpsr (cpu m) exc) k = k ((sync_sp m)\<lparr>regions := rs\<rparr>)"
    "frame_at ((sync_sp m)\<lparr>regions := rs\<rparr>) p (frame_of (cpu (sync_sp m)) (entry_xpsr (cpu m) exc))"
    "\<And>b. flat_ok ((sync_sp m)\<lparr>regions := rs\<rparr>) b = flat_ok (sync_sp m) b"
    by (rule push_frame_flat [where xpsr = "entry_xpsr (cpu m) exc"]) (rule that)
  let ?m = "(sync_sp m)\<lparr>regions := rs\<rparr>"
  have ok2: "frame_ok ?m p"
    using ok rs(3) flat_ok_regions [of "sync_sp m" m] by (simp add: frame_ok_def)
  have h: "enter_handler ?m (on_psp (cpu m)) p exc = (True, m1)"
    using e unfolding exc_enter_def Let_def sp xp(1) rs(1) by simp
  note f = enter_handler_facts [OF h]
  have "frame_ok m1 p" "frame_at m1 p ?vs"
    using frame_regions [OF ok2, of m1] rs(2) f(1) unfolding xp by (simp_all add: frame_of_def)
  moreover have "on_psp (cpu m) \<Longrightarrow> msp (cpu (sync_sp m)) = msp (cpu m)" by (simp add: sync_sp_def)
  moreover have "control (cpu m1) = control (cpu m)" using f(9) by simp
  ultimately show ?thesis
    using f(2-4) f(5,6,7,8) by (cases "on_psp (cpu m)") simp_all
qed

lemma entry_xpsr_fields:
  "entry_xpsr c exc AND 0xF8000000 = apsr c AND 0xF8000000"
  "entry_xpsr c exc AND 0x1FF = to32 exc"
proof -
  have x: "bit (to32 exc) n \<Longrightarrow> n < 8" for n by (auto simp: bit_simps dest: bit_imp_le_length)
  have e: "to32 exc AND 0x1FF = to32 exc"
  proof (rule bit_word_eqI)
    fix n assume "n < LENGTH(32)"
    show "bit (to32 exc AND 0x1FF) n = bit (to32 exc) n"
    proof (cases "n < 8")
      case True
      then have "n \<in> {0,1,2,3,4,5,6,7}" by auto
      then show ?thesis by (auto simp: bit_and_iff)
    qed (use x in \<open>auto simp: bit_and_iff\<close>)
  qed
  then have "to32 exc AND 0xF8000000 = to32 exc AND (0x1FF AND 0xF8000000)" by (simp only: and.assoc [symmetric])
  then have z: "to32 exc AND 0xF8000000 = 0" by simp
  show "entry_xpsr c exc AND 0xF8000000 = apsr c AND 0xF8000000"
    by (simp add: entry_xpsr_def e z bit.conj_disj_distrib2 and.assoc)
  show "entry_xpsr c exc AND 0x1FF = to32 exc"
    by (simp add: entry_xpsr_def e bit.conj_disj_distrib2 and.assoc)
qed

section \<open>Entry and return\<close>

text \<open>What the handler may leave behind: the frame, the banked stack pointers and CONTROL as
  it found them; everything else is free.\<close>

definition handler_kept :: "machine \<Rightarrow> machine \<Rightarrow> addr_t \<Rightarrow> bool" where
  "handler_kept m1 m2 p \<longleftrightarrow> frame_ok m2 p \<and> (\<forall>k<8. ld_word m2 (p + 4 * of_nat k) = ld_word m1 (p + 4 * of_nat k)) \<and>
     msp (cpu m2) = msp (cpu m1) \<and> psp (cpu m2) = psp (cpu m1) \<and> control (cpu m2) = control (cpu m1)"

lemma restore_cpu_facts:
  fixes c :: cpu_t and sp r0 r1 r2 r3 r12 lr pc x :: u32 and tp :: bool
  defines "c' \<equiv> restore_cpu tp False sp r0 r1 r2 r3 r12 lr pc x c"
  shows "r_of c' = (r_of c)(0 := r0, 1 := r1, 2 := r2, 3 := r3, 12 := r12, REG_LR := lr,
      REG_PC := pc AND NOT 1, REG_SP := sp + 32)"
    "apsr c' = x AND 0xF8000000" "ipsr c' = x AND 0x1FF" "mode c' = MODE_THREAD" "itstate c' = 0"
    "control c' = (if tp then control c OR 2 else control c AND NOT 2)"
    "psp c' = (if tp then sp + 32 else psp c)" "msp c' = (if tp then msp c else sp + 32)"
  by (simp_all add: c'_def restore_cpu_def Let_def fun_eq_iff)

lemma control_bit: "(w :: u32) AND 2 \<noteq> 0 \<Longrightarrow> w OR 2 = w" "w AND 2 = 0 \<Longrightarrow> w AND NOT 2 = w"
proof -
  have b: "w AND 2 \<noteq> 0 \<longleftrightarrow> bit w 1" by (simp add: bit_mask_eq push_bit_of_1)
  have two: "bit (2 :: u32) n \<longleftrightarrow> n = 1" for n by (auto simp: bit_simps bit_2_iff)
  have "w OR 2 = w" if "bit w 1"
  proof (rule bit_word_eqI)
    show "bit (w OR 2) n = bit w n" for n using that by (cases "n = 1") (simp_all only: bit_or_iff two simp_thms)
  qed
  then show "w AND 2 \<noteq> 0 \<Longrightarrow> w OR 2 = w" using b by blast
  have "w AND NOT 2 = w" if "\<not> bit w 1"
  proof (rule bit_word_eqI)
    show "bit (w AND NOT 2) n = bit w n" if "n < LENGTH(32)" for n using that \<open>\<not> bit w 1\<close>
      by (cases "n = 1") (simp_all only: bit_and_iff bit_not_iff two simp_thms, simp_all add: impossible_bit)
  qed
  then show "w AND 2 = 0 \<Longrightarrow> w AND NOT 2 = w" using b by blast
qed

lemma round_trip:
  fixes m :: machine
  defines "p \<equiv> reg m REG_SP - 32"
  assumes ok: "frame_ok m p" and thread: "mode (cpu m) = MODE_THREAD"
    and e: "exc_enter m exc = Some (True, m1)" and k: "handler_kept m1 m2 p"
  shows "\<exists>m3. exc_return m2 (reg m1 REG_LR) = (True, m3) \<and>
    r_of (cpu m3) = (r_of (cpu m2))(0 := reg m 0, 1 := reg m 1, 2 := reg m 2, 3 := reg m 3, 12 := reg m 12,
      REG_LR := reg m REG_LR, REG_PC := reg m REG_PC AND NOT 1, REG_SP := reg m REG_SP) \<and>
    apsr (cpu m3) = apsr (cpu m) AND 0xF8000000 \<and> mode (cpu m3) = MODE_THREAD \<and>
    control (cpu m3) = control (cpu m) \<and> ipsr (cpu m3) = to32 exc"
proof -
  let ?vs = "frame_of (cpu m) (entry_xpsr (cpu m) exc)" and ?lr = "reg m1 REG_LR"
  note f = exc_enter_flat [OF ok p_def [THEN meta_eq_to_obj_eq] e]
  define n where "n = (if g_nvic_for_run m2 then leave_active m2 else m2)"
  have n: "regions n = regions m2" "cpu n = cpu m2" by (simp_all add: n_def leave_active_def)
  have len: "length ?vs = 8" by (simp add: frame_of_def)
  have "frame_at m2 p ?vs" using f k len by (simp add: frame_at_def handler_kept_def)
  then have fr: "frame_at n p ?vs" "frame_ok n p"
    using k n frame_regions [of m2 p n] len by (simp_all add: handler_kept_def)
  have lr: "?lr AND 0xF = 0xD \<longleftrightarrow> on_psp (cpu m)" "\<not> ?lr AND 0xF = 0x1" using f by auto
  have sp: "p = (if ?lr AND 0xF = 0xD then psp (cpu n) else msp (cpu n))"
    using f k unfolding lr(1) by (simp add: n handler_kept_def split: if_splits)
  let ?c = "restore_cpu (on_psp (cpu m)) False p (?vs ! 0) (?vs ! 1) (?vs ! 2) (?vs ! 3) (?vs ! 4)
      (?vs ! 5) (?vs ! 6) (?vs ! 7) (cpu n)"
  have u: "exc_return m2 ?lr = (True, cpu_update (\<lambda>_. ?c) n)"
    using unstack_frame [OF fr(1) len fr(2) sp] lr unfolding exc_return_def n_def [symmetric] by simp
  have "control (cpu n) = control (cpu m)" using f k n by (simp add: handler_kept_def)
  then have "control ?c = control (cpu m)"
    using thread control_bit [of "control (cpu m)"] by (auto simp: restore_cpu_facts on_psp_def)
  moreover have "r_of ?c = (r_of (cpu m2))(0 := reg m 0, 1 := reg m 1, 2 := reg m 2, 3 := reg m 3,
      12 := reg m 12, REG_LR := reg m REG_LR, REG_PC := reg m REG_PC AND NOT 1, REG_SP := reg m REG_SP)"
    unfolding restore_cpu_facts by (simp add: n frame_of_def p_def)
  moreover have "apsr ?c = apsr (cpu m) AND 0xF8000000" "ipsr ?c = to32 exc"
    unfolding restore_cpu_facts by (simp_all add: frame_of_def entry_xpsr_fields)
  moreover have "mode ?c = MODE_THREAD" unfolding restore_cpu_facts ..
  ultimately show ?thesis using u by auto
qed

end
