(* ===== verification/Insn.thy ===== *)
theory Insn
  imports Prelude
begin

text \<open>
  The decoded instruction of \<^verbatim>\<open>include/core/decoder.h\<close>.  An \<open>opcode_t\<close> is the C enum:
  its constants are the enumerators in source order, numbered as C numbers them, so that
  the comparison with \<^verbatim>\<open>OP_COUNT\<close> has its C meaning and two different enumerators are
  told apart by their numbers.
\<close>

section \<open>Opcodes\<close>

datatype opcode_t = Opc (opc_number: nat)

instantiation opcode_t :: linorder
begin

definition less_eq_opcode_t :: "opcode_t \<Rightarrow> opcode_t \<Rightarrow> bool" where
  "less_eq_opcode_t x y \<longleftrightarrow> opc_number x \<le> opc_number y"

definition less_opcode_t :: "opcode_t \<Rightarrow> opcode_t \<Rightarrow> bool" where
  "less_opcode_t x y \<longleftrightarrow> opc_number x < opc_number y"

instance
  by standard (auto simp: less_eq_opcode_t_def less_opcode_t_def intro: opcode_t.expand)

end

abbreviation (input) OP_UNDEFINED :: opcode_t where "OP_UNDEFINED \<equiv> Opc 0"
abbreviation (input) OP_LSL_IMM :: opcode_t where "OP_LSL_IMM \<equiv> Opc 1"
abbreviation (input) OP_LSR_IMM :: opcode_t where "OP_LSR_IMM \<equiv> Opc 2"
abbreviation (input) OP_ASR_IMM :: opcode_t where "OP_ASR_IMM \<equiv> Opc 3"
abbreviation (input) OP_ADD_REG :: opcode_t where "OP_ADD_REG \<equiv> Opc 4"
abbreviation (input) OP_SUB_REG :: opcode_t where "OP_SUB_REG \<equiv> Opc 5"
abbreviation (input) OP_ADD_IMM3 :: opcode_t where "OP_ADD_IMM3 \<equiv> Opc 6"
abbreviation (input) OP_SUB_IMM3 :: opcode_t where "OP_SUB_IMM3 \<equiv> Opc 7"
abbreviation (input) OP_MOV_IMM :: opcode_t where "OP_MOV_IMM \<equiv> Opc 8"
abbreviation (input) OP_CMP_IMM :: opcode_t where "OP_CMP_IMM \<equiv> Opc 9"
abbreviation (input) OP_ADD_IMM8 :: opcode_t where "OP_ADD_IMM8 \<equiv> Opc 10"
abbreviation (input) OP_SUB_IMM8 :: opcode_t where "OP_SUB_IMM8 \<equiv> Opc 11"
abbreviation (input) OP_AND_REG :: opcode_t where "OP_AND_REG \<equiv> Opc 12"
abbreviation (input) OP_EOR_REG :: opcode_t where "OP_EOR_REG \<equiv> Opc 13"
abbreviation (input) OP_LSL_REG :: opcode_t where "OP_LSL_REG \<equiv> Opc 14"
abbreviation (input) OP_LSR_REG :: opcode_t where "OP_LSR_REG \<equiv> Opc 15"
abbreviation (input) OP_ASR_REG :: opcode_t where "OP_ASR_REG \<equiv> Opc 16"
abbreviation (input) OP_ADC_REG :: opcode_t where "OP_ADC_REG \<equiv> Opc 17"
abbreviation (input) OP_SBC_REG :: opcode_t where "OP_SBC_REG \<equiv> Opc 18"
abbreviation (input) OP_ROR_REG :: opcode_t where "OP_ROR_REG \<equiv> Opc 19"
abbreviation (input) OP_TST_REG :: opcode_t where "OP_TST_REG \<equiv> Opc 20"
abbreviation (input) OP_RSB_IMM :: opcode_t where "OP_RSB_IMM \<equiv> Opc 21"
abbreviation (input) OP_CMP_REG :: opcode_t where "OP_CMP_REG \<equiv> Opc 22"
abbreviation (input) OP_CMN_REG :: opcode_t where "OP_CMN_REG \<equiv> Opc 23"
abbreviation (input) OP_ORR_REG :: opcode_t where "OP_ORR_REG \<equiv> Opc 24"
abbreviation (input) OP_MUL :: opcode_t where "OP_MUL \<equiv> Opc 25"
abbreviation (input) OP_BIC_REG :: opcode_t where "OP_BIC_REG \<equiv> Opc 26"
abbreviation (input) OP_MVN_REG :: opcode_t where "OP_MVN_REG \<equiv> Opc 27"
abbreviation (input) OP_ADD_REG_T2 :: opcode_t where "OP_ADD_REG_T2 \<equiv> Opc 28"
abbreviation (input) OP_CMP_REG_T2 :: opcode_t where "OP_CMP_REG_T2 \<equiv> Opc 29"
abbreviation (input) OP_MOV_REG :: opcode_t where "OP_MOV_REG \<equiv> Opc 30"
abbreviation (input) OP_BX :: opcode_t where "OP_BX \<equiv> Opc 31"
abbreviation (input) OP_BLX_REG :: opcode_t where "OP_BLX_REG \<equiv> Opc 32"
abbreviation (input) OP_LDR_LIT :: opcode_t where "OP_LDR_LIT \<equiv> Opc 33"
abbreviation (input) OP_STR_REG :: opcode_t where "OP_STR_REG \<equiv> Opc 34"
abbreviation (input) OP_STRH_REG :: opcode_t where "OP_STRH_REG \<equiv> Opc 35"
abbreviation (input) OP_STRB_REG :: opcode_t where "OP_STRB_REG \<equiv> Opc 36"
abbreviation (input) OP_LDRSB_REG :: opcode_t where "OP_LDRSB_REG \<equiv> Opc 37"
abbreviation (input) OP_LDR_REG :: opcode_t where "OP_LDR_REG \<equiv> Opc 38"
abbreviation (input) OP_LDRH_REG :: opcode_t where "OP_LDRH_REG \<equiv> Opc 39"
abbreviation (input) OP_LDRB_REG :: opcode_t where "OP_LDRB_REG \<equiv> Opc 40"
abbreviation (input) OP_LDRSH_REG :: opcode_t where "OP_LDRSH_REG \<equiv> Opc 41"
abbreviation (input) OP_STR_IMM :: opcode_t where "OP_STR_IMM \<equiv> Opc 42"
abbreviation (input) OP_LDR_IMM :: opcode_t where "OP_LDR_IMM \<equiv> Opc 43"
abbreviation (input) OP_STRB_IMM :: opcode_t where "OP_STRB_IMM \<equiv> Opc 44"
abbreviation (input) OP_LDRB_IMM :: opcode_t where "OP_LDRB_IMM \<equiv> Opc 45"
abbreviation (input) OP_STRH_IMM :: opcode_t where "OP_STRH_IMM \<equiv> Opc 46"
abbreviation (input) OP_LDRH_IMM :: opcode_t where "OP_LDRH_IMM \<equiv> Opc 47"
abbreviation (input) OP_STR_SP :: opcode_t where "OP_STR_SP \<equiv> Opc 48"
abbreviation (input) OP_LDR_SP :: opcode_t where "OP_LDR_SP \<equiv> Opc 49"
abbreviation (input) OP_ADR :: opcode_t where "OP_ADR \<equiv> Opc 50"
abbreviation (input) OP_ADD_SP_IMM :: opcode_t where "OP_ADD_SP_IMM \<equiv> Opc 51"
abbreviation (input) OP_ADD_SP_SP :: opcode_t where "OP_ADD_SP_SP \<equiv> Opc 52"
abbreviation (input) OP_SUB_SP_SP :: opcode_t where "OP_SUB_SP_SP \<equiv> Opc 53"
abbreviation (input) OP_SXTH :: opcode_t where "OP_SXTH \<equiv> Opc 54"
abbreviation (input) OP_SXTB :: opcode_t where "OP_SXTB \<equiv> Opc 55"
abbreviation (input) OP_UXTH :: opcode_t where "OP_UXTH \<equiv> Opc 56"
abbreviation (input) OP_UXTB :: opcode_t where "OP_UXTB \<equiv> Opc 57"
abbreviation (input) OP_PUSH :: opcode_t where "OP_PUSH \<equiv> Opc 58"
abbreviation (input) OP_POP :: opcode_t where "OP_POP \<equiv> Opc 59"
abbreviation (input) OP_REV :: opcode_t where "OP_REV \<equiv> Opc 60"
abbreviation (input) OP_REV16 :: opcode_t where "OP_REV16 \<equiv> Opc 61"
abbreviation (input) OP_REVSH :: opcode_t where "OP_REVSH \<equiv> Opc 62"
abbreviation (input) OP_CPS :: opcode_t where "OP_CPS \<equiv> Opc 63"
abbreviation (input) OP_BKPT :: opcode_t where "OP_BKPT \<equiv> Opc 64"
abbreviation (input) OP_STM :: opcode_t where "OP_STM \<equiv> Opc 65"
abbreviation (input) OP_LDM :: opcode_t where "OP_LDM \<equiv> Opc 66"
abbreviation (input) OP_B_COND :: opcode_t where "OP_B_COND \<equiv> Opc 67"
abbreviation (input) OP_B_UNCOND :: opcode_t where "OP_B_UNCOND \<equiv> Opc 68"
abbreviation (input) OP_SVC :: opcode_t where "OP_SVC \<equiv> Opc 69"
abbreviation (input) OP_UDF :: opcode_t where "OP_UDF \<equiv> Opc 70"
abbreviation (input) OP_NOP :: opcode_t where "OP_NOP \<equiv> Opc 71"
abbreviation (input) OP_YIELD :: opcode_t where "OP_YIELD \<equiv> Opc 72"
abbreviation (input) OP_WFE :: opcode_t where "OP_WFE \<equiv> Opc 73"
abbreviation (input) OP_WFI :: opcode_t where "OP_WFI \<equiv> Opc 74"
abbreviation (input) OP_SEV :: opcode_t where "OP_SEV \<equiv> Opc 75"
abbreviation (input) OP_IT :: opcode_t where "OP_IT \<equiv> Opc 76"
abbreviation (input) OP_CBZ :: opcode_t where "OP_CBZ \<equiv> Opc 77"
abbreviation (input) OP_CBNZ :: opcode_t where "OP_CBNZ \<equiv> Opc 78"
abbreviation (input) OP_T32_BL :: opcode_t where "OP_T32_BL \<equiv> Opc 79"
abbreviation (input) OP_T32_B_COND :: opcode_t where "OP_T32_B_COND \<equiv> Opc 80"
abbreviation (input) OP_T32_AND_IMM :: opcode_t where "OP_T32_AND_IMM \<equiv> Opc 81"
abbreviation (input) OP_T32_BIC_IMM :: opcode_t where "OP_T32_BIC_IMM \<equiv> Opc 82"
abbreviation (input) OP_T32_ORR_IMM :: opcode_t where "OP_T32_ORR_IMM \<equiv> Opc 83"
abbreviation (input) OP_T32_ORN_IMM :: opcode_t where "OP_T32_ORN_IMM \<equiv> Opc 84"
abbreviation (input) OP_T32_EOR_IMM :: opcode_t where "OP_T32_EOR_IMM \<equiv> Opc 85"
abbreviation (input) OP_T32_TEQ_IMM :: opcode_t where "OP_T32_TEQ_IMM \<equiv> Opc 86"
abbreviation (input) OP_T32_ADD_IMM :: opcode_t where "OP_T32_ADD_IMM \<equiv> Opc 87"
abbreviation (input) OP_T32_ADC_IMM :: opcode_t where "OP_T32_ADC_IMM \<equiv> Opc 88"
abbreviation (input) OP_T32_SBC_IMM :: opcode_t where "OP_T32_SBC_IMM \<equiv> Opc 89"
abbreviation (input) OP_T32_SUB_IMM :: opcode_t where "OP_T32_SUB_IMM \<equiv> Opc 90"
abbreviation (input) OP_T32_RSB_IMM :: opcode_t where "OP_T32_RSB_IMM \<equiv> Opc 91"
abbreviation (input) OP_T32_TST_IMM :: opcode_t where "OP_T32_TST_IMM \<equiv> Opc 92"
abbreviation (input) OP_T32_CMN_IMM :: opcode_t where "OP_T32_CMN_IMM \<equiv> Opc 93"
abbreviation (input) OP_T32_CMP_IMM :: opcode_t where "OP_T32_CMP_IMM \<equiv> Opc 94"
abbreviation (input) OP_T32_MOV_IMM :: opcode_t where "OP_T32_MOV_IMM \<equiv> Opc 95"
abbreviation (input) OP_T32_MVN_IMM :: opcode_t where "OP_T32_MVN_IMM \<equiv> Opc 96"
abbreviation (input) OP_T32_ADDW :: opcode_t where "OP_T32_ADDW \<equiv> Opc 97"
abbreviation (input) OP_T32_SUBW :: opcode_t where "OP_T32_SUBW \<equiv> Opc 98"
abbreviation (input) OP_T32_MOVW :: opcode_t where "OP_T32_MOVW \<equiv> Opc 99"
abbreviation (input) OP_T32_MOVT :: opcode_t where "OP_T32_MOVT \<equiv> Opc 100"
abbreviation (input) OP_T32_ADR_T2 :: opcode_t where "OP_T32_ADR_T2 \<equiv> Opc 101"
abbreviation (input) OP_T32_ADR_T3 :: opcode_t where "OP_T32_ADR_T3 \<equiv> Opc 102"
abbreviation (input) OP_T32_AND_REG :: opcode_t where "OP_T32_AND_REG \<equiv> Opc 103"
abbreviation (input) OP_T32_BIC_REG :: opcode_t where "OP_T32_BIC_REG \<equiv> Opc 104"
abbreviation (input) OP_T32_ORR_REG :: opcode_t where "OP_T32_ORR_REG \<equiv> Opc 105"
abbreviation (input) OP_T32_ORN_REG :: opcode_t where "OP_T32_ORN_REG \<equiv> Opc 106"
abbreviation (input) OP_T32_EOR_REG :: opcode_t where "OP_T32_EOR_REG \<equiv> Opc 107"
abbreviation (input) OP_T32_TEQ_REG :: opcode_t where "OP_T32_TEQ_REG \<equiv> Opc 108"
abbreviation (input) OP_T32_ADD_REG :: opcode_t where "OP_T32_ADD_REG \<equiv> Opc 109"
abbreviation (input) OP_T32_ADC_REG :: opcode_t where "OP_T32_ADC_REG \<equiv> Opc 110"
abbreviation (input) OP_T32_SBC_REG :: opcode_t where "OP_T32_SBC_REG \<equiv> Opc 111"
abbreviation (input) OP_T32_SUB_REG :: opcode_t where "OP_T32_SUB_REG \<equiv> Opc 112"
abbreviation (input) OP_T32_RSB_REG :: opcode_t where "OP_T32_RSB_REG \<equiv> Opc 113"
abbreviation (input) OP_T32_TST_REG :: opcode_t where "OP_T32_TST_REG \<equiv> Opc 114"
abbreviation (input) OP_T32_CMN_REG :: opcode_t where "OP_T32_CMN_REG \<equiv> Opc 115"
abbreviation (input) OP_T32_CMP_REG :: opcode_t where "OP_T32_CMP_REG \<equiv> Opc 116"
abbreviation (input) OP_T32_MOV_REG :: opcode_t where "OP_T32_MOV_REG \<equiv> Opc 117"
abbreviation (input) OP_T32_MVN_REG :: opcode_t where "OP_T32_MVN_REG \<equiv> Opc 118"
abbreviation (input) OP_T32_LDR_IMM :: opcode_t where "OP_T32_LDR_IMM \<equiv> Opc 119"
abbreviation (input) OP_T32_STR_IMM :: opcode_t where "OP_T32_STR_IMM \<equiv> Opc 120"
abbreviation (input) OP_T32_LDR_LIT :: opcode_t where "OP_T32_LDR_LIT \<equiv> Opc 121"
abbreviation (input) OP_T32_LDR_REG :: opcode_t where "OP_T32_LDR_REG \<equiv> Opc 122"
abbreviation (input) OP_T32_STR_REG :: opcode_t where "OP_T32_STR_REG \<equiv> Opc 123"
abbreviation (input) OP_T32_LDRB_IMM :: opcode_t where "OP_T32_LDRB_IMM \<equiv> Opc 124"
abbreviation (input) OP_T32_STRB_IMM :: opcode_t where "OP_T32_STRB_IMM \<equiv> Opc 125"
abbreviation (input) OP_T32_LDRH_IMM :: opcode_t where "OP_T32_LDRH_IMM \<equiv> Opc 126"
abbreviation (input) OP_T32_STRH_IMM :: opcode_t where "OP_T32_STRH_IMM \<equiv> Opc 127"
abbreviation (input) OP_T32_LDRSB_IMM :: opcode_t where "OP_T32_LDRSB_IMM \<equiv> Opc 128"
abbreviation (input) OP_T32_LDRSH_IMM :: opcode_t where "OP_T32_LDRSH_IMM \<equiv> Opc 129"
abbreviation (input) OP_T32_LDRD_IMM :: opcode_t where "OP_T32_LDRD_IMM \<equiv> Opc 130"
abbreviation (input) OP_T32_STRD_IMM :: opcode_t where "OP_T32_STRD_IMM \<equiv> Opc 131"
abbreviation (input) OP_T32_LDM :: opcode_t where "OP_T32_LDM \<equiv> Opc 132"
abbreviation (input) OP_T32_STM :: opcode_t where "OP_T32_STM \<equiv> Opc 133"
abbreviation (input) OP_T32_MSR :: opcode_t where "OP_T32_MSR \<equiv> Opc 134"
abbreviation (input) OP_T32_MRS :: opcode_t where "OP_T32_MRS \<equiv> Opc 135"
abbreviation (input) OP_T32_NOP :: opcode_t where "OP_T32_NOP \<equiv> Opc 136"
abbreviation (input) OP_T32_MUL :: opcode_t where "OP_T32_MUL \<equiv> Opc 137"
abbreviation (input) OP_T32_MLA :: opcode_t where "OP_T32_MLA \<equiv> Opc 138"
abbreviation (input) OP_T32_MLS :: opcode_t where "OP_T32_MLS \<equiv> Opc 139"
abbreviation (input) OP_T32_UMULL :: opcode_t where "OP_T32_UMULL \<equiv> Opc 140"
abbreviation (input) OP_T32_SMULL :: opcode_t where "OP_T32_SMULL \<equiv> Opc 141"
abbreviation (input) OP_T32_UMLAL :: opcode_t where "OP_T32_UMLAL \<equiv> Opc 142"
abbreviation (input) OP_T32_SMLAL :: opcode_t where "OP_T32_SMLAL \<equiv> Opc 143"
abbreviation (input) OP_T32_UDIV :: opcode_t where "OP_T32_UDIV \<equiv> Opc 144"
abbreviation (input) OP_T32_SDIV :: opcode_t where "OP_T32_SDIV \<equiv> Opc 145"
abbreviation (input) OP_T32_BFI :: opcode_t where "OP_T32_BFI \<equiv> Opc 146"
abbreviation (input) OP_T32_BFC :: opcode_t where "OP_T32_BFC \<equiv> Opc 147"
abbreviation (input) OP_T32_UBFX :: opcode_t where "OP_T32_UBFX \<equiv> Opc 148"
abbreviation (input) OP_T32_SBFX :: opcode_t where "OP_T32_SBFX \<equiv> Opc 149"
abbreviation (input) OP_T32_CLZ :: opcode_t where "OP_T32_CLZ \<equiv> Opc 150"
abbreviation (input) OP_T32_RBIT :: opcode_t where "OP_T32_RBIT \<equiv> Opc 151"
abbreviation (input) OP_T32_USAT :: opcode_t where "OP_T32_USAT \<equiv> Opc 152"
abbreviation (input) OP_T32_SSAT :: opcode_t where "OP_T32_SSAT \<equiv> Opc 153"
abbreviation (input) OP_T32_LSL_R :: opcode_t where "OP_T32_LSL_R \<equiv> Opc 154"
abbreviation (input) OP_T32_LSR_R :: opcode_t where "OP_T32_LSR_R \<equiv> Opc 155"
abbreviation (input) OP_T32_ASR_R :: opcode_t where "OP_T32_ASR_R \<equiv> Opc 156"
abbreviation (input) OP_T32_ROR_R :: opcode_t where "OP_T32_ROR_R \<equiv> Opc 157"
abbreviation (input) OP_VLDR_S :: opcode_t where "OP_VLDR_S \<equiv> Opc 158"
abbreviation (input) OP_VSTR_S :: opcode_t where "OP_VSTR_S \<equiv> Opc 159"
abbreviation (input) OP_VADD_S :: opcode_t where "OP_VADD_S \<equiv> Opc 160"
abbreviation (input) OP_VSUB_S :: opcode_t where "OP_VSUB_S \<equiv> Opc 161"
abbreviation (input) OP_VMUL_S :: opcode_t where "OP_VMUL_S \<equiv> Opc 162"
abbreviation (input) OP_VDIV_S :: opcode_t where "OP_VDIV_S \<equiv> Opc 163"
abbreviation (input) OP_VMOV_F_R :: opcode_t where "OP_VMOV_F_R \<equiv> Opc 164"
abbreviation (input) OP_VMOV_R_F :: opcode_t where "OP_VMOV_R_F \<equiv> Opc 165"
abbreviation (input) OP_VMOV_S :: opcode_t where "OP_VMOV_S \<equiv> Opc 166"
abbreviation (input) OP_VABS_S :: opcode_t where "OP_VABS_S \<equiv> Opc 167"
abbreviation (input) OP_VNEG_S :: opcode_t where "OP_VNEG_S \<equiv> Opc 168"
abbreviation (input) OP_VSQRT_S :: opcode_t where "OP_VSQRT_S \<equiv> Opc 169"
abbreviation (input) OP_VMOV_IMM_S :: opcode_t where "OP_VMOV_IMM_S \<equiv> Opc 170"
abbreviation (input) OP_VFMA_S :: opcode_t where "OP_VFMA_S \<equiv> Opc 171"
abbreviation (input) OP_VFMS_S :: opcode_t where "OP_VFMS_S \<equiv> Opc 172"
abbreviation (input) OP_VFNMA_S :: opcode_t where "OP_VFNMA_S \<equiv> Opc 173"
abbreviation (input) OP_VFNMS_S :: opcode_t where "OP_VFNMS_S \<equiv> Opc 174"
abbreviation (input) OP_VMLA_S :: opcode_t where "OP_VMLA_S \<equiv> Opc 175"
abbreviation (input) OP_VMLS_S :: opcode_t where "OP_VMLS_S \<equiv> Opc 176"
abbreviation (input) OP_VNMUL_S :: opcode_t where "OP_VNMUL_S \<equiv> Opc 177"
abbreviation (input) OP_VNMLA_S :: opcode_t where "OP_VNMLA_S \<equiv> Opc 178"
abbreviation (input) OP_VNMLS_S :: opcode_t where "OP_VNMLS_S \<equiv> Opc 179"
abbreviation (input) OP_VPUSH :: opcode_t where "OP_VPUSH \<equiv> Opc 180"
abbreviation (input) OP_VPOP :: opcode_t where "OP_VPOP \<equiv> Opc 181"
abbreviation (input) OP_VLDM :: opcode_t where "OP_VLDM \<equiv> Opc 182"
abbreviation (input) OP_VSTM :: opcode_t where "OP_VSTM \<equiv> Opc 183"
abbreviation (input) OP_VCMP_S :: opcode_t where "OP_VCMP_S \<equiv> Opc 184"
abbreviation (input) OP_VCVT_F_I :: opcode_t where "OP_VCVT_F_I \<equiv> Opc 185"
abbreviation (input) OP_VCVT_I_F :: opcode_t where "OP_VCVT_I_F \<equiv> Opc 186"
abbreviation (input) OP_VMRS :: opcode_t where "OP_VMRS \<equiv> Opc 187"
abbreviation (input) OP_VMSR :: opcode_t where "OP_VMSR \<equiv> Opc 188"
abbreviation (input) OP_T32_TBB :: opcode_t where "OP_T32_TBB \<equiv> Opc 189"
abbreviation (input) OP_T32_TBH :: opcode_t where "OP_T32_TBH \<equiv> Opc 190"
abbreviation (input) OP_T32_IT :: opcode_t where "OP_T32_IT \<equiv> Opc 191"
abbreviation (input) OP_COUNT :: opcode_t where "OP_COUNT \<equiv> Opc 192"

section \<open>Decoded instructions\<close>

record insn_t =
  iop :: opcode_t
  ipc :: u32
  isize :: u8
  ird :: u8
  irn :: u8
  irm :: u8
  irs :: u8
  iimm :: u32
  iraw :: u32
  icond :: u8
  ireg_list :: u32
  iset_flags :: bool
  iwriteback :: bool
  iadd :: bool
  iindex :: bool
  ishift_type :: u8
  ishift_n :: u8
  iit_mask :: u8
  iit_first :: u8
  isd :: u8
  isn :: u8
  ism :: u8

end
