(* ===== verification/Executor.thy ===== *)
theory Executor
  imports Exceptions Insn "HOL-Library.Signed_Division"
begin

text \<open>
  The interpreter of \<^verbatim>\<open>src/core/executor.c\<close>: one definition per stretch of its switch, in
  source order, and \<open>execute\<close> with the IT prologue and the common end of the function.
\<close>

section \<open>Outcomes of a switch case\<close>

text \<open>
  \<open>Break np m\<close> is a case that leaves the switch with \<^verbatim>\<open>next_pc = np\<close>, \<open>Ret b m\<close> one that
  returns from the function, \<open>Stuck\<close> one whose bus write never returns or whose C is
  undefined, \<open>NoCase\<close> an opcode that the stretch has no label for.
\<close>

datatype outcome = Break u32 machine | Ret bool machine | Stuck | NoCase

fun orelse :: "outcome \<Rightarrow> outcome \<Rightarrow> outcome" where
  "orelse NoCase y = y"
| "orelse x y = x"

lemma orelse_weak_cong [cong]: "x = x' \<Longrightarrow> orelse x y = orelse x' y"
  by simp

text \<open>\<^verbatim>\<open>c->halted = true; return false;\<close>\<close>

definition halt_false :: "machine \<Rightarrow> outcome" where
  "halt_false m = Ret False (cpu_update (halted_update (\<lambda>_. True)) m)"

text \<open>
  \<^verbatim>\<open>if (!bus_read(bus, a, sz, &v)) { c->halted = true; return false; }\<close> with the rest of
  the case, and the same for a write.
\<close>

definition rd :: "machine \<Rightarrow> addr_t \<Rightarrow> u32 \<Rightarrow> (u32 \<Rightarrow> machine \<Rightarrow> outcome) \<Rightarrow> outcome" where
  "rd m a sz k = (let (v, m') = bus_read m a sz in case v of None \<Rightarrow> halt_false m' | Some x \<Rightarrow> k x m')"

definition wr :: "machine \<Rightarrow> addr_t \<Rightarrow> u32 \<Rightarrow> u32 \<Rightarrow> (machine \<Rightarrow> outcome) \<Rightarrow> outcome" where
  "wr m a sz v k = (case bus_write m a sz v of
     None \<Rightarrow> Stuck | Some (ok, m') \<Rightarrow> if ok then k m' else halt_false m')"

abbreviation nz :: "machine \<Rightarrow> u32 \<Rightarrow> machine" where
  "nz m v \<equiv> cpu_update (\<lambda>c. cpu_set_flags_nz c v) m"
abbreviation nzcv_add :: "machine \<Rightarrow> u32 \<Rightarrow> u32 \<Rightarrow> u32 \<Rightarrow> bool \<Rightarrow> machine" where
  "nzcv_add m a b v ci \<equiv> cpu_update (\<lambda>c. cpu_set_flags_nzcv_add c a b v ci) m"
abbreviation nzcv_sub :: "machine \<Rightarrow> u32 \<Rightarrow> u32 \<Rightarrow> u32 \<Rightarrow> machine" where
  "nzcv_sub m a b v \<equiv> cpu_update (\<lambda>c. cpu_set_flags_nzcv_sub c a b v) m"
abbreviation carry_in :: "machine \<Rightarrow> bool" where
  "carry_in m \<equiv> apsr (cpu m) AND APSR_C \<noteq> 0"
abbreviation fs :: "machine \<Rightarrow> u32 \<Rightarrow> u32" where "fs m n \<equiv> fpu_u (fpu (cpu m)) n"
abbreviation set_fs :: "machine \<Rightarrow> u32 \<Rightarrow> u32 \<Rightarrow> machine" where
  "set_fs m n v \<equiv> cpu_update (fpu_update (fpu_u_update (\<lambda>f. f(n := v)))) m"

section \<open>Shifts and counts\<close>

definition t32_shift :: "u32 \<Rightarrow> u8 \<Rightarrow> u8 \<Rightarrow> u32" where
  "t32_shift v type n =
     (if n = 0 \<and> type = 0 then v
      else if type AND 3 = 0 then (if n \<ge> 32 then 0 else push_bit (unat n) v)
      else if type AND 3 = 1 then (if n \<ge> 32 then 0 else drop_bit (unat n) v)
      else if type AND 3 = 2 then (if n \<ge> 32 then sar v 31 else sar v (unat n))
      else (if n \<noteq> 0 then drop_bit (unat n) v OR push_bit (32 - unat n) v else v))"

definition op_is_flagsetter :: "opcode_t \<Rightarrow> bool" where
  "op_is_flagsetter op \<longleftrightarrow>
     op = OP_CMP_IMM \<or> op = OP_CMP_REG \<or> op = OP_CMP_REG_T2 \<or> op = OP_CMN_REG \<or> op = OP_TST_REG \<or>
     op = OP_T32_CMP_IMM \<or> op = OP_T32_CMP_REG \<or> op = OP_T32_CMN_IMM \<or> op = OP_T32_CMN_REG \<or>
     op = OP_T32_TST_IMM \<or> op = OP_T32_TST_REG \<or> op = OP_T32_TEQ_IMM \<or> op = OP_T32_TEQ_REG"

text \<open>\<open>sh >= 32 ? 0 : v << sh\<close> and its right-shifting and rotating companions.\<close>

definition lsl_by :: "u32 \<Rightarrow> u32 \<Rightarrow> u32" where
  "lsl_by v sh = (if sh \<ge> 32 then 0 else push_bit (unat sh) v)"
definition lsr_by :: "u32 \<Rightarrow> u32 \<Rightarrow> u32" where
  "lsr_by v sh = (if sh \<ge> 32 then 0 else drop_bit (unat sh) v)"
definition asr_by :: "u32 \<Rightarrow> u32 \<Rightarrow> u32" where
  "asr_by v sh = (if sh \<ge> 32 then sar v 31 else sar v (unat sh))"
definition ror_by :: "u32 \<Rightarrow> u32 \<Rightarrow> u32" where
  "ror_by v sh = (if sh \<noteq> 0 then drop_bit (unat sh) v OR push_bit (32 - unat sh) v else v)"

section \<open>The switch\<close>

definition exec_dp1 :: "machine \<Rightarrow> insn_t \<Rightarrow> u32 \<Rightarrow> outcome" where
  "exec_dp1 m i np =
     (let op = iop i; rd = ird i; n = reg m (irn i); k = reg m (irm i); imm = iimm i
      in if op = OP_NOP then Break np m
         else if op = OP_MOV_IMM then Break np (nz (set_reg m rd imm) imm)
         else if op = OP_ADD_REG then
           (let v = n + k in Break np (nzcv_add (set_reg m rd v) n k v False))
         else if op = OP_SUB_REG then
           (let v = n - k in Break np (nzcv_sub (set_reg m rd v) n k v))
         else if op = OP_ADD_IMM3 \<or> op = OP_ADD_IMM8 then
           (let v = n + imm in Break np (nzcv_add (set_reg m rd v) n imm v False))
         else if op = OP_SUB_IMM3 \<or> op = OP_SUB_IMM8 then
           (let v = n - imm in Break np (nzcv_sub (set_reg m rd v) n imm v))
         else if op = OP_CMP_IMM then Break np (nzcv_sub m n imm (n - imm))
         else if op = OP_CMP_REG then Break np (nzcv_sub m n k (n - k))
         else if op = OP_AND_REG then (let v = n AND k in Break np (nz (set_reg m rd v) v))
         else if op = OP_EOR_REG then (let v = n XOR k in Break np (nz (set_reg m rd v) v))
         else if op = OP_LSL_IMM then
           (let v = (if imm \<noteq> 0 then push_bit (unat imm) k else k) in Break np (nz (set_reg m rd v) v))
         else if op = OP_LSR_IMM then
           (let sh = (if imm \<noteq> 0 then imm else 32); v = lsr_by k sh in Break np (nz (set_reg m rd v) v))
         else if op = OP_MUL then (let v = n * k in Break np (nz (set_reg m rd v) v))
         else if op = OP_ORR_REG then (let v = n OR k in Break np (nz (set_reg m rd v) v))
         else NoCase)"

definition exec_dp2 :: "machine \<Rightarrow> insn_t \<Rightarrow> u32 \<Rightarrow> outcome" where
  "exec_dp2 m i np =
     (let op = iop i; rd = ird i; n = reg m (irn i); k = reg m (irm i); d = reg m (ird i); imm = iimm i
      in if op = OP_BIC_REG then (let v = n AND NOT k in Break np (nz (set_reg m rd v) v))
         else if op = OP_MVN_REG then (let v = NOT k in Break np (nz (set_reg m rd v) v))
         else if op = OP_TST_REG then Break np (nz m (n AND k))
         else if op = OP_CMN_REG then Break np (nzcv_add m n k (n + k) False)
         else if op = OP_RSB_IMM then
           (let v = 0 - n in Break np (nzcv_sub (set_reg m rd v) 0 n v))
         else if op = OP_ADC_REG then
           (let ci = carry_in m; v = n + k + b2w ci
            in Break np (nzcv_add (set_reg m rd v) n k v ci))
         else if op = OP_SBC_REG then
           (let ci = carry_in m; nb = NOT k; v = n + nb + b2w ci
            in Break np (nzcv_add (set_reg m rd v) n nb v ci))
         else if op = OP_ASR_IMM then
           (let sh = (if imm \<noteq> 0 then imm else 32); v = asr_by k sh in Break np (nz (set_reg m rd v) v))
         else if op = OP_LSL_REG then (let v = lsl_by d (k AND 0xFF) in Break np (nz (set_reg m rd v) v))
         else if op = OP_LSR_REG then (let v = lsr_by d (k AND 0xFF) in Break np (nz (set_reg m rd v) v))
         else if op = OP_ASR_REG then (let v = asr_by d (k AND 0xFF) in Break np (nz (set_reg m rd v) v))
         else if op = OP_ROR_REG then (let v = ror_by d (k AND 0x1F) in Break np (nz (set_reg m rd v) v))
         else NoCase)"

text \<open>Branches, SVC and the high-register operations.\<close>

abbreviation is_exc_return :: "machine \<Rightarrow> u32 \<Rightarrow> bool" where
  "is_exc_return m t \<equiv> t AND 0xFFFFFFF0 = 0xFFFFFFF0 \<and> mode (cpu m) = MODE_HANDLER"

definition do_exc_return :: "machine \<Rightarrow> u32 \<Rightarrow> outcome" where
  "do_exc_return m t = (let (ok, m') = exc_return m t in if ok then Ret True m' else halt_false m')"

definition reg_pc4 :: "machine \<Rightarrow> u8 \<Rightarrow> u32" where
  "reg_pc4 m n = (if n = REG_PC then reg m REG_PC + 4 else reg m n)"

definition exec_branch :: "machine \<Rightarrow> insn_t \<Rightarrow> u32 \<Rightarrow> outcome" where
  "exec_branch m i np =
     (let op = iop i; rd = ird i; pc = reg m REG_PC; imm = iimm i
      in if op = OP_B_COND then
           Break (if cond_pass (apsr (cpu m)) (icond i) then pc + 4 + imm else np) m
         else if op = OP_B_UNCOND then Break (pc + 4 + imm) m
         else if op = OP_CBZ then Break (if reg m (irn i) = 0 then pc + 4 + imm else np) m
         else if op = OP_CBNZ then Break (if reg m (irn i) \<noteq> 0 then pc + 4 + imm else np) m
         else if op = OP_UDF then halt_false m
         else if op = OP_SVC then
           (case exc_enter (set_reg m REG_PC np) EXC_SVC of
              None \<Rightarrow> Stuck
            | Some (ok, m') \<Rightarrow> if ok then Ret True m' else halt_false m')
         else if op = OP_ADD_REG_T2 then
           (let v = reg_pc4 m (irn i) + reg_pc4 m (irm i)
            in if rd = REG_PC then Break (v AND NOT 1) m else Break np (set_reg m rd v))
         else if op = OP_CMP_REG_T2 then
           (let a = reg_pc4 m (irn i); b = reg_pc4 m (irm i) in Break np (nzcv_sub m a b (a - b)))
         else if op = OP_MOV_REG then
           (let v = reg_pc4 m (irm i)
            in if rd = REG_PC then Break (v AND NOT 1) m else Break np (set_reg m rd v))
         else if op = OP_BX then
           (let t = reg m (irm i)
            in if is_exc_return m t then do_exc_return m t else Break (t AND NOT 1) m)
         else if op = OP_BLX_REG then
           (let t = reg m (irm i) in Break (t AND NOT 1) (set_reg m REG_LR ((pc + 2) OR 1)))
         else NoCase)"

text \<open>Loads and stores of the 16-bit encodings.\<close>

definition exec_ldst1 :: "machine \<Rightarrow> insn_t \<Rightarrow> u32 \<Rightarrow> outcome" where
  "exec_ldst1 m i np =
     (let op = iop i; rd' = ird i; n = reg m (irn i); d = reg m (ird i); imm = iimm i;
          a = n + imm
      in if op = OP_LDR_LIT then
           rd m (((reg m REG_PC + 4) AND NOT 3) + imm) 4 (\<lambda>v m. Break np (set_reg m rd' v))
         else if op = OP_LDR_IMM then rd m a 4 (\<lambda>v m. Break np (set_reg m rd' v))
         else if op = OP_STR_IMM then wr m a 4 d (\<lambda>m. Break np m)
         else if op = OP_LDRB_IMM then rd m a 1 (\<lambda>v m. Break np (set_reg m rd' (v AND 0xFF)))
         else if op = OP_STRB_IMM then wr m a 1 (d AND 0xFF) (\<lambda>m. Break np m)
         else if op = OP_LDRH_IMM then rd m a 2 (\<lambda>v m. Break np (set_reg m rd' (v AND 0xFFFF)))
         else if op = OP_STRH_IMM then wr m a 2 (d AND 0xFFFF) (\<lambda>m. Break np m)
         else NoCase)"

definition exec_ldst2 :: "machine \<Rightarrow> insn_t \<Rightarrow> u32 \<Rightarrow> outcome" where
  "exec_ldst2 m i np =
     (let op = iop i; rd' = ird i; d = reg m (ird i); imm = iimm i; sp = reg m REG_SP;
          a = reg m (irn i) + reg m (irm i)
      in if op = OP_LDR_REG then rd m a 4 (\<lambda>v m. Break np (set_reg m rd' v))
         else if op = OP_STR_REG then wr m a 4 d (\<lambda>m. Break np m)
         else if op = OP_LDRB_REG then rd m a 1 (\<lambda>v m. Break np (set_reg m rd' (v AND 0xFF)))
         else if op = OP_STRB_REG then wr m a 1 (d AND 0xFF) (\<lambda>m. Break np m)
         else if op = OP_LDRH_REG then rd m a 2 (\<lambda>v m. Break np (set_reg m rd' (v AND 0xFFFF)))
         else if op = OP_STRH_REG then wr m a 2 (d AND 0xFFFF) (\<lambda>m. Break np m)
         else if op = OP_LDRSB_REG then rd m a 1 (\<lambda>v m. Break np (set_reg m rd' (sx8 v)))
         else if op = OP_LDRSH_REG then rd m a 2 (\<lambda>v m. Break np (set_reg m rd' (sx16 v)))
         else if op = OP_LDR_SP then rd m (sp + imm) 4 (\<lambda>v m. Break np (set_reg m rd' v))
         else if op = OP_STR_SP then wr m (sp + imm) 4 d (\<lambda>m. Break np m)
         else if op = OP_ADR then
           Break np (set_reg m rd' (((reg m REG_PC + 4) AND NOT 3) + imm))
         else if op = OP_ADD_SP_IMM then Break np (set_reg m rd' (sp + imm))
         else if op = OP_ADD_SP_SP then Break np (set_reg m REG_SP (sp + imm))
         else if op = OP_SUB_SP_SP then Break np (set_reg m REG_SP (sp - imm))
         else NoCase)"

text \<open>Extensions and byte reversal.\<close>

definition rev_word :: "u32 \<Rightarrow> u32" where
  "rev_word v = push_bit 24 (v AND 0xFF) OR push_bit 8 (v AND 0xFF00) OR
     fld v 8 0xFF00 OR fld v 24 0xFF"

definition rev16_word :: "u32 \<Rightarrow> u32" where
  "rev16_word v = push_bit 8 (v AND 0xFF) OR fld v 8 0xFF OR
     push_bit 8 (v AND 0xFF0000) OR fld v 8 0xFF0000"

definition revsh_word :: "u32 \<Rightarrow> u32" where
  "revsh_word v = sx16 (push_bit 8 (v AND 0xFF) OR fld v 8 0xFF)"

definition exec_ext :: "machine \<Rightarrow> insn_t \<Rightarrow> u32 \<Rightarrow> outcome" where
  "exec_ext m i np =
     (let op = iop i; put = (\<lambda>v. Break np (set_reg m (ird i) v)); k = reg m (irm i)
      in if op = OP_SXTH then put (sx16 k)
         else if op = OP_SXTB then put (sx8 k)
         else if op = OP_UXTH then put (k AND 0xFFFF)
         else if op = OP_UXTB then put (k AND 0xFF)
         else if op = OP_REV then put (rev_word k)
         else if op = OP_REV16 then put (rev16_word k)
         else if op = OP_REVSH then put (revsh_word k)
         else NoCase)"

text \<open>
  Block transfers.  \<^verbatim>\<open>l & (1u << k)\<close> is \<open>bit l k\<close>.  \<open>stm_loop\<close> stores the registers of the
  list \<open>l\<close> from the address \<open>a\<close> up; \<open>ldm_loop\<close> loads them and hands a value loaded for
  register 15 on as \<open>pcv\<close>, where the code keeps it in \<^verbatim>\<open>pc_val\<close> or in \<^verbatim>\<open>next_pc\<close>.
\<close>

definition reg_count :: "u32 \<Rightarrow> nat \<Rightarrow> u32" where
  "reg_count l n = of_nat (length (List.filter (bit l) [0..<n]))"

fun stm_loop :: "(cpu_t \<Rightarrow> nat \<Rightarrow> u32) \<Rightarrow> u32 \<Rightarrow> nat list \<Rightarrow> machine \<Rightarrow> addr_t
    \<Rightarrow> (machine \<Rightarrow> addr_t \<Rightarrow> outcome) \<Rightarrow> outcome" where
  "stm_loop val l [] m a rest = rest m a"
| "stm_loop val l (k # ks) m a rest =
     (if bit l k then wr m a 4 (val (cpu m) k) (\<lambda>m. stm_loop val l ks m (a + 4) rest)
      else stm_loop val l ks m a rest)"

fun ldm_loop :: "u32 \<Rightarrow> nat list \<Rightarrow> machine \<Rightarrow> addr_t \<Rightarrow> u32 option
    \<Rightarrow> (machine \<Rightarrow> addr_t \<Rightarrow> u32 option \<Rightarrow> outcome) \<Rightarrow> outcome" where
  "ldm_loop l [] m a pcv rest = rest m a pcv"
| "ldm_loop l (k # ks) m a pcv rest =
     (if bit l k then rd m a 4 (\<lambda>v m.
        if k = 15 then ldm_loop l ks m (a + 4) (Some v) rest
        else ldm_loop l ks (set_reg m (of_nat k) v) (a + 4) pcv rest)
      else ldm_loop l ks m a pcv rest)"

definition exec_stack :: "machine \<Rightarrow> insn_t \<Rightarrow> u32 \<Rightarrow> outcome" where
  "exec_stack m i np =
     (let op = iop i; l = ireg_list i; rn = irn i
      in if op = OP_PUSH then
           (let sp = reg m REG_SP - reg_count l 15 * 4;
                m = set_reg m REG_SP sp
            in stm_loop (\<lambda>c k. if k = 14 then r_of c REG_LR else r_of c (of_nat k)) l [0..<15] m sp
                 (\<lambda>m a. Break np m))
         else if op = OP_POP then
           ldm_loop l [0..<16] m (reg m REG_SP) None (\<lambda>m sp pcv.
             let m = set_reg m REG_SP sp
             in case pcv of
                  Some pc_val \<Rightarrow>
                    if is_exc_return m pc_val then do_exc_return m pc_val
                    else Break (pc_val AND NOT 1) m
                | None \<Rightarrow> Break np m)
         else if op = OP_STM then
           stm_loop (\<lambda>c k. r_of c (of_nat k)) l [0..<8] m (reg m rn)
             (\<lambda>m a. Break np (set_reg m rn a))
         else if op = OP_LDM then
           (let wb = \<not> bit l (unat rn)
            in ldm_loop l [0..<8] m (reg m rn) None
                 (\<lambda>m a pcv. Break np (if wb then set_reg m rn a else m)))
         else NoCase)"

text \<open>Hints, CPS, the 32-bit branches and IT.\<close>

definition t32_cond :: "u32 \<Rightarrow> u8 \<Rightarrow> bool" where
  "t32_cond f cond =
     (let nf = f AND APSR_N \<noteq> 0; zf = f AND APSR_Z \<noteq> 0;
          cf = f AND APSR_C \<noteq> 0; vf = f AND APSR_V \<noteq> 0
      in if cond = 0x0 then zf
         else if cond = 0x1 then \<not> zf
         else if cond = 0x2 then cf
         else if cond = 0x3 then \<not> cf
         else if cond = 0x4 then nf
         else if cond = 0x5 then \<not> nf
         else if cond = 0x6 then vf
         else if cond = 0x7 then \<not> vf
         else if cond = 0x8 then cf \<and> \<not> zf
         else if cond = 0x9 then \<not> cf \<or> zf
         else if cond = 0xA then nf = vf
         else if cond = 0xB then nf \<noteq> vf
         else if cond = 0xC then \<not> zf \<and> nf = vf
         else if cond = 0xD then zf \<or> nf \<noteq> vf
         else False)"

definition exec_misc :: "machine \<Rightarrow> insn_t \<Rightarrow> u32 \<Rightarrow> outcome" where
  "exec_misc m i np =
     (let op = iop i; pc = reg m REG_PC; imm = iimm i
      in if op = OP_YIELD \<or> op = OP_WFE \<or> op = OP_WFI \<or> op = OP_SEV then Break np m
         else if op = OP_BKPT then Ret True (cpu_update (halted_update (\<lambda>_. True)) m)
         else if op = OP_CPS then
           (let im = fld imm 2 1; I_bit = fld imm 1 1; F_bit = imm AND 1;
                b = (if im \<noteq> 0 then 1 else 0);
                m = (if I_bit \<noteq> 0 then cpu_update (primask_update (\<lambda>_. b)) m else m);
                m = (if F_bit \<noteq> 0 then cpu_update (faultmask_update (\<lambda>_. b)) m else m)
            in Break np m)
         else if op = OP_T32_BL then
           Break ((pc + 4 + imm) AND NOT 1) (set_reg m REG_LR ((pc + 4) OR 1))
         else if op = OP_T32_B_COND then
           Break (if t32_cond (apsr (cpu m)) (icond i) then pc + 4 + imm else np) m
         else if op = OP_T32_IT then
           Break np (cpu_update (itstate_update (\<lambda>_. push_bit 4 (iit_first i) OR iit_mask i)) m)
         else NoCase)"

text \<open>
  The 32-bit data processing operations, with a modified immediate or a shifted register.
  \<open>f_if\<close> is \<^verbatim>\<open>if (i->set_flags) ...\<close>.
\<close>

definition f_if :: "insn_t \<Rightarrow> (cpu_t \<Rightarrow> cpu_t) \<Rightarrow> machine \<Rightarrow> machine" where
  "f_if i f m = (if iset_flags i then cpu_update f m else m)"

definition exec_t32_imm :: "machine \<Rightarrow> insn_t \<Rightarrow> u32 \<Rightarrow> outcome" where
  "exec_t32_imm m i np =
     (let op = iop i; n = reg m (irn i); imm = iimm i; ci = carry_in m;
          logic = (\<lambda>v. Break np (f_if i (\<lambda>c. cpu_set_flags_nz c v) (set_reg m (ird i) v)));
          add = (\<lambda>a b v ci. Break np (f_if i (\<lambda>c. cpu_set_flags_nzcv_add c a b v ci) (set_reg m (ird i) v)));
          sub = (\<lambda>a b v. Break np (f_if i (\<lambda>c. cpu_set_flags_nzcv_sub c a b v) (set_reg m (ird i) v)))
      in if op = OP_T32_AND_IMM then logic (n AND imm)
         else if op = OP_T32_BIC_IMM then logic (n AND NOT imm)
         else if op = OP_T32_ORR_IMM then logic (n OR imm)
         else if op = OP_T32_ORN_IMM then logic (n OR NOT imm)
         else if op = OP_T32_EOR_IMM then logic (n XOR imm)
         else if op = OP_T32_TEQ_IMM then Break np (nz m (n XOR imm))
         else if op = OP_T32_TST_IMM then Break np (nz m (n AND imm))
         else if op = OP_T32_ADD_IMM then add n imm (n + imm) False
         else if op = OP_T32_ADC_IMM then add n imm (n + imm + b2w ci) ci
         else if op = OP_T32_SBC_IMM then (let nb = NOT imm in add n nb (n + nb + b2w ci) ci)
         else if op = OP_T32_SUB_IMM then sub n imm (n - imm)
         else if op = OP_T32_RSB_IMM then sub imm n (imm - n)
         else if op = OP_T32_CMN_IMM then Break np (nzcv_add m n imm (n + imm) False)
         else if op = OP_T32_CMP_IMM then Break np (nzcv_sub m n imm (n - imm))
         else if op = OP_T32_MOV_IMM then logic imm
         else if op = OP_T32_MVN_IMM then logic (NOT imm)
         else NoCase)"

definition exec_t32_plain :: "machine \<Rightarrow> insn_t \<Rightarrow> u32 \<Rightarrow> outcome" where
  "exec_t32_plain m i np =
     (let op = iop i; n = reg m (irn i); imm = iimm i; put = (\<lambda>v. Break np (set_reg m (ird i) v));
          base_pc = (reg m REG_PC + 4) AND NOT 3
      in if op = OP_T32_ADDW then put (n + imm)
         else if op = OP_T32_SUBW then put (n - imm)
         else if op = OP_T32_MOVW then put imm
         else if op = OP_T32_MOVT then
           put ((reg m (ird i) AND 0x0000FFFF) OR push_bit 16 (imm AND 0xFFFF))
         else if op = OP_T32_ADR_T2 then put (base_pc - imm)
         else if op = OP_T32_ADR_T3 then put (base_pc + imm)
         else NoCase)"

definition exec_t32_reg :: "machine \<Rightarrow> insn_t \<Rightarrow> u32 \<Rightarrow> outcome" where
  "exec_t32_reg m i np =
     (let op = iop i; n = reg m (irn i); b = t32_shift (reg m (irm i)) (ishift_type i) (ishift_n i);
          ci = carry_in m;
          logic = (\<lambda>v. Break np (f_if i (\<lambda>c. cpu_set_flags_nz c v) (set_reg m (ird i) v)));
          add = (\<lambda>a b v ci. Break np (f_if i (\<lambda>c. cpu_set_flags_nzcv_add c a b v ci) (set_reg m (ird i) v)));
          sub = (\<lambda>a b v. Break np (f_if i (\<lambda>c. cpu_set_flags_nzcv_sub c a b v) (set_reg m (ird i) v)))
      in if op = OP_T32_AND_REG then logic (n AND b)
         else if op = OP_T32_BIC_REG then logic (n AND NOT b)
         else if op = OP_T32_ORR_REG then logic (n OR b)
         else if op = OP_T32_ORN_REG then logic (n OR NOT b)
         else if op = OP_T32_EOR_REG then logic (n XOR b)
         else if op = OP_T32_TEQ_REG then Break np (nz m (n XOR b))
         else if op = OP_T32_TST_REG then Break np (nz m (n AND b))
         else if op = OP_T32_MOV_REG then logic b
         else if op = OP_T32_MVN_REG then logic (NOT b)
         else if op = OP_T32_ADD_REG then add n b (n + b) False
         else if op = OP_T32_ADC_REG then add n b (n + b + b2w ci) ci
         else if op = OP_T32_SBC_REG then (let nb = NOT b in add n nb (n + nb + b2w ci) ci)
         else if op = OP_T32_SUB_REG then sub n b (n - b)
         else if op = OP_T32_RSB_REG then sub b n (b - n)
         else if op = OP_T32_CMN_REG then Break np (nzcv_add m n b (n + b) False)
         else if op = OP_T32_CMP_REG then Break np (nzcv_sub m n b (n - b))
         else NoCase)"

text \<open>The 32-bit loads and stores.\<close>

definition exec_t32_ldst :: "machine \<Rightarrow> insn_t \<Rightarrow> u32 \<Rightarrow> outcome" where
  "exec_t32_ldst m i np =
     (let op = iop i; base = reg m (irn i); off = iimm i;
          a = (if iadd i then base + off else base - off);
          ea = (if iindex i then a else base);
          sz = (if op = OP_T32_LDR_IMM \<or> op = OP_T32_STR_IMM then 4
                else if op = OP_T32_LDRH_IMM \<or> op = OP_T32_LDRSH_IMM \<or> op = OP_T32_STRH_IMM then 2
                else 1);
          is_load = (op = OP_T32_LDR_IMM \<or> op = OP_T32_LDRH_IMM \<or> op = OP_T32_LDRB_IMM \<or>
                     op = OP_T32_LDRSB_IMM \<or> op = OP_T32_LDRSH_IMM);
          wb = (\<lambda>m. Break np (if iwriteback i then set_reg m (irn i) a else m))
      in if is_load then
           rd m ea sz (\<lambda>v m.
             let v = (if op = OP_T32_LDRSB_IMM then sx8 v
                      else if op = OP_T32_LDRSH_IMM then sx16 v else v)
             in wb (set_reg m (ird i) v))
         else if op = OP_T32_STR_IMM \<or> op = OP_T32_STRH_IMM \<or> op = OP_T32_STRB_IMM then
           wr m ea sz (reg m (ird i)) wb
         else NoCase)"

definition exec_t32_ldst2 :: "machine \<Rightarrow> insn_t \<Rightarrow> u32 \<Rightarrow> outcome" where
  "exec_t32_ldst2 m i np =
     (let op = iop i; base = reg m (irn i); off = iimm i;
          a = (if iadd i then base + off else base - off);
          ea = (if iindex i then a else base);
          wb = (\<lambda>m. Break np (if iwriteback i then set_reg m (irn i) a else m));
          lit = (reg m REG_PC + 4) AND NOT 3;
          ra = base + push_bit (unat (ishift_n i)) (reg m (irm i))
      in if op = OP_T32_LDR_LIT then
           rd m (if iadd i then lit + off else lit - off) 4 (\<lambda>v m. Break np (set_reg m (ird i) v))
         else if op = OP_T32_LDR_REG then rd m ra 4 (\<lambda>v m. Break np (set_reg m (ird i) v))
         else if op = OP_T32_STR_REG then wr m ra 4 (reg m (ird i)) (\<lambda>m. Break np m)
         else if op = OP_T32_LDRD_IMM then
           rd m ea 4 (\<lambda>v0 m. rd m (ea + 4) 4 (\<lambda>v1 m.
             wb (set_reg (set_reg m (ird i) v0) (irs i) v1)))
         else if op = OP_T32_STRD_IMM then
           wr m ea 4 (reg m (ird i)) (\<lambda>m. wr m (ea + 4) 4 (reg m (irs i)) wb)
         else if op = OP_T32_NOP then Break np m
         else NoCase)"

text \<open>
  Single-precision operations.  The arithmetic is that of the host, \<open>host_fpu\<close>; the sign
  changes are the C unary minus, which flips the sign bit.  The block transfers index the
  32 registers by \<^verbatim>\<open>sd + k\<close>, which is out of the array, and undefined, from 32 on.
\<close>

definition f_neg :: "u32 \<Rightarrow> u32" where
  "f_neg v = v XOR 0x80000000"

definition exec_vfp_arith :: "machine \<Rightarrow> insn_t \<Rightarrow> u32 \<Rightarrow> outcome" where
  "exec_vfp_arith m i np =
     (let op = iop i; h = host_fpu m;
          d = fs m (to32 (isd i)); n = fs m (to32 (isn i)); k = fs m (to32 (ism i));
          put = (\<lambda>v. Break np (set_fs m (to32 (isd i)) v));
          base = (if irn i = REG_PC then (reg m REG_PC + 4) AND NOT 3 else reg m (irn i));
          a = (if iadd i then base + iimm i else base - iimm i);
          b = reg m (irn i);
          sa = (if iadd i then b + iimm i else b - iimm i)
      in if op = OP_VLDR_S then rd m a 4 (\<lambda>v m. Break np (set_fs m (to32 (isd i)) v))
         else if op = OP_VSTR_S then wr m sa 4 d (\<lambda>m. Break np m)
         else if op = OP_VADD_S then put (fp_add h n k)
         else if op = OP_VSUB_S then put (fp_sub h n k)
         else if op = OP_VMUL_S then put (fp_mul h n k)
         else if op = OP_VDIV_S then put (fp_div h n k)
         else if op = OP_VNMUL_S then put (f_neg (fp_mul h n k))
         else if op = OP_VMLA_S then put (fp_add h d (fp_mul h n k))
         else if op = OP_VMLS_S then put (fp_sub h d (fp_mul h n k))
         else if op = OP_VNMLA_S then put (fp_sub h (f_neg d) (fp_mul h n k))
         else if op = OP_VNMLS_S then put (fp_add h (f_neg d) (fp_mul h n k))
         else if op = OP_VFMA_S then put (fp_fma h n k d)
         else if op = OP_VFMS_S then put (fp_fma h (f_neg n) k d)
         else if op = OP_VFNMA_S then put (fp_fma h n k (f_neg d))
         else if op = OP_VFNMS_S then put (fp_fma h (f_neg n) k (f_neg d))
         else NoCase)"

text \<open>
  The loops of VPUSH, VPOP, VLDM and VSTM: \<open>n\<close> registers from \<open>s\<close> on, from address \<open>a\<close> up.
\<close>

fun vst_loop :: "nat \<Rightarrow> u32 \<Rightarrow> machine \<Rightarrow> addr_t \<Rightarrow> (machine \<Rightarrow> addr_t \<Rightarrow> outcome) \<Rightarrow> outcome" where
  "vst_loop 0 s m a rest = rest m a"
| "vst_loop (Suc n) s m a rest =
     (if s < 32 then wr m a 4 (fs m s) (\<lambda>m. vst_loop n (s + 1) m (a + 4) rest) else Stuck)"

fun vld_loop :: "nat \<Rightarrow> u32 \<Rightarrow> machine \<Rightarrow> addr_t \<Rightarrow> (machine \<Rightarrow> addr_t \<Rightarrow> outcome) \<Rightarrow> outcome" where
  "vld_loop 0 s m a rest = rest m a"
| "vld_loop (Suc n) s m a rest =
     rd m a 4 (\<lambda>v m. if s < 32 then vld_loop n (s + 1) (set_fs m s v) (a + 4) rest else Stuck)"

definition exec_vfp_block :: "machine \<Rightarrow> insn_t \<Rightarrow> u32 \<Rightarrow> outcome" where
  "exec_vfp_block m i np =
     (let op = iop i; cnt = iimm i; sd = to32 (isd i)
      in if op = OP_VPUSH then
           (let sp = reg m REG_SP - cnt * 4
            in vst_loop (unat cnt) sd (set_reg m REG_SP sp) sp (\<lambda>m a. Break np m))
         else if op = OP_VPOP then
           (let sp = reg m REG_SP
            in vld_loop (unat cnt) sd m sp (\<lambda>m a. Break np (set_reg m REG_SP (sp + cnt * 4))))
         else if op = OP_VLDM \<or> op = OP_VSTM then
           (let base = reg m (irn i);
                a = (if iadd i then base else base - cnt * 4);
                start = a;
                fin = (\<lambda>m a. Break np (if iwriteback i
                         then set_reg m (irn i) (if iadd i then a else start) else m))
            in if op = OP_VLDM then vld_loop (unat cnt) sd m a fin
               else vst_loop (unat cnt) sd m a fin)
         else NoCase)"

definition vcmp_nzcv :: "float_ops \<Rightarrow> u32 \<Rightarrow> u32 \<Rightarrow> u32" where
  "vcmp_nzcv h a b =
     (if fp_lt h b a then 0x20000000
      else if fp_lt h a b then 0x80000000
      else if fp_eq h a b then 0x60000000
      else 0x30000000)"

definition exec_vfp_misc :: "machine \<Rightarrow> insn_t \<Rightarrow> u32 \<Rightarrow> outcome" where
  "exec_vfp_misc m i np =
     (let op = iop i; h = host_fpu m; k = fs m (to32 (ism i));
          put = (\<lambda>v. Break np (set_fs m (to32 (isd i)) v))
      in if op = OP_VMOV_S then put k
         else if op = OP_VMOV_IMM_S then put (iimm i)
         else if op = OP_VABS_S then put (k AND 0x7FFFFFFF)
         else if op = OP_VNEG_S then put (k XOR 0x80000000)
         else if op = OP_VSQRT_S then
           put (if fp_lt h 0 k \<or> fp_eq h k 0 then fp_sqrt h k else fp_div h 0 0)
         else if op = OP_VMOV_R_F then Break np (set_fs m (to32 (isn i)) (reg m (ird i)))
         else if op = OP_VMOV_F_R then Break np (set_reg m (ird i) (fs m (to32 (isn i))))
         else if op = OP_VMRS then
           (if ird i = 15
            then Break np (cpu_update (\<lambda>c. c\<lparr>apsr := (apsr c AND 0x07FFFFFF) OR
                                               (fpscr (fpu c) AND 0xF8000000)\<rparr>) m)
            else Break np (set_reg m (ird i) (fpscr (fpu (cpu m)))))
         else if op = OP_VMSR then
           Break np (cpu_update (fpu_update (fpscr_update (\<lambda>_. reg m (ird i)))) m)
         else if op = OP_VCMP_S then
           (let a = fs m (to32 (isd i)); b = (if ism i = 0 then 0 else k); nzcv = vcmp_nzcv h a b
            in Break np (cpu_update (fpu_update (fpscr_update (\<lambda>f. (f AND 0x07FFFFFF) OR nzcv))) m))
         else if op = OP_VCVT_F_I then
           (case fp_to_i32 h k of Some v \<Rightarrow> put v | None \<Rightarrow> Stuck)
         else if op = OP_VCVT_I_F then put (fp_of_i32 h k)
         else NoCase)"

text \<open>LDM and STM of the 32-bit encodings.\<close>

definition exec_t32_block :: "machine \<Rightarrow> insn_t \<Rightarrow> u32 \<Rightarrow> outcome" where
  "exec_t32_block m i np =
     (if iop i = OP_T32_LDM \<or> iop i = OP_T32_STM then
        (let l = ireg_list i; rn = irn i; cnt = reg_count l 16; base = reg m rn;
             a = (if iadd i then base else base - cnt * 4);
             start = a;
             wb = (\<lambda>m a. if iwriteback i then set_reg m rn (if iadd i then a else start) else m)
         in if iop i = OP_T32_LDM then
              ldm_loop l [0..<16] m a None
                (\<lambda>m a pcv. Break (case pcv of Some v \<Rightarrow> v AND NOT 1 | None \<Rightarrow> np) (wb m a))
            else
              stm_loop (\<lambda>c k. if k = 15 then r_of c REG_PC + 4 else r_of c (of_nat k)) l [0..<16] m a
                (\<lambda>m a. Break np (wb m a)))
      else NoCase)"

text \<open>Multiplication and division.\<close>

definition put_pair :: "machine \<Rightarrow> insn_t \<Rightarrow> u64 \<Rightarrow> machine" where
  "put_pair m i p = set_reg (set_reg m (ird i) (to32 p)) (irs i) (to32 (drop_bit 32 p))"

definition sdiv32 :: "u32 \<Rightarrow> u32 \<Rightarrow> u32" where
  "sdiv32 a b =
     (if sint b = 0 then 0
      else if sint b = -1 \<and> a = 0x80000000 then 0x80000000
      else word_of_int (sint a sdiv sint b))"

definition exec_t32_mul :: "machine \<Rightarrow> insn_t \<Rightarrow> u32 \<Rightarrow> outcome" where
  "exec_t32_mul m i np =
     (let op = iop i; n = reg m (irn i); k = reg m (irm i); s = reg m (irs i); d = reg m (ird i);
          put = (\<lambda>v. Break np (set_reg m (ird i) v));
          acc = push_bit 32 (to64 s) OR to64 d
      in if op = OP_T32_MUL then put (n * k)
         else if op = OP_T32_MLA then put (n * k + s)
         else if op = OP_T32_MLS then put (s - n * k)
         else if op = OP_T32_UMULL then Break np (put_pair m i (to64 n * to64 k))
         else if op = OP_T32_SMULL then Break np (put_pair m i (word_of_int (sint n * sint k)))
         else if op = OP_T32_UMLAL then Break np (put_pair m i (acc + to64 n * to64 k))
         else if op = OP_T32_SMLAL then Break np (put_pair m i (acc + word_of_int (sint n * sint k)))
         else if op = OP_T32_UDIV then put (if k \<noteq> 0 then n div k else 0)
         else if op = OP_T32_SDIV then put (sdiv32 n k)
         else NoCase)"

text \<open>The special registers.\<close>

definition mrs_value :: "cpu_t \<Rightarrow> u32 \<Rightarrow> u32" where
  "mrs_value c sysm =
     (if sysm = 0 \<or> sysm = 1 \<or> sysm = 2 \<or> sysm = 3 then
        (if sysm = 2 then epsr c else if sysm = 1 then ipsr c else apsr c OR ipsr c OR epsr c)
      else if sysm = 5 then ipsr c
      else if sysm = 8 then msp c
      else if sysm = 9 then psp c
      else if sysm = 16 then primask c
      else if sysm = 17 then basepri c
      else if sysm = 19 then faultmask c
      else if sysm = 20 then control c
      else 0)"

definition msr_write :: "cpu_t \<Rightarrow> u32 \<Rightarrow> u8 \<Rightarrow> u32 \<Rightarrow> cpu_t" where
  "msr_write c sysm msk v =
     (if sysm = 0 \<or> sysm = 1 \<or> sysm = 2 \<or> sysm = 3 then
        (if msk AND 2 \<noteq> 0 then c\<lparr>apsr := (apsr c AND NOT 0xF8000000) OR (v AND 0xF8000000)\<rparr> else c)
      else if sysm = 8 then
        (let c = c\<lparr>msp := v AND NOT 3\<rparr>
         in if mode c = MODE_THREAD \<and> control c AND 2 = 0
            then c\<lparr>r_of := (r_of c)(REG_SP := msp c)\<rparr> else c)
      else if sysm = 9 then
        (let c = c\<lparr>psp := v AND NOT 3\<rparr>
         in if mode c = MODE_THREAD \<and> control c AND 2 \<noteq> 0
            then c\<lparr>r_of := (r_of c)(REG_SP := psp c)\<rparr> else c)
      else if sysm = 16 then c\<lparr>primask := v AND 1\<rparr>
      else if sysm = 17 then c\<lparr>basepri := v AND 0xFF\<rparr>
      else if sysm = 19 then c\<lparr>faultmask := v AND 1\<rparr>
      else if sysm = 20 then
        (let old_spsel = control c AND 2;
             c = c\<lparr>control := v AND 0x3\<rparr>;
             new_spsel = control c AND 2
         in if mode c = MODE_THREAD \<and> old_spsel \<noteq> new_spsel then
              (if new_spsel \<noteq> 0
               then (let c = c\<lparr>msp := r_of c REG_SP\<rparr> in c\<lparr>r_of := (r_of c)(REG_SP := psp c)\<rparr>)
               else (let c = c\<lparr>psp := r_of c REG_SP\<rparr> in c\<lparr>r_of := (r_of c)(REG_SP := msp c)\<rparr>))
            else c)
      else c)"

definition exec_t32_sys :: "machine \<Rightarrow> insn_t \<Rightarrow> u32 \<Rightarrow> outcome" where
  "exec_t32_sys m i np =
     (let op = iop i; n = reg m (irn i); k = reg m (irm i);
          put = (\<lambda>v. Break np (f_if i (\<lambda>c. cpu_set_flags_nz c v) (set_reg m (ird i) v)))
      in if op = OP_T32_MRS then Break np (set_reg m (ird i) (mrs_value (cpu m) (iimm i)))
         else if op = OP_T32_MSR then
           Break np (cpu_update (\<lambda>c. msr_write c (iimm i) (irs i) n) m)
         else if op = OP_T32_LSL_R then put (lsl_by n (k AND 0xFF))
         else if op = OP_T32_LSR_R then put (lsr_by n (k AND 0xFF))
         else if op = OP_T32_ASR_R then put (asr_by n (k AND 0xFF))
         else if op = OP_T32_ROR_R then put (ror_by n (k AND 0x1F))
         else NoCase)"

text \<open>
  Bit fields.  \<open>clz_loop\<close> is \<^verbatim>\<open>while ((v & 0x80000000u) == 0) { n++; v <<= 1; }\<close>, which the
  code enters with \<^verbatim>\<open>v != 0\<close> only; 32 rounds are then enough (\<open>clz_correct\<close>).
\<close>

definition width_mask :: "u32 \<Rightarrow> u32" where
  "width_mask width = (if width \<ge> 32 then 0xFFFFFFFF else push_bit (unat width) 1 - 1)"

definition bfi :: "u32 \<Rightarrow> u32 \<Rightarrow> u32 \<Rightarrow> u32" where
  "bfi d n imm =
     (let lsb = imm AND 0x1F; msb = fld imm 8 0x1F; width = msb - lsb + 1;
          mask = width_mask width; src = n AND mask
      in (d AND NOT (push_bit (unat lsb) mask)) OR push_bit (unat lsb) src)"

definition bfc :: "u32 \<Rightarrow> u32 \<Rightarrow> u32" where
  "bfc d imm =
     (let lsb = imm AND 0x1F; msb = fld imm 8 0x1F; width = msb - lsb + 1; mask = width_mask width
      in d AND NOT (push_bit (unat lsb) mask))"

definition ubfx :: "u32 \<Rightarrow> u32 \<Rightarrow> u32" where
  "ubfx n imm =
     (let lsb = imm AND 0x1F; widthm1 = fld imm 8 0x1F; width = widthm1 + 1; mask = width_mask width
      in drop_bit (unat lsb) n AND mask)"

definition sbfx :: "u32 \<Rightarrow> u32 \<Rightarrow> u32" where
  "sbfx n imm =
     (let lsb = imm AND 0x1F; widthm1 = fld imm 8 0x1F; width = widthm1 + 1;
          val = drop_bit (unat lsb) n AND width_mask width;
          sgn = push_bit (unat (width - 1)) 1
      in (val XOR sgn) - sgn)"

fun clz_loop :: "nat \<Rightarrow> u32 \<Rightarrow> u32 \<Rightarrow> u32" where
  "clz_loop 0 v n = n"
| "clz_loop (Suc k) v n =
     (if v AND 0x80000000 = 0 then clz_loop k (push_bit 1 v) (n + 1) else n)"

definition clz :: "u32 \<Rightarrow> u32" where
  "clz v = (if v = 0 then 32 else clz_loop 32 v 0)"

definition rbit :: "u32 \<Rightarrow> u32" where
  "rbit v =
     (let v = drop_bit 1 (v AND 0xAAAAAAAA) OR push_bit 1 (v AND 0x55555555);
          v = drop_bit 2 (v AND 0xCCCCCCCC) OR push_bit 2 (v AND 0x33333333);
          v = drop_bit 4 (v AND 0xF0F0F0F0) OR push_bit 4 (v AND 0x0F0F0F0F);
          v = drop_bit 8 (v AND 0xFF00FF00) OR push_bit 8 (v AND 0x00FF00FF)
      in drop_bit 16 v OR push_bit 16 v)"

definition exec_t32_bits :: "machine \<Rightarrow> insn_t \<Rightarrow> u32 \<Rightarrow> outcome" where
  "exec_t32_bits m i np =
     (let op = iop i; n = reg m (irn i); k = reg m (irm i); d = reg m (ird i); imm = iimm i;
          put = (\<lambda>v. Break np (set_reg m (ird i) v));
          base = reg_pc4 m (irn i); pc = reg m REG_PC
      in if op = OP_T32_BFI then put (bfi d n imm)
         else if op = OP_T32_BFC then put (bfc d imm)
         else if op = OP_T32_UBFX then put (ubfx n imm)
         else if op = OP_T32_SBFX then put (sbfx n imm)
         else if op = OP_T32_CLZ then put (clz k)
         else if op = OP_T32_RBIT then put (rbit k)
         else if op = OP_T32_TBB then rd m (base + k) 1 (\<lambda>v m. Break (pc + 4 + v * 2) m)
         else if op = OP_T32_TBH then rd m (base + push_bit 1 k) 2 (\<lambda>v m. Break (pc + 4 + v * 2) m)
         else NoCase)"

text \<open>The default case: a UsageFault, after which the function returns true.\<close>

definition exec_undefined :: "machine \<Rightarrow> outcome" where
  "exec_undefined m = (case raise_fault m EXC_USAGE_FAULT 0 1 of None \<Rightarrow> Stuck | Some m' \<Rightarrow> Ret True m')"

definition exec_switch :: "machine \<Rightarrow> insn_t \<Rightarrow> u32 \<Rightarrow> outcome" where
  "exec_switch m i np =
     orelse (exec_dp1 m i np) (orelse (exec_dp2 m i np) (orelse (exec_branch m i np)
    (orelse (exec_ldst1 m i np) (orelse (exec_ldst2 m i np) (orelse (exec_ext m i np)
    (orelse (exec_stack m i np) (orelse (exec_misc m i np) (orelse (exec_t32_imm m i np)
    (orelse (exec_t32_plain m i np) (orelse (exec_t32_reg m i np) (orelse (exec_t32_ldst m i np)
    (orelse (exec_t32_ldst2 m i np) (orelse (exec_vfp_arith m i np) (orelse (exec_vfp_block m i np)
    (orelse (exec_vfp_misc m i np) (orelse (exec_t32_block m i np) (orelse (exec_t32_mul m i np)
    (orelse (exec_t32_sys m i np) (orelse (exec_t32_bits m i np) (exec_undefined m))))))))))))))))))))"

section \<open>execute\<close>

text \<open>The IT check of the prologue, and what every case that leaves the switch runs through.\<close>

definition it_pass :: "cpu_t \<Rightarrow> bool" where
  "it_pass c =
     (let cond = cpu_it_cond c;
          n = apsr c AND APSR_N \<noteq> 0; z = apsr c AND APSR_Z \<noteq> 0;
          cf = apsr c AND APSR_C \<noteq> 0; vf = apsr c AND APSR_V \<noteq> 0;
          k = cond AND 0xF
      in if k = 0x0 then z
         else if k = 0x1 then \<not> z
         else if k = 0x2 then cf
         else if k = 0x3 then \<not> cf
         else if k = 0x4 then n
         else if k = 0x5 then \<not> n
         else if k = 0x6 then vf
         else if k = 0x7 then \<not> vf
         else if k = 0x8 then cf \<and> \<not> z
         else if k = 0x9 then \<not> cf \<or> z
         else if k = 0xA then n = vf
         else if k = 0xB then n \<noteq> vf
         else if k = 0xC then \<not> z \<and> n = vf
         else if k = 0xD then z \<or> n \<noteq> vf
         else True)"

definition retire :: "cpu_t \<Rightarrow> u32 \<Rightarrow> cpu_t" where
  "retire c next_pc = c\<lparr>r_of := (r_of c)(REG_PC := next_pc), cycles := cycles c + 1\<rparr>"

definition exec_finish :: "bool \<Rightarrow> u32 \<Rightarrow> opcode_t \<Rightarrow> u32 \<Rightarrow> cpu_t \<Rightarrow> cpu_t" where
  "exec_finish in_it saved_apsr op next_pc c =
     (let c = (if in_it \<and> \<not> op_is_flagsetter op then c\<lparr>apsr := saved_apsr\<rparr> else c);
          c = (if in_it \<and> op \<noteq> OP_T32_IT then cpu_it_advance c else c)
      in retire c next_pc)"

definition execute :: "machine \<Rightarrow> insn_t \<Rightarrow> (bool \<times> machine) option" where
  "execute m i =
     (let next_pc = reg m REG_PC + to32 (isize i);
          in_it = cpu_in_it (cpu m);
          saved_apsr = apsr (cpu m)
      in if in_it \<and> \<not> it_pass (cpu m)
         then Some (True, cpu_update (\<lambda>c. retire (cpu_it_advance c) next_pc) m)
         else case exec_switch m i next_pc of
                Break np m' \<Rightarrow> Some (True, cpu_update (exec_finish in_it saved_apsr (iop i) np) m')
              | Ret b m' \<Rightarrow> Some (b, m')
              | Stuck \<Rightarrow> None
              | NoCase \<Rightarrow> None)"

end
