(* ===== verification/Decoder.thy ===== *)
theory Decoder
  imports Insn Machine
begin

text \<open>
  The Thumb-1 and Thumb-2 decoder of \<^verbatim>\<open>src/core/decoder.c\<close>.  The C function is one chain
  of tests; it is cut here at its section comments into parts, each ending in the next
  one.  \<^verbatim>\<open>out\<close> is the record the caller passes: fields that a path does not assign keep
  what the caller had there, as in C.
\<close>

section \<open>Thumb-1\<close>

definition set_undef :: "insn_t \<Rightarrow> u32 \<Rightarrow> addr_t \<Rightarrow> insn_t" where
  "set_undef i raw pc = i\<lparr>iop := OP_UNDEFINED, ipc := pc, isize := 2, iraw := raw,
     ird := 0, irn := 0, irm := 0, irs := 0, iimm := 0, icond := 0xE, ireg_list := 0\<rparr>"

definition decode_t16_branch :: "u16 \<Rightarrow> insn_t \<Rightarrow> insn_t" where
  "decode_t16_branch w out =
     (if w AND 0xF000 = 0xC000 then
        out\<lparr>irn := to8 (fld w 8 7), ireg_list := to32 (w AND 0xFF),
            iop := (if fld w 11 1 \<noteq> 0 then OP_LDM else OP_STM)\<rparr>
      else if w AND 0xF000 = 0xD000 then
        (let cond = to8 (fld w 8 0xF) in
         if cond = 0xE then out\<lparr>iop := OP_UDF, iimm := to32 (w AND 0xFF)\<rparr>
         else if cond = 0xF then out\<lparr>iop := OP_SVC, iimm := to32 (w AND 0xFF)\<rparr>
         else out\<lparr>iop := OP_B_COND, icond := cond,
                  iimm := push_bit 1 (scast (to8 (w AND 0xFF)) :: u32)\<rparr>)
      else if w AND 0xF800 = 0xE000 then
        out\<lparr>iop := OP_B_UNCOND, icond := 0xE,
            iimm := sar (push_bit 21 (to32 (w AND 0x7FF))) 20\<rparr>
      else if w = 0xBF00 then out\<lparr>iop := OP_NOP\<rparr>
      else out)"

definition decode_t16_misc :: "u16 \<Rightarrow> insn_t \<Rightarrow> insn_t" where
  "decode_t16_misc w out =
     (if w AND 0xF000 = 0xB000 then
       (if w AND 0xFF80 = 0xB000 then
          out\<lparr>iimm := push_bit 2 (to32 (w AND 0x7F)), iop := OP_ADD_SP_SP\<rparr>
        else if w AND 0xFF80 = 0xB080 then
          out\<lparr>iimm := push_bit 2 (to32 (w AND 0x7F)), iop := OP_SUB_SP_SP\<rparr>
        else if w AND 0xFE00 = 0xB400 then
          out\<lparr>iop := OP_PUSH,
              ireg_list := to32 (w AND 0xFF) OR push_bit 14 (to32 (fld w 8 1))\<rparr>
        else if w AND 0xFE00 = 0xBC00 then
          out\<lparr>iop := OP_POP,
              ireg_list := to32 (w AND 0xFF) OR push_bit 15 (to32 (fld w 8 1))\<rparr>
        else if w AND 0xF500 = 0xB100 then
          (let op = fld w 11 1; i_bit = to32 (fld w 9 1); imm5 = to32 (fld w 3 0x1F)
           in out\<lparr>irn := to8 (w AND 7), iimm := push_bit 6 i_bit OR push_bit 1 imm5,
                  iop := (if op \<noteq> 0 then OP_CBNZ else OP_CBZ)\<rparr>)
        else if w AND 0xFF00 = 0xBF00 \<and> w AND 0x000F \<noteq> 0 then
          out\<lparr>iop := OP_T32_IT, iit_first := to8 (fld w 4 0xF), iit_mask := to8 (w AND 0xF)\<rparr>
        else if w AND 0xFF0F = 0xBF00 then
          (let hint = fld w 4 0xF
           in out\<lparr>iop := (if hint = 0 then OP_NOP else if hint = 1 then OP_YIELD
                          else if hint = 2 then OP_WFE else if hint = 3 then OP_WFI
                          else if hint = 4 then OP_SEV else OP_NOP)\<rparr>)
        else if w AND 0xFF00 = 0xB200 then
          out\<lparr>irm := to8 (fld w 3 7), ird := to8 (w AND 7),
              iop := [OP_SXTH, OP_SXTB, OP_UXTH, OP_UXTB] ! unat (fld w 6 3)\<rparr>
        else if w AND 0xFF00 = 0xBA00 then
          (let opc = fld w 6 3; out = out\<lparr>irm := to8 (fld w 3 7), ird := to8 (w AND 7)\<rparr>
           in if opc = 0 then out\<lparr>iop := OP_REV\<rparr>
              else if opc = 1 then out\<lparr>iop := OP_REV16\<rparr>
              else if opc = 3 then out\<lparr>iop := OP_REVSH\<rparr>
              else out)
        else if w AND 0xFF00 = 0xBE00 then
          out\<lparr>iop := OP_BKPT, iimm := to32 (w AND 0xFF)\<rparr>
        else if w AND 0xFFE0 = 0xB660 then
          (let im = to32 (fld w 4 1); I_bit = to32 (fld w 1 1); F_bit = to32 (w AND 1)
           in out\<lparr>iop := OP_CPS, iimm := push_bit 2 im OR push_bit 1 I_bit OR F_bit\<rparr>)
        else decode_t16_branch w out)
      else decode_t16_branch w out)"

definition decode_t16_ldst :: "u16 \<Rightarrow> insn_t \<Rightarrow> insn_t" where
  "decode_t16_ldst w out =
     (if w AND 0xF800 = 0x4800 then
        out\<lparr>iop := OP_LDR_LIT, ird := to8 (fld w 8 7), iimm := push_bit 2 (to32 (w AND 0xFF))\<rparr>
      else if w AND 0xF000 = 0x5000 then
        out\<lparr>irm := to8 (fld w 6 7), irn := to8 (fld w 3 7), ird := to8 (w AND 7),
            iop := [OP_STR_REG, OP_STRH_REG, OP_STRB_REG, OP_LDRSB_REG,
                    OP_LDR_REG, OP_LDRH_REG, OP_LDRB_REG, OP_LDRSH_REG] ! unat (fld w 9 7)\<rparr>
      else if w AND 0xF000 = 0x6000 then
        out\<lparr>irn := to8 (fld w 3 7), ird := to8 (w AND 7),
            iimm := push_bit 2 (to32 (fld w 6 0x1F)),
            iop := (if fld w 11 1 \<noteq> 0 then OP_LDR_IMM else OP_STR_IMM)\<rparr>
      else if w AND 0xF000 = 0x7000 then
        out\<lparr>irn := to8 (fld w 3 7), ird := to8 (w AND 7), iimm := to32 (fld w 6 0x1F),
            iop := (if fld w 11 1 \<noteq> 0 then OP_LDRB_IMM else OP_STRB_IMM)\<rparr>
      else if w AND 0xF000 = 0x8000 then
        out\<lparr>irn := to8 (fld w 3 7), ird := to8 (w AND 7),
            iimm := push_bit 1 (to32 (fld w 6 0x1F)),
            iop := (if fld w 11 1 \<noteq> 0 then OP_LDRH_IMM else OP_STRH_IMM)\<rparr>
      else if w AND 0xF000 = 0x9000 then
        out\<lparr>ird := to8 (fld w 8 7), iimm := push_bit 2 (to32 (w AND 0xFF)),
            iop := (if fld w 11 1 \<noteq> 0 then OP_LDR_SP else OP_STR_SP)\<rparr>
      else if w AND 0xF800 = 0xA000 then
        out\<lparr>ird := to8 (fld w 8 7), iimm := push_bit 2 (to32 (w AND 0xFF)), iop := OP_ADR\<rparr>
      else if w AND 0xF800 = 0xA800 then
        out\<lparr>ird := to8 (fld w 8 7), iimm := push_bit 2 (to32 (w AND 0xFF)), iop := OP_ADD_SP_IMM\<rparr>
      else decode_t16_misc w out)"

definition decode_thumb16 :: "u16 \<Rightarrow> addr_t \<Rightarrow> insn_t \<Rightarrow> insn_t" where
  "decode_thumb16 w pc out0 =
     (let out = (set_undef out0 (to32 w) pc)\<lparr>iraw := to32 w\<rparr> in
      if w AND 0xF800 = 0x1800 then
        (let i_bit = fld w 10 1; opc = fld w 9 1;
             out = out\<lparr>irn := to8 (fld w 3 7), ird := to8 (w AND 7)\<rparr>
         in if i_bit = 0 then
              out\<lparr>irm := to8 (fld w 6 7), iop := (if opc \<noteq> 0 then OP_SUB_REG else OP_ADD_REG)\<rparr>
            else
              out\<lparr>iimm := to32 (fld w 6 7), iop := (if opc \<noteq> 0 then OP_SUB_IMM3 else OP_ADD_IMM3)\<rparr>)
      else if w AND 0xE000 = 0x0000 then
        (let op = fld w 11 3
         in out\<lparr>irm := to8 (fld w 3 7), ird := to8 (w AND 7), iimm := to32 (fld w 6 0x1F),
                iop := (if op = 0 then OP_LSL_IMM else if op = 1 then OP_LSR_IMM else OP_ASR_IMM)\<rparr>)
      else if w AND 0xE000 = 0x2000 then
        (let op = fld w 11 3; rd = to8 (fld w 8 7)
         in out\<lparr>ird := rd, irn := rd, iimm := to32 (w AND 0xFF),
                iop := (if op = 0 then OP_MOV_IMM else if op = 1 then OP_CMP_IMM
                        else if op = 2 then OP_ADD_IMM8 else OP_SUB_IMM8)\<rparr>)
      else if w AND 0xFC00 = 0x4000 then
        (let rd = to8 (w AND 7)
         in out\<lparr>irm := to8 (fld w 3 7), ird := rd, irn := rd,
                iop := [OP_AND_REG, OP_EOR_REG, OP_LSL_REG, OP_LSR_REG,
                        OP_ASR_REG, OP_ADC_REG, OP_SBC_REG, OP_ROR_REG,
                        OP_TST_REG, OP_RSB_IMM, OP_CMP_REG, OP_CMN_REG,
                        OP_ORR_REG, OP_MUL, OP_BIC_REG, OP_MVN_REG] ! unat (fld w 6 0xF)\<rparr>)
      else if w AND 0xFC00 = 0x4400 then
        (let opc = fld w 8 3; DN = to8 (fld w 7 1); Rm = to8 (fld w 3 0xF);
             Rdn = push_bit 3 DN OR to8 (w AND 7);
             out = out\<lparr>irm := Rm\<rparr>
         in if opc = 0 then out\<lparr>irn := Rdn, ird := Rdn, iop := OP_ADD_REG_T2\<rparr>
            else if opc = 1 then out\<lparr>irn := Rdn, iop := OP_CMP_REG_T2\<rparr>
            else if opc = 2 then out\<lparr>ird := Rdn, iop := OP_MOV_REG\<rparr>
            else out\<lparr>irm := to8 (fld w 3 0xF),
                     iop := (if fld w 7 1 \<noteq> 0 then OP_BLX_REG else OP_BX)\<rparr>)
      else decode_t16_ldst w out)"

section \<open>Immediates\<close>

definition is_t32 :: "u16 \<Rightarrow> bool" where
  "is_t32 w = (let top5 = fld w 11 0x1F in top5 = 0x1D \<or> top5 = 0x1E \<or> top5 = 0x1F)"

definition sext :: "u32 \<Rightarrow> u8 \<Rightarrow> u32" where
  "sext v n = (let m = push_bit (unat (n - 1)) 1 in (v XOR m) - m)"

definition ror32 :: "u32 \<Rightarrow> u32 \<Rightarrow> u32" where
  "ror32 v n = (let n = unat (n AND 31)
     in if n \<noteq> 0 then drop_bit n v OR push_bit (32 - n) v else v)"

definition thumb_expand_imm :: "u32 \<Rightarrow> u32" where
  "thumb_expand_imm i12 =
     (let imm8 = i12 AND 0xFF; imm3i = fld i12 8 0xF
      in if drop_bit 2 imm3i = 0 then
           (if imm3i AND 3 = 0 then imm8
            else if imm3i AND 3 = 1 then imm8 OR push_bit 16 imm8
            else if imm3i AND 3 = 2 then push_bit 8 imm8 OR push_bit 24 imm8
            else imm8 OR push_bit 8 imm8 OR push_bit 16 imm8 OR push_bit 24 imm8)
         else ror32 (imm8 OR 0x80) (fld i12 7 0x1F))"

section \<open>Thumb-2\<close>

text \<open>The halfwords arrive widened to \<^verbatim>\<open>u32\<close>, as C's promotions and locals have them.\<close>

definition decode_t32_sys :: "u32 \<Rightarrow> u32 \<Rightarrow> insn_t \<Rightarrow> insn_t" where
  "decode_t32_sys w0 w1 out =
     (if w0 = 0xF3EF \<and> w1 AND 0xF000 = 0x8000 then
        out\<lparr>ird := to8 (fld w1 8 0xF), iimm := w1 AND 0xFF, iop := OP_T32_MRS\<rparr>
      else if w0 AND 0xFFF0 = 0xF380 \<and> w1 AND 0xFF00 = 0x8800 then
        out\<lparr>irn := to8 (w0 AND 0xF), iimm := w1 AND 0xFF, irs := to8 (fld w1 10 3),
            iop := OP_T32_MSR\<rparr>
      else out)"

text \<open>VFP data processing: the group 1011 first, then the arithmetic.\<close>

definition vfp_expand_imm32 :: "u32 \<Rightarrow> u32" where
  "vfp_expand_imm32 imm8 =
     (let a = fld imm8 7 1; b = fld imm8 6 1; cdefgh = imm8 AND 0x3F
      in push_bit 31 a OR push_bit 30 (if b = 0 then 1 else 0) OR
         push_bit 25 (if b \<noteq> 0 then 0x1F else 0) OR push_bit 19 cdefgh)"

definition decode_vfp_dp :: "u32 \<Rightarrow> u32 \<Rightarrow> insn_t \<Rightarrow> insn_t" where
  "decode_vfp_dp w0 w1 out =
     (let D = fld w0 6 1; op0 = fld w0 4 0xF AND 0xB; N = fld w1 7 1; M = fld w1 5 1;
          op2 = fld w1 6 1; Vn = w0 AND 0xF; Vd = fld w1 12 0xF; Vm = w1 AND 0xF;
          out = out\<lparr>isd := to8 (push_bit 1 Vd OR D), isn := to8 (push_bit 1 Vn OR N),
                    ism := to8 (push_bit 1 Vm OR M)\<rparr>
      in if w0 = 0xEEF1 \<and> w1 AND 0x0FFF = 0x0A10 then
           out\<lparr>ird := to8 (fld w1 12 0xF), iop := OP_VMRS\<rparr>
         else if w0 = 0xEEE1 \<and> w1 AND 0x0FFF = 0x0A10 then
           out\<lparr>ird := to8 (fld w1 12 0xF), iop := OP_VMSR\<rparr>
         else if op0 = 0xB then
           (let opc2 = fld w1 6 3
            in if w1 AND 0xF0 = 0 then
                 out\<lparr>iimm := vfp_expand_imm32 (push_bit 4 Vn OR (w1 AND 0xF)), iop := OP_VMOV_IMM_S\<rparr>
               else if Vn = 0 then
                 out\<lparr>iop := (if opc2 = 1 then OP_VMOV_S else if opc2 = 3 then OP_VABS_S else OP_VMOV_S)\<rparr>
               else if Vn = 1 then
                 out\<lparr>iop := (if opc2 = 1 then OP_VNEG_S else if opc2 = 3 then OP_VSQRT_S else OP_VNEG_S)\<rparr>
               else if Vn = 4 \<or> Vn = 5 then out\<lparr>iop := OP_VCMP_S\<rparr>
               else if Vn = 8 then out\<lparr>iop := OP_VCVT_I_F\<rparr>
               else if Vn = 0xC \<or> Vn = 0xD then out\<lparr>iop := OP_VCVT_F_I\<rparr>
               else out)
         else if op0 = 0x3 then out\<lparr>iop := (if op2 \<noteq> 0 then OP_VSUB_S else OP_VADD_S)\<rparr>
         else if op0 = 0x2 then out\<lparr>iop := (if op2 \<noteq> 0 then OP_VNMUL_S else OP_VMUL_S)\<rparr>
         else if op0 = 0x8 then out\<lparr>iop := OP_VDIV_S\<rparr>
         else if op0 = 0x0 then out\<lparr>iop := (if op2 \<noteq> 0 then OP_VMLS_S else OP_VMLA_S)\<rparr>
         else if op0 = 0x1 then out\<lparr>iop := (if op2 \<noteq> 0 then OP_VNMLA_S else OP_VNMLS_S)\<rparr>
         else if op0 = 0xA then out\<lparr>iop := (if op2 \<noteq> 0 then OP_VFMS_S else OP_VFMA_S)\<rparr>
         else if op0 = 0x9 then out\<lparr>iop := (if op2 \<noteq> 0 then OP_VFNMA_S else OP_VFNMS_S)\<rparr>
         else out)"

definition decode_t32_vfp :: "u32 \<Rightarrow> u32 \<Rightarrow> insn_t \<Rightarrow> insn_t" where
  "decode_t32_vfp w0 w1 out =
     (if w0 AND 0xFE00 = 0xEC00 \<and> fld w1 8 0xE = 0xA \<and>
         \<not> (fld w0 8 1 \<noteq> 0 \<and> fld w0 5 1 = 0) then
        (let P = fld w0 8 1; U = fld w0 7 1; D = fld w0 6 1; W = fld w0 5 1; L = fld w0 4 1;
             Rn = w0 AND 0xF; cp_dp = fld w1 8 1; Vd = fld w1 12 0xF; imm8 = w1 AND 0xFF
         in out\<lparr>irn := to8 Rn, iwriteback := (W \<noteq> 0), iadd := (U \<noteq> 0), iindex := (P \<noteq> 0),
                isd := (if cp_dp = 0 then to8 (push_bit 1 Vd OR D)
                        else to8 (push_bit 5 D OR push_bit 1 Vd)),
                iimm := imm8,
                iop := (if Rn = 13 \<and> P = 1 \<and> U = 0 \<and> W = 1 \<and> L = 0 then OP_VPUSH
                        else if Rn = 13 \<and> P = 0 \<and> U = 1 \<and> W = 1 \<and> L = 1 then OP_VPOP
                        else if L \<noteq> 0 then OP_VLDM else OP_VSTM)\<rparr>)
      else if w0 AND 0xFF00 = 0xED00 \<and> fld w1 8 0xF = 0xA then
        (let U = fld w0 7 1; D = fld w0 6 1; L = fld w0 4 1; Rn = w0 AND 0xF; Vd = fld w1 12 0xF
         in out\<lparr>irn := to8 Rn, isd := to8 (push_bit 1 Vd OR D),
                iimm := push_bit 2 (w1 AND 0xFF), iadd := (U \<noteq> 0),
                iop := (if L \<noteq> 0 then OP_VLDR_S else OP_VSTR_S)\<rparr>)
      else if w0 AND 0xFFE0 = 0xEE00 \<and> fld w1 8 0xF = 0xA \<and> w1 AND 0x7F = 0x10 then
        (let op = fld w0 4 1; N = fld w1 7 1; Vn = w0 AND 0xF
         in out\<lparr>ird := to8 (fld w1 12 0xF), isn := to8 (push_bit 1 Vn OR N),
                iop := (if op \<noteq> 0 then OP_VMOV_F_R else OP_VMOV_R_F)\<rparr>)
      else if w0 AND 0xFF00 = 0xEE00 \<and> fld w1 8 0xF = 0xA then decode_vfp_dp w0 w1 out
      else decode_t32_sys w0 w1 out)"

definition decode_t32_bitfield :: "u32 \<Rightarrow> u32 \<Rightarrow> insn_t \<Rightarrow> insn_t" where
  "decode_t32_bitfield w0 w1 out =
     (let Rn = w0 AND 0xF; Rd = fld w1 8 0xF;
          lsb = push_bit 2 (fld w1 12 7) OR fld w1 6 3; low5 = w1 AND 0x1F
      in if w0 AND 0xFBF0 = 0xF360 then
           out\<lparr>irn := to8 Rn, ird := to8 Rd, iimm := push_bit 8 low5 OR lsb,
               iop := (if Rn = 15 then OP_T32_BFC else OP_T32_BFI)\<rparr>
         else if w0 AND 0xFBF0 = 0xF3C0 then
           out\<lparr>irn := to8 Rn, ird := to8 Rd, iimm := push_bit 8 low5 OR lsb, iop := OP_T32_UBFX\<rparr>
         else if w0 AND 0xFBF0 = 0xF340 then
           out\<lparr>irn := to8 Rn, ird := to8 Rd, iimm := push_bit 8 low5 OR lsb, iop := OP_T32_SBFX\<rparr>
         else if w0 AND 0xFFF0 = 0xFAB0 \<and> w1 AND 0xF0F0 = 0xF080 then
           out\<lparr>irm := to8 (w0 AND 0xF), ird := to8 (fld w1 8 0xF), iop := OP_T32_CLZ\<rparr>
         else if w0 AND 0xFFF0 = 0xFA90 \<and> w1 AND 0xF0F0 = 0xF0A0 then
           out\<lparr>irm := to8 (w0 AND 0xF), ird := to8 (fld w1 8 0xF), iop := OP_T32_RBIT\<rparr>
         else decode_t32_vfp w0 w1 out)"

definition decode_t32_mul :: "u32 \<Rightarrow> u32 \<Rightarrow> insn_t \<Rightarrow> insn_t" where
  "decode_t32_mul w0 w1 out =
     (if w0 AND 0xFF80 = 0xFB00 then
        (let op1 = fld w0 4 7; Ra = fld w1 12 0xF; op2 = fld w1 4 0xF;
             out = out\<lparr>irn := to8 (w0 AND 0xF), irm := to8 (w1 AND 0xF),
                       ird := to8 (fld w1 8 0xF), irs := to8 Ra\<rparr>
         in if op1 = 0 \<and> op2 = 0 then out\<lparr>iop := (if Ra = 15 then OP_T32_MUL else OP_T32_MLA)\<rparr>
            else if op1 = 0 \<and> op2 = 1 then out\<lparr>iop := OP_T32_MLS\<rparr>
            else out)
      else if w0 AND 0xFF80 = 0xFB80 then
        (let op1 = fld w0 4 7; RdLo = fld w1 12 0xF; RdHi = fld w1 8 0xF; op2 = fld w1 4 0xF;
             out = out\<lparr>irn := to8 (w0 AND 0xF), irm := to8 (w1 AND 0xF),
                       ird := to8 RdLo, irs := to8 RdHi\<rparr>
         in if op1 = 0 then out\<lparr>iop := OP_T32_SMULL\<rparr>
            else if op1 = 1 then (if op2 = 0xF then out\<lparr>ird := to8 RdHi, iop := OP_T32_SDIV\<rparr> else out)
            else if op1 = 2 then out\<lparr>iop := OP_T32_UMULL\<rparr>
            else if op1 = 3 then (if op2 = 0xF then out\<lparr>ird := to8 RdHi, iop := OP_T32_UDIV\<rparr> else out)
            else if op1 = 4 then out\<lparr>iop := OP_T32_SMLAL\<rparr>
            else if op1 = 6 then out\<lparr>iop := OP_T32_UMLAL\<rparr>
            else out)
      else if w0 AND 0xFE40 = 0xE800 \<and> fld w0 7 1 \<noteq> fld w0 8 1 then
        (let W = fld w0 5 1; L = fld w0 4 1; P = fld w0 8 1
         in out\<lparr>irn := to8 (w0 AND 0xF), ireg_list := w1, iwriteback := (W \<noteq> 0), iadd := (P = 0),
                iop := (if L \<noteq> 0 then OP_T32_LDM else OP_T32_STM)\<rparr>)
      else if w0 AND 0xFFF0 = 0xE8D0 \<and> w1 AND 0xFFE0 = 0xF000 then
        out\<lparr>irn := to8 (w0 AND 0xF), irm := to8 (w1 AND 0xF),
            iop := (if w1 AND 0x10 \<noteq> 0 then OP_T32_TBH else OP_T32_TBB)\<rparr>
      else decode_t32_bitfield w0 w1 out)"

definition decode_t32_reg :: "u32 \<Rightarrow> u32 \<Rightarrow> insn_t \<Rightarrow> insn_t" where
  "decode_t32_reg w0 w1 out =
     (if w0 AND 0xFE40 = 0xE840 then
        (let P = fld w0 8 1; U = fld w0 7 1; W = fld w0 5 1; L = fld w0 4 1
         in out\<lparr>irn := to8 (w0 AND 0xF), ird := to8 (fld w1 12 0xF), irs := to8 (fld w1 8 0xF),
                iimm := push_bit 2 (w1 AND 0xFF),
                iindex := (P \<noteq> 0), iadd := (U \<noteq> 0), iwriteback := (W \<noteq> 0),
                iop := (if L \<noteq> 0 then OP_T32_LDRD_IMM else OP_T32_STRD_IMM)\<rparr>)
      else if w0 AND 0xFE00 = 0xEA00 then
        (let op4 = fld w0 5 0xF; S = fld w0 4 1; Rn = w0 AND 0xF; imm3 = fld w1 12 7;
             Rd = fld w1 8 0xF; imm2 = fld w1 6 3; typ = fld w1 4 3;
             out = out\<lparr>irn := to8 Rn, ird := to8 Rd, irm := to8 (w1 AND 0xF), iset_flags := (S \<noteq> 0),
                       ishift_type := to8 typ, ishift_n := to8 (push_bit 2 imm3 OR imm2)\<rparr>
         in if op4 = 0 then out\<lparr>iop := (if Rd = 15 \<and> S \<noteq> 0 then OP_T32_TST_REG else OP_T32_AND_REG)\<rparr>
            else if op4 = 1 then out\<lparr>iop := OP_T32_BIC_REG\<rparr>
            else if op4 = 2 then out\<lparr>iop := (if Rn = 15 then OP_T32_MOV_REG else OP_T32_ORR_REG)\<rparr>
            else if op4 = 3 then out\<lparr>iop := (if Rn = 15 then OP_T32_MVN_REG else OP_T32_ORN_REG)\<rparr>
            else if op4 = 4 then out\<lparr>iop := (if Rd = 15 \<and> S \<noteq> 0 then OP_T32_TEQ_REG else OP_T32_EOR_REG)\<rparr>
            else if op4 = 8 then out\<lparr>iop := (if Rd = 15 \<and> S \<noteq> 0 then OP_T32_CMN_REG else OP_T32_ADD_REG)\<rparr>
            else if op4 = 10 then out\<lparr>iop := OP_T32_ADC_REG\<rparr>
            else if op4 = 11 then out\<lparr>iop := OP_T32_SBC_REG\<rparr>
            else if op4 = 13 then out\<lparr>iop := (if Rd = 15 \<and> S \<noteq> 0 then OP_T32_CMP_REG else OP_T32_SUB_REG)\<rparr>
            else if op4 = 14 then out\<lparr>iop := OP_T32_RSB_REG\<rparr>
            else out)
      else if w0 AND 0xFFA0 = 0xFA00 \<and> w1 AND 0xF0F0 = 0xF000 then
        (let typ = fld w0 5 3;
             out = out\<lparr>irn := to8 (w0 AND 0xF), ird := to8 (fld w1 8 0xF), irm := to8 (w1 AND 0xF),
                       iset_flags := (fld w0 4 1 \<noteq> 0)\<rparr>
         in out\<lparr>iop := (if typ = 0 then OP_T32_LSL_R else if typ = 1 then OP_T32_LSR_R
                        else if typ = 2 then OP_T32_ASR_R else OP_T32_ROR_R)\<rparr>)
      else decode_t32_mul w0 w1 out)"

text \<open>The opcode of a load or store single: size, direction, then the sign-extending loads.\<close>

definition ldst_op :: "u32 \<Rightarrow> bool \<Rightarrow> bool \<Rightarrow> opcode_t" where
  "ldst_op sz L S_bit =
     (let op = (if sz = 2 then (if L then OP_T32_LDR_IMM else OP_T32_STR_IMM)
                else if sz = 1 then (if L then OP_T32_LDRH_IMM else OP_T32_STRH_IMM)
                else (if L then OP_T32_LDRB_IMM else OP_T32_STRB_IMM))
      in if L \<and> S_bit then
           (if sz = 0 then OP_T32_LDRSB_IMM else if sz = 1 then OP_T32_LDRSH_IMM else op)
         else op)"

definition decode_t32_ldst :: "u32 \<Rightarrow> u32 \<Rightarrow> insn_t \<Rightarrow> insn_t" where
  "decode_t32_ldst w0 w1 out =
     (if w0 AND 0xFE00 = 0xF800 then
        (let sz = fld w0 5 3; L = fld w0 4 1 \<noteq> 0; S_bit = fld w0 8 1 \<noteq> 0; Rn = w0 AND 0xF;
             Rt = fld w1 12 0xF; op_field = fld w1 6 0x3F
         in if Rn = 15 then
              (let out = out\<lparr>ird := to8 Rt, iimm := w1 AND 0xFFF, iadd := (fld w0 7 1 \<noteq> 0)\<rparr>
               in if L \<and> sz = 2 then out\<lparr>iop := OP_T32_LDR_LIT\<rparr> else out)
            else if w0 AND 0x0080 \<noteq> 0 then
              out\<lparr>irn := to8 Rn, ird := to8 Rt, iimm := w1 AND 0xFFF,
                  iadd := True, iindex := True, iwriteback := False,
                  iop := ldst_op sz L S_bit\<rparr>
            else if op_field AND 0x24 = 0x24 \<or> op_field AND 0x3C = 0x30 \<or>
                    op_field AND 0x3C = 0x38 \<or> op_field AND 0x3C = 0x24 \<or>
                    op_field AND 0x3C = 0x2C then
              out\<lparr>irn := to8 Rn, ird := to8 Rt, iimm := w1 AND 0xFF,
                  iindex := (fld w1 10 1 \<noteq> 0), iadd := (fld w1 9 1 \<noteq> 0), iwriteback := (fld w1 8 1 \<noteq> 0),
                  iop := ldst_op sz L S_bit\<rparr>
            else if op_field = 0 then
              (let out = out\<lparr>irn := to8 Rn, ird := to8 Rt, irm := to8 (w1 AND 0xF),
                             ishift_n := to8 (fld w1 4 3), ishift_type := 0,
                             iindex := True, iadd := True, iwriteback := False\<rparr>
               in if sz = 2 then out\<lparr>iop := (if L then OP_T32_LDR_REG else OP_T32_STR_REG)\<rparr> else out)
            else out)
      else decode_t32_reg w0 w1 out)"

definition decode_t32_imm :: "u32 \<Rightarrow> u32 \<Rightarrow> insn_t \<Rightarrow> insn_t" where
  "decode_t32_imm w0 w1 out =
     (let op_w1 = fld w1 15 1; Rn = w0 AND 0xF; i_bit = fld w0 10 1; imm3 = fld w1 12 7;
          Rd = fld w1 8 0xF; imm8 = w1 AND 0xFF;
          i12 = push_bit 11 i_bit OR push_bit 8 imm3 OR imm8
      in if w0 AND 0xFA00 = 0xF000 \<and> op_w1 = 0 then
           (let op4 = fld w0 5 0xF; S = fld w0 4 1;
                out = out\<lparr>irn := to8 Rn, ird := to8 Rd, iimm := thumb_expand_imm i12, iset_flags := (S \<noteq> 0)\<rparr>
            in if op4 = 0 then out\<lparr>iop := (if Rd = 15 \<and> S \<noteq> 0 then OP_T32_TST_IMM else OP_T32_AND_IMM)\<rparr>
               else if op4 = 1 then out\<lparr>iop := OP_T32_BIC_IMM\<rparr>
               else if op4 = 2 then out\<lparr>iop := (if Rn = 15 then OP_T32_MOV_IMM else OP_T32_ORR_IMM)\<rparr>
               else if op4 = 3 then out\<lparr>iop := (if Rn = 15 then OP_T32_MVN_IMM else OP_T32_ORN_IMM)\<rparr>
               else if op4 = 4 then out\<lparr>iop := (if Rd = 15 \<and> S \<noteq> 0 then OP_T32_TEQ_IMM else OP_T32_EOR_IMM)\<rparr>
               else if op4 = 8 then out\<lparr>iop := (if Rd = 15 \<and> S \<noteq> 0 then OP_T32_CMN_IMM else OP_T32_ADD_IMM)\<rparr>
               else if op4 = 10 then out\<lparr>iop := OP_T32_ADC_IMM\<rparr>
               else if op4 = 11 then out\<lparr>iop := OP_T32_SBC_IMM\<rparr>
               else if op4 = 13 then out\<lparr>iop := (if Rd = 15 \<and> S \<noteq> 0 then OP_T32_CMP_IMM else OP_T32_SUB_IMM)\<rparr>
               else if op4 = 14 then out\<lparr>iop := OP_T32_RSB_IMM\<rparr>
               else out)
         else if w0 AND 0xFA00 = 0xF200 \<and> op_w1 = 0 then
           (let op4 = fld w0 4 0x1F; imm4 = w0 AND 0xF;
                out = out\<lparr>irn := to8 Rn, ird := to8 Rd\<rparr>
            in if op4 AND 0x1F = 0x00 then
                 out\<lparr>iimm := i12, iop := (if Rn = 15 then OP_T32_ADR_T3 else OP_T32_ADDW)\<rparr>
               else if op4 AND 0x1F = 0x0A then
                 out\<lparr>iimm := i12, iop := (if Rn = 15 then OP_T32_ADR_T2 else OP_T32_SUBW)\<rparr>
               else if op4 AND 0x1F = 0x04 then
                 out\<lparr>iimm := push_bit 12 imm4 OR i12, iop := OP_T32_MOVW\<rparr>
               else if op4 AND 0x1F = 0x0C then
                 out\<lparr>iimm := push_bit 12 imm4 OR i12, iop := OP_T32_MOVT\<rparr>
               else out)
         else decode_t32_ldst w0 w1 out)"

text \<open>The offset of BL and B.W: \<^verbatim>\<open>sext(S:I1:I2:imm10:imm11:0, 25)\<close>.\<close>

definition branch_imm25 :: "u32 \<Rightarrow> u32 \<Rightarrow> u32" where
  "branch_imm25 w0 w1 =
     (let S = fld w0 10 1; imm10 = w0 AND 0x3FF; J1 = fld w1 13 1; J2 = fld w1 11 1;
          imm11 = w1 AND 0x7FF;
          I1 = NOT (J1 XOR S) AND 1; I2 = NOT (J2 XOR S) AND 1
      in sext (push_bit 24 S OR push_bit 23 I1 OR push_bit 22 I2 OR
               push_bit 12 imm10 OR push_bit 1 imm11) 25)"

definition decode_thumb32 :: "u16 \<Rightarrow> u16 \<Rightarrow> addr_t \<Rightarrow> insn_t \<Rightarrow> insn_t" where
  "decode_thumb32 h0 h1 pc out0 =
     (let w0 = to32 h0; w1 = to32 h1; raw = push_bit 16 w0 OR w1;
          out = (set_undef out0 raw pc)\<lparr>isize := 4, iraw := raw\<rparr>;
          op1 = fld w1 14 3; op12 = fld w1 12 1
      in if w0 AND 0xF800 = 0xF000 \<and> w1 AND 0x8000 = 0x8000 \<and> op1 = 3 \<and> op12 = 1 then
           out\<lparr>iimm := branch_imm25 w0 w1, iop := OP_T32_BL\<rparr>
         else if w0 AND 0xF800 = 0xF000 \<and> w1 AND 0x8000 = 0x8000 \<and> op1 = 2 \<and> op12 = 1 then
           out\<lparr>iimm := branch_imm25 w0 w1, iop := OP_B_UNCOND\<rparr>
         else if w0 AND 0xF800 = 0xF000 \<and> w1 AND 0x8000 = 0x8000 \<and> op1 = 2 \<and> op12 = 0 then
           (if w0 = 0xF3EF then
              out\<lparr>ird := to8 (fld w1 8 0xF), iimm := w1 AND 0xFF, iop := OP_T32_MRS\<rparr>
            else if w0 AND 0xFFF0 = 0xF380 then
              out\<lparr>irn := to8 (w0 AND 0xF), iimm := w1 AND 0xFF, irs := to8 (fld w1 10 3),
                  iop := OP_T32_MSR\<rparr>
            else if w0 = 0xF3AF \<or> w0 = 0xF3BF then out\<lparr>iop := OP_T32_NOP\<rparr>
            else
              (let S = fld w0 10 1; J1 = fld w1 13 1; J2 = fld w1 11 1;
                   cond = fld w0 6 0xF; imm6 = w0 AND 0x3F; imm11 = w1 AND 0x7FF;
                   imm21 = push_bit 20 S OR push_bit 19 J2 OR push_bit 18 J1 OR
                           push_bit 12 imm6 OR push_bit 1 imm11
               in out\<lparr>iimm := sext imm21 21, icond := to8 cond, iop := OP_T32_B_COND\<rparr>))
         else decode_t32_imm w0 w1 out)"

definition decode :: "machine \<Rightarrow> addr_t \<Rightarrow> insn_t \<Rightarrow> u8 \<times> insn_t \<times> machine" where
  "decode m pc out =
     (let (w0, m) = bus_r16 m pc
      in if \<not> is_t32 w0 then (2, decode_thumb16 w0 pc out, m)
         else let (w1, m) = bus_r16 m (pc + 2)
              in (4, decode_thumb32 w0 w1 pc out, m))"

text \<open>The static name table has 20 entries; the others, and numbers past the enum, give "???".\<close>

definition opcode_name :: "opcode_t \<Rightarrow> string" where
  "opcode_name op =
     (if op \<ge> OP_COUNT then ''???''
      else case map_of
        [(OP_UNDEFINED, ''UNDEF''), (OP_LSL_IMM, ''LSL''), (OP_LSR_IMM, ''LSR''),
         (OP_ASR_IMM, ''ASR''), (OP_ADD_REG, ''ADD''), (OP_SUB_REG, ''SUB''),
         (OP_ADD_IMM3, ''ADD''), (OP_SUB_IMM3, ''SUB''), (OP_MOV_IMM, ''MOV''),
         (OP_CMP_IMM, ''CMP''), (OP_ADD_IMM8, ''ADD''), (OP_SUB_IMM8, ''SUB''),
         (OP_AND_REG, ''AND''), (OP_EOR_REG, ''EOR''), (OP_MUL, ''MUL''),
         (OP_B_COND, ''B.cond''), (OP_B_UNCOND, ''B''), (OP_SVC, ''SVC''),
         (OP_UDF, ''UDF''), (OP_NOP, ''NOP'')] op of
        Some n \<Rightarrow> n
      | None \<Rightarrow> ''???'')"

end
