(* ===== verification/X86.thy ===== *)
theory X86
  imports Exceptions
begin

text \<open>
  The processor that runs the emitted code: the x86-64 instructions that
  \<^verbatim>\<open>src/core/codegen.c\<close> emits, their decoding from bytes and their effect, and the WIN64
  call of \<^verbatim>\<open>bus_read\<close> and \<^verbatim>\<open>bus_write\<close>.  This is the documented behaviour of the host that
  the code generator relies on, not code of the repository; an encoding outside the
  subset, an access outside the objects of the block or a backward jump has no behaviour
  here (\<open>None\<close>).
\<close>

section \<open>Instructions\<close>

datatype wd = W8 | W32 | W64

text \<open>
  \<open>Rg n\<close> is register \<open>n\<close>, \<open>RgH n\<close> the second byte of one of the first four (AH to BH),
  \<open>Mem b d\<close> the memory at base register \<open>b\<close> plus displacement; base 4 is RSP.
\<close>

datatype operand = Rg u8 | RgH u8 | Mem u8 u32

datatype alu_op = X_ADD | X_OR | X_AND | X_SUB | X_XOR | X_CMP | X_TEST

datatype x86 =
    Alu wd alu_op operand operand
  | AluI wd alu_op operand u32
  | Mov wd operand operand
  | MovI wd operand u64
  | ShrI wd operand u8
  | ShlI wd operand u8
  | Lahf
  | Seto operand
  | Movzx u8 operand
  | Lea u8 operand
  | PushR u8
  | PopR u8
  | CallR u8
  | RetN
  | Jcc u8 u32
  | Jmp u32

abbreviation (input) RAX :: u8 where "RAX \<equiv> 0"
abbreviation (input) RCX :: u8 where "RCX \<equiv> 1"
abbreviation (input) RDX :: u8 where "RDX \<equiv> 2"
abbreviation (input) RBX :: u8 where "RBX \<equiv> 3"
abbreviation (input) RSP :: u8 where "RSP \<equiv> 4"
abbreviation (input) RSI :: u8 where "RSI \<equiv> 6"
abbreviation (input) R8 :: u8 where "R8 \<equiv> 8"
abbreviation (input) R9 :: u8 where "R9 \<equiv> 9"
abbreviation (input) R10 :: u8 where "R10 \<equiv> 10"
abbreviation (input) R11 :: u8 where "R11 \<equiv> 11"
abbreviation (input) R14 :: u8 where "R14 \<equiv> 14"
abbreviation (input) R15 :: u8 where "R15 \<equiv> 15"

section \<open>Decoding\<close>

fun imm8 :: "u8 list \<Rightarrow> (u8 \<times> u8 list) option" where
  "imm8 (a # bs) = Some (a, bs)"
| "imm8 bs = None"

definition le32 :: "u8 \<Rightarrow> u8 \<Rightarrow> u8 \<Rightarrow> u8 \<Rightarrow> u32" where
  "le32 a b c d = to32 a OR push_bit 8 (to32 b) OR push_bit 16 (to32 c) OR push_bit 24 (to32 d)"

fun imm32 :: "u8 list \<Rightarrow> (u32 \<times> u8 list) option" where
  "imm32 (a # b # c # d # bs) = Some (le32 a b c d, bs)"
| "imm32 bs = None"

definition imm64 :: "u8 list \<Rightarrow> (u64 \<times> u8 list) option" where
  "imm64 bs = do { (lo, bs) \<leftarrow> imm32 bs; (hi, bs) \<leftarrow> imm32 bs; Some (to64 lo OR push_bit 32 (to64 hi), bs) }"

text \<open>
  The ModRM byte: the extension digit or register number, and the operand.  \<open>rex\<close> is the
  REX prefix, 0 without one; with a prefix the byte registers 4 to 7 are not AH to BH.
\<close>

definition breg :: "u8 \<Rightarrow> u8 \<Rightarrow> operand" where
  "breg rex n = (if rex = 0 \<and> 4 \<le> n \<and> n < 8 then RgH (n - 4) else Rg n)"

definition rex_r :: "u8 \<Rightarrow> u8" where "rex_r rex = (if bit rex 2 then 8 else 0)"
definition rex_b :: "u8 \<Rightarrow> u8" where "rex_b rex = (if bit rex 0 then 8 else 0)"

fun modrm :: "bool \<Rightarrow> u8 \<Rightarrow> u8 list \<Rightarrow> (u8 \<times> operand \<times> u8 list) option" where
  "modrm byte rex [] = None"
| "modrm byte rex (b # bs) =
     (let md = drop_bit 6 b; reg = fld b 3 7 OR rex_r rex; rm = b AND 7
      in if md = 3 then
           (let n = rm OR rex_b rex in Some (reg, if byte then breg rex n else Rg n, bs))
         else if md = 2 \<and> rm \<noteq> 4 then
           do { (d, bs) \<leftarrow> imm32 bs; Some (reg, Mem (rm OR rex_b rex) d, bs) }
         else if md = 0 \<and> rm = 4 \<and> \<not> bit rex 0 then
           (case bs of s # bs \<Rightarrow> if s = 0x24 then Some (reg, Mem RSP 0, bs) else None | [] \<Rightarrow> None)
         else None)"

definition alu_of :: "u8 \<Rightarrow> alu_op option" where
  "alu_of k = (if k = 0 then Some X_ADD else if k = 1 then Some X_OR else if k = 4 then Some X_AND
     else if k = 5 then Some X_SUB else if k = 6 then Some X_XOR else if k = 7 then Some X_CMP else None)"

definition wd_of :: "u8 \<Rightarrow> wd" where
  "wd_of rex = (if bit rex 3 then W64 else W32)"

text \<open>Jumps go forward: a displacement with its sign bit set is outside the subset.\<close>

definition rel8 :: "(u32 \<Rightarrow> x86) \<Rightarrow> u8 list \<Rightarrow> (x86 \<times> u8 list) option" where
  "rel8 f bs = do { (d, bs) \<leftarrow> imm8 bs; if bit d 7 then None else Some (f (to32 d), bs) }"

definition rel32 :: "(u32 \<Rightarrow> x86) \<Rightarrow> u8 list \<Rightarrow> (x86 \<times> u8 list) option" where
  "rel32 f bs = do { (d, bs) \<leftarrow> imm32 bs; if bit d 31 then None else Some (f d, bs) }"

definition decode_alu :: "u8 \<Rightarrow> u8 \<Rightarrow> u8 list \<Rightarrow> (x86 \<times> u8 list) option" where
  "decode_alu rex op bs =
     do { a \<leftarrow> alu_of (drop_bit 3 op);
          if op AND 7 = 0 then do { (r, rm, bs) \<leftarrow> modrm True rex bs; Some (Alu W8 a rm (breg rex r), bs) }
          else if op AND 7 = 1 then do { (r, rm, bs) \<leftarrow> modrm False rex bs; Some (Alu (wd_of rex) a rm (Rg r), bs) }
          else if op AND 7 = 4 then do { (v, bs) \<leftarrow> imm8 bs; Some (AluI W8 a (Rg RAX) (to32 v), bs) }
          else if op AND 7 = 5 then do { (v, bs) \<leftarrow> imm32 bs; Some (AluI (wd_of rex) a (Rg RAX) v, bs) }
          else None }"

definition decode_0f :: "u8 \<Rightarrow> u8 list \<Rightarrow> (x86 \<times> u8 list) option" where
  "decode_0f rex bs =
     (case bs of [] \<Rightarrow> None
      | op # bs \<Rightarrow>
          if op = 0x90 then do { (r, rm, bs) \<leftarrow> modrm True rex bs; Some (Seto rm, bs) }
          else if op = 0xB6 then do { (r, rm, bs) \<leftarrow> modrm True rex bs; Some (Movzx r rm, bs) }
          else if op AND 0xF0 = 0x80 then rel32 (Jcc (op AND 0xF)) bs
          else None)"

definition decode_op :: "u8 \<Rightarrow> u8 \<Rightarrow> u8 list \<Rightarrow> (x86 \<times> u8 list) option" where
  "decode_op rex op bs =
     (let w = wd_of rex; n = (op AND 7) OR rex_b rex
      in if op = 0x0F then decode_0f rex bs
         else if op < 0x40 then decode_alu rex op bs
         else if op AND 0xF8 = 0x50 then Some (PushR n, bs)
         else if op AND 0xF8 = 0x58 then Some (PopR n, bs)
         else if op AND 0xF0 = 0x70 then rel8 (Jcc (op AND 0xF)) bs
         else if op = 0x80 then
           do { (k, rm, bs) \<leftarrow> modrm True rex bs; a \<leftarrow> alu_of k; (v, bs) \<leftarrow> imm8 bs; Some (AluI W8 a rm (to32 v), bs) }
         else if op = 0x81 then
           do { (k, rm, bs) \<leftarrow> modrm False rex bs; a \<leftarrow> alu_of k; (v, bs) \<leftarrow> imm32 bs; Some (AluI w a rm v, bs) }
         else if op = 0x83 then
           do { (k, rm, bs) \<leftarrow> modrm False rex bs; a \<leftarrow> alu_of k; (v, bs) \<leftarrow> imm8 bs; Some (AluI w a rm (scast v), bs) }
         else if op = 0x84 then do { (r, rm, bs) \<leftarrow> modrm True rex bs; Some (Alu W8 X_TEST rm (breg rex r), bs) }
         else if op = 0x85 then do { (r, rm, bs) \<leftarrow> modrm False rex bs; Some (Alu w X_TEST rm (Rg r), bs) }
         else if op = 0x88 then do { (r, rm, bs) \<leftarrow> modrm True rex bs; Some (Mov W8 rm (breg rex r), bs) }
         else if op = 0x89 then do { (r, rm, bs) \<leftarrow> modrm False rex bs; Some (Mov w rm (Rg r), bs) }
         else if op = 0x8A then do { (r, rm, bs) \<leftarrow> modrm True rex bs; Some (Mov W8 (breg rex r) rm, bs) }
         else if op = 0x8B then do { (r, rm, bs) \<leftarrow> modrm False rex bs; Some (Mov w (Rg r) rm, bs) }
         else if op = 0x8D then do { (r, rm, bs) \<leftarrow> modrm False rex bs; Some (Lea r rm, bs) }
         else if op = 0x9F then Some (Lahf, bs)
         else if op = 0xA8 then do { (v, bs) \<leftarrow> imm8 bs; Some (AluI W8 X_TEST (Rg RAX) (to32 v), bs) }
         else if op AND 0xF8 = 0xB0 then do { (v, bs) \<leftarrow> imm8 bs; Some (MovI W8 (breg rex n) (to64 v), bs) }
         else if op AND 0xF8 = 0xB8 then
           (if w = W64 then do { (v, bs) \<leftarrow> imm64 bs; Some (MovI W64 (Rg n) v, bs) }
            else do { (v, bs) \<leftarrow> imm32 bs; Some (MovI W32 (Rg n) (to64 v), bs) })
         else if op = 0xC0 \<or> op = 0xC1 then
           do { (k, rm, bs) \<leftarrow> modrm (op = 0xC0) rex bs; (v, bs) \<leftarrow> imm8 bs;
                let w' = (if op = 0xC0 then W8 else w);
                if k = 4 then Some (ShlI w' rm v, bs) else if k = 5 then Some (ShrI w' rm v, bs) else None }
         else if op = 0xC3 then Some (RetN, bs)
         else if op = 0xC6 then
           do { (k, rm, bs) \<leftarrow> modrm True rex bs; (v, bs) \<leftarrow> imm8 bs; if k = 0 then Some (MovI W8 rm (to64 v), bs) else None }
         else if op = 0xC7 then
           do { (k, rm, bs) \<leftarrow> modrm False rex bs; (v, bs) \<leftarrow> imm32 bs;
                if k = 0 \<and> w = W32 then Some (MovI W32 rm (to64 v), bs) else None }
         else if op = 0xE9 then rel32 Jmp bs
         else if op = 0xEB then rel8 Jmp bs
         else if op = 0xFF then
           do { (k, rm, bs) \<leftarrow> modrm False rex bs;
                if k = 2 then (case rm of Rg r \<Rightarrow> Some (CallR r, bs) | _ \<Rightarrow> None) else None }
         else None)"

definition x86_decode :: "u8 list \<Rightarrow> (x86 \<times> u8 list) option" where
  "x86_decode bs =
     (case bs of [] \<Rightarrow> None
      | b # bs \<Rightarrow> if b AND 0xF0 = 0x40 then (case bs of [] \<Rightarrow> None | op # bs \<Rightarrow> decode_op b op bs)
                  else decode_op 0 b bs)"

section \<open>State\<close>

text \<open>
  \<open>stk\<close> holds the eight-byte slots from RSP up to the value RSP had on entry.  The host gives
  the addresses of \<^verbatim>\<open>cpu_t\<close>, of the bus, of the buffer of the flat region at 0x20000000 and of
  the two bus functions, and what nothing here determines: the registers on entry, the contents of
  the stack below RSP, AF and PF, and everything a call leaves in volatile registers, flags
  and its home slots.  \<open>at_rsp\<close> is RSP on entry, where the return address lies; under the
  convention it is 8 mod 16 there and 0 mod 16 at every call.  \<open>realigns\<close> is whether the bus
  functions are compiled to align the stack themselves (\<^verbatim>\<open>-mstackrealign\<close>), and so accept
  any RSP; the build files do not ask for it.
\<close>

record xstate =
  gp :: "u8 \<Rightarrow> u64"
  zfl :: bool
  sfl :: bool
  cfl :: bool
  ofl :: bool
  stk :: "u64 list"
  mem :: machine

record x86_host =
  at_cpu :: u64
  at_bus :: u64
  at_sram :: u64
  at_rsp :: u64
  at_bus_read :: u64
  at_bus_write :: u64
  realigns :: bool
  entry :: "u8 \<Rightarrow> u64"
  below :: "xstate \<Rightarrow> nat \<Rightarrow> u64"
  af_pf :: "xstate \<Rightarrow> u8"
  leaves :: "xstate \<Rightarrow> xstate"

definition rsp :: "x86_host \<Rightarrow> xstate \<Rightarrow> u64" where
  "rsp h s = at_rsp h - 8 * of_nat (length (stk s))"

text \<open>The offsets of \<^verbatim>\<open>cpu_t\<close> that the emitted code uses (codegen.h).\<close>

abbreviation (input) CG_R_OFF :: u32 where "CG_R_OFF \<equiv> 0"
abbreviation (input) CG_PC_OFF :: u32 where "CG_PC_OFF \<equiv> 60"
abbreviation (input) CG_APSR_OFF :: u32 where "CG_APSR_OFF \<equiv> 72"
abbreviation (input) CG_HALT_OFF :: u32 where "CG_HALT_OFF \<equiv> 120"

abbreviation (input) SRAM_BASE :: u32 where "SRAM_BASE \<equiv> 0x20000000"

definition sram_slot :: "machine \<Rightarrow> u64 \<Rightarrow> nat option" where
  "sram_slot m p =
     (case bus_find_flat (regions m) SRAM_BASE of
        None \<Rightarrow> None
      | Some k \<Rightarrow> if unat p + 4 \<le> unat (rsize (regions m ! k)) then Some k else None)"

text \<open>\<open>ea\<close>: the effective address, from the sign-extended displacement.\<close>

definition ea :: "xstate \<Rightarrow> u8 \<Rightarrow> u32 \<Rightarrow> u64" where
  "ea s b d = gp s b + scast d"

definition load32 :: "x86_host \<Rightarrow> xstate \<Rightarrow> u64 \<Rightarrow> u32 option" where
  "load32 h s a =
     (let q = a - at_cpu h; p = a - at_sram h
      in if q < 64 then (if q AND 3 = 0 then Some (reg (mem s) (to8 (drop_bit 2 q))) else None)
         else if q = 72 then Some (apsr (cpu (mem s)))
         else case sram_slot (mem s) p of
                Some k \<Rightarrow> Some (get_le (buf (regions (mem s) ! k)) (to32 p) 4)
              | None \<Rightarrow> None)"

definition store32 :: "x86_host \<Rightarrow> xstate \<Rightarrow> u64 \<Rightarrow> u32 \<Rightarrow> xstate option" where
  "store32 h s a v =
     (let q = a - at_cpu h; p = a - at_sram h; m = mem s
      in if q < 64 then
           (if q AND 3 = 0 then Some (s\<lparr>mem := set_reg m (to8 (drop_bit 2 q)) v\<rparr>) else None)
         else if q = 72 then Some (s\<lparr>mem := cpu_update (apsr_update (\<lambda>_. v)) m\<rparr>)
         else case sram_slot m p of
                Some k \<Rightarrow> Some (s\<lparr>mem := put_flat m k (to32 p) 4 v\<rparr>)
              | None \<Rightarrow> None)"

definition load8 :: "x86_host \<Rightarrow> xstate \<Rightarrow> u64 \<Rightarrow> u8 option" where
  "load8 h s a = (if a - at_cpu h = 75 then Some (to8 (drop_bit 24 (apsr (cpu (mem s))))) else None)"

definition store8 :: "x86_host \<Rightarrow> xstate \<Rightarrow> u64 \<Rightarrow> u8 \<Rightarrow> xstate option" where
  "store8 h s a v =
     (if a - at_cpu h = 120 then Some (s\<lparr>mem := cpu_update (halted_update (\<lambda>_. v \<noteq> 0)) (mem s)\<rparr>) else None)"

section \<open>Operands\<close>

definition set_gp :: "u8 \<Rightarrow> u64 \<Rightarrow> xstate \<Rightarrow> xstate" where
  "set_gp r v s = s\<lparr>gp := (gp s)(r := v)\<rparr>"

text \<open>A write of 32 bits clears the upper half of the register, one of 8 bits keeps the rest.\<close>

definition put_lo :: "u64 \<Rightarrow> u8 \<Rightarrow> u64" where
  "put_lo x v = (x AND NOT 0xFF) OR to64 v"
definition put_hi :: "u64 \<Rightarrow> u8 \<Rightarrow> u64" where
  "put_hi x v = (x AND NOT 0xFF00) OR push_bit 8 (to64 v)"

fun get8 :: "x86_host \<Rightarrow> xstate \<Rightarrow> operand \<Rightarrow> u8 option" where
  "get8 h s (Rg r) = Some (to8 (gp s r))"
| "get8 h s (RgH r) = Some (to8 (drop_bit 8 (gp s r)))"
| "get8 h s (Mem b d) = load8 h s (ea s b d)"

fun put8 :: "x86_host \<Rightarrow> xstate \<Rightarrow> operand \<Rightarrow> u8 \<Rightarrow> xstate option" where
  "put8 h s (Rg r) v = Some (set_gp r (put_lo (gp s r) v) s)"
| "put8 h s (RgH r) v = Some (set_gp r (put_hi (gp s r) v) s)"
| "put8 h s (Mem b d) v = store8 h s (ea s b d) v"

fun get32 :: "x86_host \<Rightarrow> xstate \<Rightarrow> operand \<Rightarrow> u32 option" where
  "get32 h s (Rg r) = (if r = RSP then None else Some (to32 (gp s r)))"
| "get32 h s (RgH r) = None"
| "get32 h s (Mem b d) =
     (if b = RSP then (case stk s of v # vs \<Rightarrow> if d = 0 then Some (to32 v) else None | [] \<Rightarrow> None)
      else load32 h s (ea s b d))"

fun put32 :: "x86_host \<Rightarrow> xstate \<Rightarrow> operand \<Rightarrow> u32 \<Rightarrow> xstate option" where
  "put32 h s (Rg r) v = (if r = RSP then None else Some (set_gp r (to64 v) s))"
| "put32 h s (RgH r) v = None"
| "put32 h s (Mem b d) v = (if b = RSP then None else store32 h s (ea s b d) v)"

fun get64 :: "xstate \<Rightarrow> operand \<Rightarrow> u64 option" where
  "get64 s (Rg r) = (if r = RSP then None else Some (gp s r))"
| "get64 s x = None"

fun put64 :: "xstate \<Rightarrow> operand \<Rightarrow> u64 \<Rightarrow> xstate option" where
  "put64 s (Rg r) v = (if r = RSP then None else Some (set_gp r v s))"
| "put64 s x v = None"

section \<open>Arithmetic and flags\<close>

fun alu :: "alu_op \<Rightarrow> 'a::len word \<Rightarrow> 'a word \<Rightarrow> 'a word" where
  "alu X_ADD a b = a + b"
| "alu X_OR a b = a OR b"
| "alu X_AND a b = a AND b"
| "alu X_SUB a b = a - b"
| "alu X_XOR a b = a XOR b"
| "alu X_CMP a b = a - b"
| "alu X_TEST a b = a AND b"

definition top_bit :: "'a::len word \<Rightarrow> bool" where
  "top_bit w = bit w (LENGTH('a) - 1)"

definition alu_carry :: "alu_op \<Rightarrow> 'a::len word \<Rightarrow> 'a word \<Rightarrow> bool" where
  "alu_carry op a b =
     (if op = X_ADD then a + b < a else if op = X_SUB \<or> op = X_CMP then a < b else False)"

definition alu_overflow :: "alu_op \<Rightarrow> 'a::len word \<Rightarrow> 'a word \<Rightarrow> bool" where
  "alu_overflow op a b =
     (if op = X_ADD then top_bit a = top_bit b \<and> top_bit (a + b) \<noteq> top_bit a
      else if op = X_SUB \<or> op = X_CMP then top_bit a \<noteq> top_bit b \<and> top_bit (a - b) \<noteq> top_bit a
      else False)"

definition alu_flags :: "alu_op \<Rightarrow> 'a::len word \<Rightarrow> 'a word \<Rightarrow> xstate \<Rightarrow> xstate" where
  "alu_flags op a b s =
     s\<lparr>zfl := alu op a b = 0, sfl := top_bit (alu op a b), cfl := alu_carry op a b, ofl := alu_overflow op a b\<rparr>"

definition discards :: "alu_op \<Rightarrow> bool" where
  "discards op \<longleftrightarrow> op = X_CMP \<or> op = X_TEST"

text \<open>A shift by \<open>n > 0\<close>; OF is defined for \<open>n = 1\<close> only and is left to the host.\<close>

definition shift_flags :: "x86_host \<Rightarrow> 'a::len word \<Rightarrow> bool \<Rightarrow> xstate \<Rightarrow> xstate" where
  "shift_flags h r out s = s\<lparr>zfl := r = 0, sfl := top_bit r, cfl := out, ofl := ofl (leaves h s)\<rparr>"

text \<open>The sixteen conditions of a jump, of which the low bit negates.\<close>

definition jcc :: "xstate \<Rightarrow> u8 \<Rightarrow> bool" where
  "jcc s cc =
     (let k = drop_bit 1 cc;
          t = (if k = 0 then ofl s else if k = 1 then cfl s else if k = 2 then zfl s
               else if k = 3 then cfl s \<or> zfl s else if k = 4 then sfl s
               else if k = 6 then sfl s \<noteq> ofl s else if k = 7 then zfl s \<or> sfl s \<noteq> ofl s else False)
      in t \<noteq> bit cc 0)"

section \<open>Calls\<close>

text \<open>
  The WIN64 call of \<^verbatim>\<open>bus_read(b, a, size, &out)\<close> and \<^verbatim>\<open>bus_write(b, a, size, val)\<close>: arguments in RCX,
  RDX, R8 and R9, the result in AL.  The callee may overwrite RAX, RCX, RDX, R8 to R11, the
  flags and the four home slots above the return address; \<^verbatim>\<open>*out\<close>, stored when the read
  succeeds, is the lowest of them.  With an RSP that is not a multiple of 16 the call is outside
  the convention, and \<open>None\<close> unless the functions realign the stack.
\<close>

definition volatile :: "u8 \<Rightarrow> bool" where
  "volatile r \<longleftrightarrow> r \<in> {RAX, RCX, RDX, R8, R9, R10, R11}"

definition returned :: "x86_host \<Rightarrow> xstate \<Rightarrow> bool \<Rightarrow> u64 \<Rightarrow> machine \<Rightarrow> xstate" where
  "returned h s ok slot m =
     (let v = leaves h s
      in v\<lparr>gp := (\<lambda>r. if r = RAX then put_lo (gp v r) (b2w ok) else if volatile r then gp v r else gp s r),
           stk := slot # map (below h s) [1..<4] @ drop 4 (stk s), mem := m\<rparr>)"

definition call_bus :: "x86_host \<Rightarrow> xstate \<Rightarrow> u64 \<Rightarrow> xstate option" where
  "call_bus h s f =
     (if length (stk s) < 4 \<or> gp s RCX \<noteq> at_bus h \<or> (rsp h s AND 0xF \<noteq> 0 \<and> \<not> realigns h) then None
      else if f = at_bus_read h then
        (if gp s R9 \<noteq> rsp h s then None
         else let (v, m) = bus_read (mem s) (to32 (gp s RDX)) (to32 (gp s R8));
                  junk = below h s 0
              in case v of
                   Some x \<Rightarrow> Some (returned h s True ((junk AND NOT 0xFFFFFFFF) OR to64 x) m)
                 | None \<Rightarrow> Some (returned h s False junk m))
      else if f = at_bus_write h then
        do { (ok, m) \<leftarrow> bus_write (mem s) (to32 (gp s RDX)) (to32 (gp s R8)) (to32 (gp s R9));
             Some (returned h s ok (below h s 0) m) }
      else None)"

section \<open>Execution\<close>

definition alu_step :: "x86_host \<Rightarrow> xstate \<Rightarrow> wd \<Rightarrow> alu_op \<Rightarrow> operand \<Rightarrow> (operand + u32) \<Rightarrow> xstate option" where
  "alu_step h s w op d src =
     (case w of
        W8 \<Rightarrow> do { a \<leftarrow> get8 h s d; b \<leftarrow> (case src of Inl x \<Rightarrow> get8 h s x | Inr v \<Rightarrow> Some (to8 v));
                   let s = alu_flags op a b s; if discards op then Some s else put8 h s d (alu op a b) }
      | W32 \<Rightarrow> do { a \<leftarrow> get32 h s d; b \<leftarrow> (case src of Inl x \<Rightarrow> get32 h s x | Inr v \<Rightarrow> Some v);
                    let s = alu_flags op a b s; if discards op then Some s else put32 h s d (alu op a b) }
      | W64 \<Rightarrow> do { a \<leftarrow> get64 s d; b \<leftarrow> (case src of Inl x \<Rightarrow> get64 s x | Inr v \<Rightarrow> Some (scast v));
                    let s = alu_flags op a b s; if discards op then Some s else put64 s d (alu op a b) })"

text \<open>Moving RSP by an immediate takes or gives back slots.\<close>

definition rsp_step :: "x86_host \<Rightarrow> xstate \<Rightarrow> alu_op \<Rightarrow> u32 \<Rightarrow> xstate option" where
  "rsp_step h s op v =
     (let n = unat v div 8; s1 = alu_flags op (rsp h s) (scast v) s
      in if unat v mod 8 \<noteq> 0 then None
         else if op = X_SUB then Some (s1\<lparr>stk := map (below h s) [0..<n] @ stk s\<rparr>)
         else if op = X_ADD \<and> n \<le> length (stk s) then Some (s1\<lparr>stk := drop n (stk s)\<rparr>)
         else None)"

fun x86_step :: "x86_host \<Rightarrow> x86 \<Rightarrow> xstate \<Rightarrow> xstate option" where
  "x86_step h (Alu w op d r) s = alu_step h s w op d (Inl r)"
| "x86_step h (AluI w op d v) s =
     (if w = W64 \<and> d = Rg RSP then rsp_step h s op v else alu_step h s w op d (Inr v))"
| "x86_step h (Mov w d r) s =
     (case w of W8 \<Rightarrow> do { v \<leftarrow> get8 h s r; put8 h s d v }
      | W32 \<Rightarrow> do { v \<leftarrow> get32 h s r; put32 h s d v }
      | W64 \<Rightarrow> do { v \<leftarrow> get64 s r; put64 s d v })"
| "x86_step h (MovI w d v) s =
     (case w of W8 \<Rightarrow> put8 h s d (to8 v) | W32 \<Rightarrow> put32 h s d (to32 v) | W64 \<Rightarrow> put64 s d v)"
| "x86_step h (ShrI w d n) s =
     (let k = unat n
      in if k = 0 then None
         else case w of
           W8 \<Rightarrow> do { a \<leftarrow> get8 h s d; if k < 8 then put8 h (shift_flags h (drop_bit k a) (bit a (k - 1)) s) d (drop_bit k a) else None }
         | W32 \<Rightarrow> do { a \<leftarrow> get32 h s d; if k < 32 then put32 h (shift_flags h (drop_bit k a) (bit a (k - 1)) s) d (drop_bit k a) else None }
         | W64 \<Rightarrow> None)"
| "x86_step h (ShlI w d n) s =
     (let k = unat n
      in if k = 0 then None
         else case w of
           W32 \<Rightarrow> do { a \<leftarrow> get32 h s d; if k < 32 then put32 h (shift_flags h (push_bit k a) (bit a (32 - k)) s) d (push_bit k a) else None }
         | _ \<Rightarrow> None)"
| "x86_step h Lahf s =
     put8 h s (RgH RAX) (push_bit 7 (b2w (sfl s)) OR push_bit 6 (b2w (zfl s)) OR (af_pf h s AND 0x14) OR 2 OR b2w (cfl s))"
| "x86_step h (Seto d) s = put8 h s d (b2w (ofl s))"
| "x86_step h (Movzx r x) s = do { v \<leftarrow> get8 h s x; put32 h s (Rg r) (to32 v) }"
| "x86_step h (Lea r x) s =
     (case x of Mem b d \<Rightarrow> if b = RSP then Some (set_gp r (rsp h s) s) else Some (set_gp r (ea s b d) s) | _ \<Rightarrow> None)"
| "x86_step h (PushR r) s = (if r = RSP then None else Some (s\<lparr>stk := gp s r # stk s\<rparr>))"
| "x86_step h (PopR r) s =
     (case stk s of v # vs \<Rightarrow> if r = RSP then None else Some (set_gp r v (s\<lparr>stk := vs\<rparr>)) | [] \<Rightarrow> None)"
| "x86_step h (CallR r) s = call_bus h s (gp s r)"
| "x86_step h RetN s = None"
| "x86_step h (Jcc cc d) s = None"
| "x86_step h (Jmp d) s = None"

text \<open>The bytes shrink with every instruction, since jumps go forward.\<close>

lemma imm_shorter:
  "imm8 bs = Some (v, r) \<Longrightarrow> length r < length bs"
  "imm32 bs = Some (w, r) \<Longrightarrow> length r < length bs"
  by (cases bs rule: imm8.cases; auto) (cases bs rule: imm32.cases; auto)

lemma imm64_shorter: "imm64 bs = Some (v, r) \<Longrightarrow> length r < length bs"
  by (auto simp: imm64_def split: bind_splits dest!: imm_shorter)

lemma modrm_shorter: "modrm byte rex bs = Some (k, rm, r) \<Longrightarrow> length r < length bs"
  by (cases bs) (auto simp: Let_def split: if_splits list.splits bind_splits dest: imm_shorter)

lemma rel_shorter:
  "rel8 f bs = Some (i, r) \<Longrightarrow> length r < length bs"
  "rel32 f bs = Some (i, r) \<Longrightarrow> length r < length bs"
  by (auto simp: rel8_def rel32_def split: bind_splits if_splits dest: imm_shorter)

lemmas shorter = imm_shorter imm64_shorter modrm_shorter rel_shorter

lemma decode_op_shorter: "decode_op rex op bs = Some (i, r) \<Longrightarrow> length r \<le> length bs"
  unfolding decode_op_def decode_alu_def decode_0f_def Let_def
  by (auto split: if_splits bind_splits list.splits operand.splits dest!: shorter)

lemma decode_shorter: "x86_decode bs = Some (i, r) \<Longrightarrow> length r < length bs"
  by (auto simp: x86_decode_def split: list.splits if_splits dest!: decode_op_shorter)

function x86_run :: "x86_host \<Rightarrow> u8 list \<Rightarrow> xstate \<Rightarrow> xstate option" where
  "x86_run h bs s =
     (case x86_decode bs of
        None \<Rightarrow> None
      | Some (i, rest) \<Rightarrow>
          (case i of
             RetN \<Rightarrow> if stk s = [] then Some s else None
           | Jmp d \<Rightarrow> x86_run h (drop (unat d) rest) s
           | Jcc cc d \<Rightarrow> x86_run h (if jcc s cc then drop (unat d) rest else rest) s
           | _ \<Rightarrow> (case x86_step h i s of None \<Rightarrow> None | Some s' \<Rightarrow> x86_run h rest s')))"
  by pat_completeness auto
termination x86_run
  by (relation "measure (\<lambda>(h, bs, s). length bs)") (auto dest: decode_shorter)

declare x86_run.simps [simp del]

text \<open>
  Calling the code at \<open>bs\<close> as \<^verbatim>\<open>bool (*)(cpu_t*, bus_t*)\<close>.  A function that does not give
  RBX, RSI, RDI, RBP and R12 to R15 back to its caller breaks the convention: \<open>None\<close>.
\<close>

definition x86_call :: "x86_host \<Rightarrow> u8 list \<Rightarrow> machine \<Rightarrow> (bool \<times> machine) option" where
  "x86_call h bs m =
     (let s0 = \<lparr>gp = (entry h)(RCX := at_cpu h, RDX := at_bus h), zfl = False, sfl = False, cfl = False,
                ofl = False, stk = [], mem = m\<rparr>
      in do { s \<leftarrow> x86_run h bs s0;
              if \<forall>r \<in> set [3, 5, 6, 7, 12, 13, 14, 15]. gp s r = gp s0 r
              then Some (to8 (gp s RAX) \<noteq> 0, mem s) else None })"

end
