(* ===== verification/Codegen.thy ===== *)
theory Codegen
  imports X86 Insn
begin

text \<open>
  The code generator \<^verbatim>\<open>src/core/codegen.c\<close>.  An emitter is the list of bytes that it passes to
  \<^verbatim>\<open>emit_b\<close>, in order; \<open>codegen_emit\<close> puts them into the buffer, which drops what does not fit.
  The host gives the addresses that are baked into the code.
\<close>

section \<open>The buffer\<close>

abbreviation (input) CG_BUFFER_SIZE :: nat where "CG_BUFFER_SIZE \<equiv> 64 * 1024 * 32"

text \<open>\<open>buffer\<close> is the used part of the executable memory, whose allocation is taken to succeed.\<close>

record codegen_t =
  buffer :: "u8 list"
  capacity :: nat

definition codegen_init :: codegen_t where
  "codegen_init = \<lparr>buffer = [], capacity = CG_BUFFER_SIZE\<rparr>"

definition emit_b :: "codegen_t \<Rightarrow> u8 \<Rightarrow> codegen_t" where
  "emit_b g b = (if length (buffer g) < capacity g then g\<lparr>buffer := buffer g @ [b]\<rparr> else g)"

definition emit_w32 :: "u32 \<Rightarrow> u8 list" where
  "emit_w32 v = [to8 v, to8 (drop_bit 8 v), to8 (drop_bit 16 v), to8 (drop_bit 24 v)]"

definition emit_w64 :: "u64 \<Rightarrow> u8 list" where
  "emit_w64 v = map (\<lambda>k. to8 (drop_bit (k * 8) v)) [0..<8]"

section \<open>Instructions\<close>

definition ld_eax :: "u8 \<Rightarrow> u8 list" where
  "ld_eax r = [0x41, 0x8B, 0x87] @ emit_w32 (CG_R_OFF + to32 r * 4)"
definition ld_ecx :: "u8 \<Rightarrow> u8 list" where
  "ld_ecx r = [0x41, 0x8B, 0x8F] @ emit_w32 (CG_R_OFF + to32 r * 4)"
definition st_eax :: "u8 \<Rightarrow> u8 list" where
  "st_eax r = [0x41, 0x89, 0x87] @ emit_w32 (CG_R_OFF + to32 r * 4)"
definition st_ecx :: "u8 \<Rightarrow> u8 list" where
  "st_ecx r = [0x41, 0x89, 0x8F] @ emit_w32 (CG_R_OFF + to32 r * 4)"
definition st_pc :: "u32 \<Rightarrow> u8 list" where
  "st_pc pc = [0x41, 0xC7, 0x87] @ emit_w32 CG_PC_OFF @ emit_w32 pc"
definition mov_eax_imm :: "u32 \<Rightarrow> u8 list" where
  "mov_eax_imm imm = 0xB8 # emit_w32 imm"
definition op_add_ec :: "u8 list" where "op_add_ec = [0x01, 0xC8]"
definition op_sub_ec :: "u8 list" where "op_sub_ec = [0x29, 0xC8]"
definition op_and_ec :: "u8 list" where "op_and_ec = [0x21, 0xC8]"
definition op_or_ec :: "u8 list" where "op_or_ec = [0x09, 0xC8]"
definition op_xor_ec :: "u8 list" where "op_xor_ec = [0x31, 0xC8]"
definition add_imm :: "u32 \<Rightarrow> u8 list" where "add_imm v = 0x05 # emit_w32 v"
definition sub_imm :: "u32 \<Rightarrow> u8 list" where "sub_imm v = 0x2D # emit_w32 v"

definition emit_clear_fail :: "u8 list" where "emit_clear_fail = [0x31, 0xDB]"
definition mov_rcx_r14 :: "u8 list" where "mov_rcx_r14 = [0x4C, 0x89, 0xF1]"
definition mov_edx_eax :: "u8 list" where "mov_edx_eax = [0x89, 0xC2]"
definition mov_r8d_imm :: "u32 \<Rightarrow> u8 list" where "mov_r8d_imm v = [0x41, 0xB8] @ emit_w32 v"
definition lea_r9_rsp0 :: "u8 list" where "lea_r9_rsp0 = [0x4C, 0x8D, 0x0C, 0x24]"
definition mov_r9d_reg :: "u8 \<Rightarrow> u8 list" where
  "mov_r9d_reg r = [0x45, 0x8B, 0x8F] @ emit_w32 (CG_R_OFF + to32 r * 4)"
definition sub_rsp_16 :: "u8 list" where "sub_rsp_16 = [0x48, 0x83, 0xEC, 0x10]"
definition add_rsp_16 :: "u8 list" where "add_rsp_16 = [0x48, 0x83, 0xC4, 0x10]"
definition mov_rax_imm64 :: "u64 \<Rightarrow> u8 list" where "mov_rax_imm64 v = [0x48, 0xB8] @ emit_w64 v"
definition call_rax :: "u8 list" where "call_rax = [0xFF, 0xD0]"
definition mov_ecx_rsp0 :: "u8 list" where "mov_ecx_rsp0 = [0x8B, 0x0C, 0x24]"
definition test_al_jnz :: "u8 \<Rightarrow> u8 list" where "test_al_jnz skip = [0x84, 0xC0, 0x75, skip]"
definition or_bl_1 :: "u8 list" where "or_bl_1 = [0x80, 0xCB, 0x01]"
definition jmp_short :: "u8 \<Rightarrow> u8 list" where "jmp_short n = [0xEB, n]"
definition and_r9d_imm :: "u32 \<Rightarrow> u8 list" where "and_r9d_imm v = [0x41, 0x81, 0xE1] @ emit_w32 v"

definition emit_lahf_seto_cl :: "u8 list" where "emit_lahf_seto_cl = [0x9F, 0x0F, 0x90, 0xC1]"
definition movzx_edx_ah :: "u8 list" where "movzx_edx_ah = [0x0F, 0xB6, 0xD4]"
definition mov_esi_edx :: "u8 list" where "mov_esi_edx = [0x89, 0xD6]"
definition shr_esi :: "u8 \<Rightarrow> u8 list" where "shr_esi n = [0xC1, 0xEE, n]"
definition shl_esi :: "u8 \<Rightarrow> u8 list" where "shl_esi n = [0xC1, 0xE6, n]"
definition mov_r10d_edx :: "u8 list" where "mov_r10d_edx = [0x41, 0x89, 0xD2]"
definition shr_r10d :: "u8 \<Rightarrow> u8 list" where "shr_r10d n = [0x41, 0xC1, 0xEA, n]"
definition and_r10d_imm :: "u32 \<Rightarrow> u8 list" where "and_r10d_imm v = [0x41, 0x81, 0xE2] @ emit_w32 v"
definition shl_r10d :: "u8 \<Rightarrow> u8 list" where "shl_r10d n = [0x41, 0xC1, 0xE2, n]"
definition or_esi_r10d :: "u8 list" where "or_esi_r10d = [0x44, 0x09, 0xD6]"
definition xor_r10d_imm :: "u32 \<Rightarrow> u8 list" where "xor_r10d_imm v = [0x41, 0x81, 0xF2] @ emit_w32 v"
definition movzx_r10d_cl :: "u8 list" where "movzx_r10d_cl = [0x44, 0x0F, 0xB6, 0xD1]"
definition ld_r10d_apsr :: "u8 list" where "ld_r10d_apsr = [0x45, 0x8B, 0x97] @ emit_w32 CG_APSR_OFF"
definition st_r10d_apsr :: "u8 list" where "st_r10d_apsr = [0x45, 0x89, 0x97] @ emit_w32 CG_APSR_OFF"
definition or_r10d_esi :: "u8 list" where "or_r10d_esi = [0x41, 0x09, 0xF2]"
definition mov_r11d_eax :: "u8 list" where "mov_r11d_eax = [0x41, 0x89, 0xC3]"
definition mov_eax_r11d :: "u8 list" where "mov_eax_r11d = [0x44, 0x89, 0xD8]"

section \<open>Flags\<close>

definition emit_flags_nzcv :: "bool \<Rightarrow> u8 list" where
  "emit_flags_nzcv is_sub =
     mov_r11d_eax @ emit_lahf_seto_cl @ movzx_edx_ah @ mov_eax_r11d @
     mov_esi_edx @ shr_esi 7 @ shl_esi 31 @
     mov_r10d_edx @ shr_r10d 6 @ and_r10d_imm 1 @ shl_r10d 30 @ or_esi_r10d @
     mov_r10d_edx @ and_r10d_imm 1 @ (if is_sub then xor_r10d_imm 1 else []) @ shl_r10d 29 @ or_esi_r10d @
     movzx_r10d_cl @ shl_r10d 28 @ or_esi_r10d @
     ld_r10d_apsr @ and_r10d_imm 0x0FFFFFFF @ or_r10d_esi @ st_r10d_apsr"

definition emit_flags_nz :: "u8 list" where
  "emit_flags_nz =
     mov_r11d_eax @ [0x9F] @ movzx_edx_ah @ mov_eax_r11d @
     mov_esi_edx @ shr_esi 7 @ shl_esi 31 @
     mov_r10d_edx @ shr_r10d 6 @ and_r10d_imm 1 @ shl_r10d 30 @ or_esi_r10d @
     ld_r10d_apsr @ and_r10d_imm 0x3FFFFFFF @ or_r10d_esi @ st_r10d_apsr"

section \<open>Prologue and epilogue\<close>

definition emit_prologue :: "u8 list" where
  "emit_prologue = [0x41, 0x57] @ [0x41, 0x56] @ [0x53] @ [0x56] @ [0x48, 0x83, 0xEC, 0x20] @
     [0x49, 0x89, 0xCF] @ [0x49, 0x89, 0xD6]"

definition emit_epilogue_check :: "u8 list" where
  "emit_epilogue_check = [0x84, 0xDB] @ [0x74, 21] @
     [0x41, 0xC6, 0x87] @ emit_w32 CG_HALT_OFF @ [0x01] @
     [0x48, 0x83, 0xC4, 0x20] @ [0x5E] @ [0x5B] @ [0x41, 0x5E] @ [0x41, 0x5F] @ [0x30, 0xC0] @ [0xC3] @
     [0x48, 0x83, 0xC4, 0x20] @ [0x5E, 0x5B] @ [0x41, 0x5E] @ [0x41, 0x5F] @ [0xB0, 0x01] @ [0xC3]"

section \<open>Loads, stores and branches\<close>

definition emit_load_from_eax :: "x86_host \<Rightarrow> u8 \<Rightarrow> u32 \<Rightarrow> u8 list" where
  "emit_load_from_eax h rd sz =
     sub_rsp_16 @ mov_rcx_r14 @ mov_edx_eax @ mov_r8d_imm sz @ lea_r9_rsp0 @
     mov_rax_imm64 (at_bus_read h) @ call_rax @ mov_ecx_rsp0 @ add_rsp_16 @
     (if sz = 1 then [0x81, 0xE1] @ emit_w32 0xFF else if sz = 2 then [0x81, 0xE1] @ emit_w32 0xFFFF else []) @
     test_al_jnz 5 @ or_bl_1 @ jmp_short 7 @ st_ecx rd"

definition emit_load :: "x86_host \<Rightarrow> u8 \<Rightarrow> u8 \<Rightarrow> u32 \<Rightarrow> u32 \<Rightarrow> u8 list" where
  "emit_load h rd rn imm sz = ld_eax rn @ (if imm \<noteq> 0 then add_imm imm else []) @ emit_load_from_eax h rd sz"

definition emit_store :: "x86_host \<Rightarrow> u8 \<Rightarrow> u8 \<Rightarrow> u32 \<Rightarrow> u32 \<Rightarrow> u8 list" where
  "emit_store h rd rn imm sz = ld_eax rn @ (if imm \<noteq> 0 then add_imm imm else []) @
     sub_rsp_16 @ mov_rcx_r14 @ mov_edx_eax @ mov_r8d_imm sz @ mov_r9d_reg rd @
     (if sz = 1 then and_r9d_imm 0xFF else if sz = 2 then and_r9d_imm 0xFFFF else []) @
     mov_rax_imm64 (at_bus_write h) @ call_rax @ add_rsp_16 @ test_al_jnz 3 @ or_bl_1"

definition emit_b_uncond :: "insn_t \<Rightarrow> u8 list" where
  "emit_b_uncond i = st_pc (ipc i + 4 + iimm i)"

definition emit_t32_bl :: "insn_t \<Rightarrow> u8 list" where
  "emit_t32_bl i =
     (let tgt = (ipc i + 4 + iimm i) AND NOT 1; lnk = (ipc i + to32 (isize i)) OR 1
      in mov_eax_imm lnk @ st_eax 14 @ st_pc tgt)"

section \<open>Block transfers\<close>

definition cmp_eax_imm32 :: "u32 \<Rightarrow> u8 list" where "cmp_eax_imm32 v = 0x3D # emit_w32 v"
definition jcc_rel8 :: "u8 \<Rightarrow> u8 \<Rightarrow> u8 list" where "jcc_rel8 op off = [op, off]"
definition mov_r10_imm64 :: "u64 \<Rightarrow> u8 list" where "mov_r10_imm64 v = [0x49, 0xBA] @ emit_w64 v"
definition mov_r11d_eax_zero_ext :: "u8 list" where "mov_r11d_eax_zero_ext = [0x41, 0x89, 0xC3]"
definition add_r11_r10 :: "u8 list" where "add_r11_r10 = [0x4D, 0x01, 0xD3]"
definition sub_r11_imm32 :: "u32 \<Rightarrow> u8 list" where "sub_r11_imm32 v = [0x49, 0x81, 0xEB] @ emit_w32 v"
definition mov_r11_off_ecx :: "u32 \<Rightarrow> u8 list" where "mov_r11_off_ecx disp = [0x41, 0x89, 0x8B] @ emit_w32 disp"
definition mov_ecx_r11_off :: "u32 \<Rightarrow> u8 list" where "mov_ecx_r11_off disp = [0x41, 0x8B, 0x8B] @ emit_w32 disp"
definition add_edx_imm :: "u32 \<Rightarrow> u8 list" where "add_edx_imm v = [0x81, 0xC2] @ emit_w32 v"
definition cmp_ecx_imm32 :: "u32 \<Rightarrow> u8 list" where "cmp_ecx_imm32 v = [0x81, 0xF9] @ emit_w32 v"
definition and_ecx_imm32 :: "u32 \<Rightarrow> u8 list" where "and_ecx_imm32 v = [0x81, 0xE1] @ emit_w32 v"

text \<open>The registers of a list, and one slot after the other: \<open>slots f ks\<close> is \<^verbatim>\<open>f(k, k_off)\<close> for each.\<close>

definition regs_in :: "u16 \<Rightarrow> nat \<Rightarrow> nat list" where
  "regs_in l n = List.filter (bit l) [0..<n]"

fun slots :: "(nat \<Rightarrow> u32 \<Rightarrow> u8 list) \<Rightarrow> u32 \<Rightarrow> nat list \<Rightarrow> u8 list" where
  "slots f off [] = []"
| "slots f off (k # ks) = f k off @ slots f (off + 4) ks"

text \<open>\<open>start\<close> is the code that brings the base into EAX again for every access.\<close>

definition slow_store :: "x86_host \<Rightarrow> u8 list \<Rightarrow> u8 list \<Rightarrow> u32 \<Rightarrow> u8 list" where
  "slow_store h start val off =
     start @ sub_rsp_16 @ mov_rcx_r14 @ mov_edx_eax @ add_edx_imm off @ mov_r8d_imm 4 @ val @
     mov_rax_imm64 (at_bus_write h) @ call_rax @ add_rsp_16 @ test_al_jnz 3 @ or_bl_1"

definition slow_load :: "x86_host \<Rightarrow> u8 list \<Rightarrow> nat \<Rightarrow> u32 \<Rightarrow> u8 list" where
  "slow_load h start k off =
     start @ sub_rsp_16 @ mov_rcx_r14 @ mov_edx_eax @ add_edx_imm off @ mov_r8d_imm 4 @ lea_r9_rsp0 @
     mov_rax_imm64 (at_bus_read h) @ call_rax @ mov_ecx_rsp0 @ add_rsp_16 @ test_al_jnz 5 @ or_bl_1 @
     jmp_short 7 @ (if k = 15 then [0x44, 0x89, 0xC8] else st_ecx (of_nat k))"

text \<open>The bounds check, the fast path over the buffer, the jump over the slow path, the slow path.\<close>

definition fast_setup :: "x86_host \<Rightarrow> u32 \<Rightarrow> u8 list" where
  "fast_setup h fbase = mov_r10_imm64 (at_sram h) @ mov_r11d_eax_zero_ext @ add_r11_r10 @ sub_r11_imm32 fbase"

definition fast_load_pc :: "u8 list" where
  "fast_load_pc = cmp_ecx_imm32 0xFFFFFFF0 @ jcc_rel8 0x73 (6 + 7 + 2) @ and_ecx_imm32 (NOT 1) @
     [0x41, 0x89, 0x8F] @ emit_w32 CG_PC_OFF @ jmp_short 3 @ or_bl_1"

definition commit_pc :: "u8 list" where
  "commit_pc = [0x41, 0x81, 0xFA] @ emit_w32 0xFFFFFFF0 @ jcc_rel8 0x73 (7 + 7 + 2) @
     [0x41, 0x81, 0xE2] @ emit_w32 (NOT 1) @ [0x45, 0x89, 0x97] @ emit_w32 CG_PC_OFF @ jmp_short 3 @ or_bl_1"

definition guarded :: "u32 \<times> u32 \<Rightarrow> nat \<Rightarrow> nat \<Rightarrow> nat \<Rightarrow> u8 list \<Rightarrow> u8 list \<Rightarrow> u8 list" where
  "guarded sram cnt fast_body slow_body fast slow =
     (let jmp_sz = (if slow_body \<le> 127 then 2 else 5);
          jb_target = 5 + 2 + fast_body + jmp_sz;
          ja_target = fast_body + jmp_sz;
          hi = fst sram + snd sram - of_nat (cnt * 4)
      in if jb_target > 127 \<or> ja_target > 127 then slow
         else cmp_eax_imm32 (fst sram) @ jcc_rel8 0x72 (of_nat jb_target) @
              cmp_eax_imm32 hi @ jcc_rel8 0x77 (of_nat ja_target) @ fast @
              (if slow_body \<le> 127 then jmp_short (of_nat slow_body) else 0xE9 # emit_w32 (of_nat slow_body)) @ slow)"

definition emit_push_v :: "x86_host \<Rightarrow> (u32 \<times> u32) option \<Rightarrow> u16 \<Rightarrow> u8 list" where
  "emit_push_v h sram l =
     (let ks = regs_in l 15; cnt = length ks;
          slow = slots (\<lambda>k. slow_store h (ld_eax 13) (mov_r9d_reg (if k = 14 then 14 else of_nat k))) 0 ks
      in if cnt = 0 then []
         else ld_eax 13 @ sub_imm (of_nat (cnt * 4)) @ st_eax 13 @
              (case sram of
                 None \<Rightarrow> slow
               | Some sr \<Rightarrow> guarded sr cnt (23 + cnt * 14) (cnt * 58)
                   (fast_setup h (fst sr) @
                    slots (\<lambda>k off. ld_ecx (if k = 14 then 14 else of_nat k) @ mov_r11_off_ecx off) 0 ks) slow))"

definition emit_pop :: "x86_host \<Rightarrow> (u32 \<times> u32) option \<Rightarrow> u16 \<Rightarrow> u8 list" where
  "emit_pop h sram l =
     (let ks = regs_in l 16; cnt = length ks; has_pc = bit l 15;
          sp_update = ld_eax 13 @ add_imm (of_nat (cnt * 4)) @ st_eax 13;
          slow = slots (slow_load h (ld_eax 13)) 0 ks @ sp_update @ (if has_pc then commit_pc else [])
      in if cnt = 0 then []
         else ld_eax 13 @
              (case sram of
                 None \<Rightarrow> slow
               | Some sr \<Rightarrow> guarded sr cnt
                   (23 + cnt * 14 + 19 + (if has_pc then 6 + 2 + 6 + 7 + 2 + 3 else 0))
                   (sum_list (map (\<lambda>k. 7 + (if k = 15 then 56 else 60)) ks) + (7 + 5 + 7) +
                     (if has_pc then 7 + 2 + 7 + 7 + 2 + 3 else 0))
                   (fast_setup h (fst sr) @
                    slots (\<lambda>k off. mov_ecx_r11_off off @ (if k = 15 then fast_load_pc else st_ecx (of_nat k))) 0 ks @
                    sp_update) slow))"

definition emit_ldm_stm :: "x86_host \<Rightarrow> (u32 \<times> u32) option \<Rightarrow> u8 \<Rightarrow> u16 \<Rightarrow> bool \<Rightarrow> bool \<Rightarrow> bool \<Rightarrow> u32 \<Rightarrow> u8 list" where
  "emit_ldm_stm h sram rn l is_load is_db writeback insn_pc =
     (let ks = regs_in l 16; cnt = length ks; has_pc = is_load \<and> bit l 15;
          start = ld_eax rn @ (if is_db then sub_imm (of_nat (cnt * 4)) else []);
          wb = (if writeback then
                  ld_eax rn @ (if is_db then sub_imm (of_nat (cnt * 4)) else add_imm (of_nat (cnt * 4))) @ st_eax rn
                else []);
          slow = slots (\<lambda>k off. if is_load then slow_load h start k off
                   else slow_store h start (if k = 15 then [0x41, 0xB9] @ emit_w32 (insn_pc + 4) else mov_r9d_reg (of_nat k)) off) 0 ks @
                 wb @ (if has_pc then commit_pc else []);
          fast_of = (\<lambda>k off.
                   if is_load then mov_ecx_r11_off off @ (if k = 15 then fast_load_pc else st_ecx (of_nat k))
                   else if k = 15 then mov_eax_imm (insn_pc + 4) @ [0x41, 0x89, 0x83] @ emit_w32 off @ start
                   else ld_ecx (of_nat k) @ mov_r11_off_ecx off);
          fast_len = (\<lambda>k. if is_load then (if k = 15 then 14 + (6 + 2 + 6 + 7 + 2 + 3 - 7) else 14)
                   else if k = 15 then 5 + 7 + 7 + 5 - (if is_db then 0 else 5) else 14);
          slow_len = (\<lambda>k. 7 + (if is_db then 5 else 0) +
                   (if is_load then (if k = 15 then 56 else 60) else (if k = 15 then 50 else 51)))
      in if cnt = 0 then []
         else start @
              (case sram of
                 None \<Rightarrow> slow
               | Some sr \<Rightarrow> guarded sr cnt
                   (23 + sum_list (map fast_len ks) + (if writeback then 7 + 5 + 7 else 0))
                   (sum_list (map slow_len ks) + (if writeback then 7 + 5 + 7 else 0) +
                     (if has_pc then 7 + 2 + 7 + 7 + 2 + 3 else 0))
                   (fast_setup h (fst sr) @ slots fast_of 0 ks @ wb) slow))"

section \<open>Conditional branches\<close>

definition ld_al_apsr_byte3 :: "u8 list" where "ld_al_apsr_byte3 = [0x41, 0x8A, 0x87] @ emit_w32 (CG_APSR_OFF + 3)"
definition shr_al :: "u8 \<Rightarrow> u8 list" where "shr_al n = [0xC0, 0xE8, n]"
definition test_al_imm8 :: "u8 \<Rightarrow> u8 list" where "test_al_imm8 m = [0xA8, m]"
definition and_al_imm8 :: "u8 \<Rightarrow> u8 list" where "and_al_imm8 m = [0x24, m]"
definition cmp_al_imm8 :: "u8 \<Rightarrow> u8 list" where "cmp_al_imm8 m = [0x3C, m]"
definition mov_ah_al :: "u8 list" where "mov_ah_al = [0x88, 0xC4]"
definition shr_ah :: "u8 \<Rightarrow> u8 list" where "shr_ah n = [0xC0, 0xEC, n]"
definition xor_al_ah :: "u8 list" where "xor_al_ah = [0x30, 0xE0]"
definition emit_jcc_rel32 :: "u8 \<Rightarrow> u32 \<Rightarrow> u8 list" where "emit_jcc_rel32 jc rel = [0x0F, jc] @ emit_w32 rel"

text \<open>The test of the switch and the jump that follows it; \<open>None\<close> is its default.\<close>

definition cond_test :: "u8 \<Rightarrow> (u8 list \<times> u8) option" where
  "cond_test c =
     (let nv = mov_ah_al @ shr_ah 3 @ xor_al_ah
      in if c = 0x0 then Some (test_al_imm8 0x40, 0x85)
         else if c = 0x1 then Some (test_al_imm8 0x40, 0x84)
         else if c = 0x2 then Some (test_al_imm8 0x20, 0x85)
         else if c = 0x3 then Some (test_al_imm8 0x20, 0x84)
         else if c = 0x4 then Some (test_al_imm8 0x80, 0x85)
         else if c = 0x5 then Some (test_al_imm8 0x80, 0x84)
         else if c = 0x6 then Some (test_al_imm8 0x10, 0x85)
         else if c = 0x7 then Some (test_al_imm8 0x10, 0x84)
         else if c = 0x8 then Some (and_al_imm8 0x06 @ cmp_al_imm8 0x02, 0x84)
         else if c = 0x9 then Some (and_al_imm8 0x06 @ cmp_al_imm8 0x02, 0x85)
         else if c = 0xA then Some (nv @ test_al_imm8 0x01, 0x84)
         else if c = 0xB then Some (nv @ test_al_imm8 0x01, 0x85)
         else if c = 0xC then Some (nv @ test_al_imm8 0x05, 0x84)
         else if c = 0xD then Some (nv @ test_al_imm8 0x05, 0x85)
         else None)"

definition emit_b_cond_fast :: "insn_t \<Rightarrow> u8 list" where
  "emit_b_cond_fast i =
     (let tgt = ipc i + 4 + iimm i; fal = ipc i + to32 (isize i)
      in if icond i = 0xE then st_pc tgt
         else if icond i = 0xF then st_pc fal
         else ld_al_apsr_byte3 @ (if icond i \<ge> 0x8 then shr_al 4 else []) @
              (case cond_test (icond i) of
                 None \<Rightarrow> []
               | Some (test, jcc_op) \<Rightarrow> test @ emit_jcc_rel32 jcc_op 13 @ st_pc fal @ jmp_short 11 @ st_pc tgt))"

section \<open>The switch over the opcodes\<close>

definition emit_alu :: "insn_t \<Rightarrow> u8 list option" where
  "emit_alu i =
     (let op = iop i; n = ld_eax (irn i); nm = ld_eax (irn i) @ ld_ecx (irm i); st = st_eax (ird i); imm = iimm i;
          test = [0x85, 0xC0]; f_if = (\<lambda>code. if iset_flags i then code else [])
      in if op = OP_NOP \<or> op = OP_T32_NOP then Some []
         else if op = OP_MOV_IMM then Some (mov_eax_imm imm @ test @ emit_flags_nz @ st)
         else if op = OP_T32_MOV_IMM then Some (mov_eax_imm imm @ f_if (test @ emit_flags_nz) @ st)
         else if op = OP_T32_MOVW then Some (mov_eax_imm imm @ st)
         else if op = OP_MOV_REG then Some (ld_eax (irm i) @ f_if (test @ emit_flags_nz) @ st)
         else if op = OP_ADD_REG then Some (nm @ op_add_ec @ emit_flags_nzcv False @ st)
         else if op = OP_SUB_REG then Some (nm @ op_sub_ec @ emit_flags_nzcv True @ st)
         else if op = OP_ADD_IMM3 \<or> op = OP_ADD_IMM8 then Some (n @ add_imm imm @ emit_flags_nzcv False @ st)
         else if op = OP_SUB_IMM3 \<or> op = OP_SUB_IMM8 then Some (n @ sub_imm imm @ emit_flags_nzcv True @ st)
         else if op = OP_T32_ADD_IMM then Some (n @ add_imm imm @ f_if (emit_flags_nzcv False) @ st)
         else if op = OP_T32_ADDW then Some (n @ add_imm imm @ st)
         else if op = OP_T32_SUB_IMM then Some (n @ sub_imm imm @ f_if (emit_flags_nzcv True) @ st)
         else if op = OP_T32_SUBW then Some (n @ sub_imm imm @ st)
         else if op = OP_AND_REG then Some (nm @ op_and_ec @ emit_flags_nz @ st)
         else if op = OP_T32_AND_IMM then Some (n @ 0x25 # emit_w32 imm @ f_if emit_flags_nz @ st)
         else if op = OP_ORR_REG then Some (nm @ op_or_ec @ emit_flags_nz @ st)
         else if op = OP_T32_ORR_IMM then Some (n @ 0x0D # emit_w32 imm @ f_if emit_flags_nz @ st)
         else if op = OP_EOR_REG then Some (nm @ op_xor_ec @ emit_flags_nz @ st)
         else if op = OP_T32_EOR_IMM then Some (n @ 0x35 # emit_w32 imm @ f_if emit_flags_nz @ st)
         else if op = OP_CMP_IMM \<or> op = OP_T32_CMP_IMM then Some (n @ sub_imm imm @ emit_flags_nzcv True)
         else if op = OP_CMP_REG \<or> op = OP_CMP_REG_T2 \<or> op = OP_T32_CMP_REG then Some (nm @ op_sub_ec @ emit_flags_nzcv True)
         else if op = OP_CMN_REG \<or> op = OP_T32_CMN_REG then Some (nm @ op_add_ec @ emit_flags_nzcv False)
         else if op = OP_T32_CMN_IMM then Some (n @ add_imm imm @ emit_flags_nzcv False)
         else if op = OP_TST_REG then Some (nm @ op_and_ec @ emit_flags_nz)
         else None)"

definition emit_mem :: "x86_host \<Rightarrow> insn_t \<Rightarrow> u8 list option" where
  "emit_mem h i =
     (let op = iop i; rd = ird i; rn = irn i; imm = iimm i;
          addr = ld_eax rn @ ld_ecx (irm i) @ op_add_ec
      in if op = OP_LDR_IMM \<or> op = OP_T32_LDR_IMM then Some (emit_load h rd rn imm 4)
         else if op = OP_LDRB_IMM \<or> op = OP_T32_LDRB_IMM then Some (emit_load h rd rn imm 1)
         else if op = OP_LDRH_IMM \<or> op = OP_T32_LDRH_IMM then Some (emit_load h rd rn imm 2)
         else if op = OP_STR_IMM \<or> op = OP_T32_STR_IMM then Some (emit_store h rd rn imm 4)
         else if op = OP_STRB_IMM \<or> op = OP_T32_STRB_IMM then Some (emit_store h rd rn imm 1)
         else if op = OP_STRH_IMM \<or> op = OP_T32_STRH_IMM then Some (emit_store h rd rn imm 2)
         else if op = OP_LDR_SP then Some (emit_load h rd 13 imm 4)
         else if op = OP_STR_SP then Some (emit_store h rd 13 imm 4)
         else if op = OP_LDR_LIT \<or> op = OP_T32_LDR_LIT then
           Some (mov_eax_imm (((ipc i + 4) AND NOT 3) + imm) @ emit_load_from_eax h rd 4)
         else if op = OP_LDR_REG \<or> op = OP_T32_LDR_REG then Some (addr @ emit_load_from_eax h rd 4)
         else if op = OP_STR_REG \<or> op = OP_T32_STR_REG then
           Some (addr @ sub_rsp_16 @ mov_rcx_r14 @ mov_edx_eax @ mov_r8d_imm 4 @ mov_r9d_reg rd @
             mov_rax_imm64 (at_bus_write h) @ call_rax @ add_rsp_16 @ test_al_jnz 3 @ or_bl_1)
         else if op = OP_T32_LDRD_IMM then Some (emit_load h rd rn imm 4 @ emit_load h (irs i) rn (imm + 4) 4)
         else if op = OP_T32_STRD_IMM then Some (emit_store h rd rn imm 4 @ emit_store h (irs i) rn (imm + 4) 4)
         else None)"

definition emit_op :: "x86_host \<Rightarrow> (u32 \<times> u32) option \<Rightarrow> insn_t \<Rightarrow> u8 list" where
  "emit_op h sram i =
     (case emit_alu i of
        Some bs \<Rightarrow> bs
      | None \<Rightarrow> (case emit_mem h i of
          Some bs \<Rightarrow> bs
        | None \<Rightarrow>
            (let op = iop i; l = to16 (ireg_list i)
             in if op = OP_PUSH then emit_push_v h sram l
                else if op = OP_POP then emit_pop h sram l
                else if op = OP_T32_LDM \<or> op = OP_T32_STM then
                  emit_ldm_stm h sram (irn i) l (op = OP_T32_LDM) (\<not> iadd i) (iwriteback i) (ipc i)
                else if op = OP_B_UNCOND then emit_b_uncond i
                else if op = OP_B_COND \<or> op = OP_T32_B_COND then emit_b_cond_fast i
                else if op = OP_T32_BL then emit_t32_bl i
                else [])))"

section \<open>Blocks\<close>

definition codegen_supports :: "opcode_t \<Rightarrow> bool" where
  "codegen_supports op \<longleftrightarrow> op \<in> set
     [OP_MOV_IMM, OP_MOV_REG, OP_ADD_REG, OP_SUB_REG, OP_ADD_IMM3, OP_ADD_IMM8,
      OP_SUB_IMM3, OP_SUB_IMM8, OP_AND_REG, OP_ORR_REG, OP_EOR_REG, OP_NOP, OP_T32_NOP,
      OP_T32_MOV_IMM, OP_T32_ADD_IMM, OP_T32_SUB_IMM, OP_T32_AND_IMM, OP_T32_ORR_IMM,
      OP_T32_EOR_IMM, OP_T32_ADDW, OP_T32_SUBW, OP_T32_MOVW,
      OP_CMP_IMM, OP_CMP_REG, OP_CMP_REG_T2, OP_CMN_REG, OP_TST_REG,
      OP_T32_CMP_IMM, OP_T32_CMP_REG, OP_T32_CMN_IMM, OP_T32_CMN_REG,
      OP_LDR_IMM, OP_STR_IMM, OP_LDRB_IMM, OP_STRB_IMM, OP_LDRH_IMM, OP_STRH_IMM,
      OP_LDR_SP, OP_STR_SP, OP_LDR_LIT, OP_LDR_REG, OP_STR_REG,
      OP_T32_LDR_IMM, OP_T32_STR_IMM, OP_T32_LDRB_IMM, OP_T32_STRB_IMM,
      OP_T32_LDRH_IMM, OP_T32_STRH_IMM, OP_T32_LDR_LIT, OP_T32_LDR_REG, OP_T32_STR_REG,
      OP_T32_LDRD_IMM, OP_T32_STRD_IMM, OP_PUSH, OP_POP, OP_T32_LDM, OP_T32_STM,
      OP_B_COND, OP_T32_B_COND, OP_B_UNCOND, OP_T32_BL]"

definition insn_native_ok :: "insn_t \<Rightarrow> bool" where
  "insn_native_ok i \<longleftrightarrow>
     (if iop i \<in> set [OP_T32_LDR_IMM, OP_T32_STR_IMM, OP_T32_LDRB_IMM, OP_T32_STRB_IMM,
                      OP_T32_LDRH_IMM, OP_T32_STRH_IMM, OP_T32_LDRD_IMM, OP_T32_STRD_IMM]
      then iadd i \<and> iindex i \<and> \<not> iwriteback i
      else if iop i = OP_POP \<or> iop i = OP_T32_LDM then \<not> bit (ireg_list i) 15
      else True)"

text \<open>\<open>flat_sram\<close> is \<^verbatim>\<open>bus_find_flat(b, 0x20000000u)\<close>, of which base and size go into the code.\<close>

definition flat_sram :: "machine \<Rightarrow> (u32 \<times> u32) option" where
  "flat_sram m = map_option (\<lambda>k. (base (regions m ! k), rsize (regions m ! k))) (bus_find_flat (regions m) SRAM_BASE)"

definition wrote_pc :: "insn_t list \<Rightarrow> bool" where
  "wrote_pc is \<longleftrightarrow> iop (last is) \<in> set [OP_B_COND, OP_T32_B_COND, OP_B_UNCOND, OP_T32_BL]"

definition thunk_code :: "x86_host \<Rightarrow> (u32 \<times> u32) option \<Rightarrow> insn_t list \<Rightarrow> u8 list" where
  "thunk_code h sram is =
     emit_prologue @ emit_clear_fail @ concat (map (emit_op h sram) is) @
     (if wrote_pc is then [] else st_pc (ipc (last is) + to32 (isize (last is)))) @ emit_epilogue_check"

text \<open>The result is the code from \<^verbatim>\<open>start\<close> on, as far as the buffer holds it, or \<open>None\<close> for \<^verbatim>\<open>NULL\<close>.\<close>

definition codegen_emit :: "x86_host \<Rightarrow> codegen_t \<Rightarrow> machine \<Rightarrow> insn_t list \<Rightarrow> u8 list option \<times> codegen_t" where
  "codegen_emit h g m is =
     (let used = length (buffer g)
      in if \<not> list_all (\<lambda>i. codegen_supports (iop i)) is then (None, g)
         else if \<not> list_all insn_native_ok is then (None, g)
         else if used + length is * 160 + 64 > capacity g then (None, g)
         else (let g' = foldl emit_b g (thunk_code h (flat_sram m) is)
               in (Some (drop used (buffer g')), g')))"

lemma emit_bytes: "length (buffer g) \<le> capacity g \<Longrightarrow>
  foldl emit_b g bs = g\<lparr>buffer := buffer g @ take (capacity g - length (buffer g)) bs\<rparr>"
proof (induction bs arbitrary: g)
  case (Cons b bs)
  show ?case
  proof (cases "length (buffer g) < capacity g")
    case True
    then have "capacity g - length (buffer g) = Suc (capacity g - Suc (length (buffer g)))" by simp
    then show ?thesis using True Cons.IH [of "emit_b g b"] by (simp add: emit_b_def)
  next
    case False
    then show ?thesis using Cons by (simp add: emit_b_def)
  qed
qed simp

end
