(* ===== verification/Jit.thy ===== *)
theory Jit
  imports Executor Decoder Codegen
begin

text \<open>
  The block cache of \<^verbatim>\<open>src/core/jit.c\<close>: hit counters, compilation of basic blocks, the
  execution of a block and the chained dispatch.  A compiled block holds the bytes that
  \<open>codegen_emit\<close> gave; calling them is \<open>x86_call\<close>.
\<close>

section \<open>State\<close>

record jit_block_t =
  pc_start :: u32
  pc_end :: u32
  ins :: "insn_t list"
  native :: "u8 list option"

record jit_t =
  blocks :: "nat \<Rightarrow> jit_block_t"
  n_blocks :: nat
  lookup_pc :: "u32 \<Rightarrow> u32"
  lookup_idx :: "u32 \<Rightarrow> int"
  lookup_n :: int
  jit_steps :: u64
  native_steps :: u64
  interp_steps :: u64
  counters :: "u32 \<Rightarrow> u32"
  cg :: codegen_t

abbreviation (input) JIT_MAX_BLOCKS :: nat where "JIT_MAX_BLOCKS \<equiv> 1024"
abbreviation (input) JIT_MAX_BLOCK_LEN :: nat where "JIT_MAX_BLOCK_LEN \<equiv> 32"
abbreviation (input) JIT_HOT_THRESHOLD :: u32 where "JIT_HOT_THRESHOLD \<equiv> 16"

definition empty_block :: jit_block_t where
  "empty_block = \<lparr>pc_start = 0, pc_end = 0, ins = [], native = None\<rparr>"

definition jit_init :: jit_t where
  "jit_init = \<lparr>blocks = (\<lambda>_. empty_block), n_blocks = 0, lookup_pc = (\<lambda>_. 0), lookup_idx = (\<lambda>_. -1),
     lookup_n = 0, jit_steps = 0, native_steps = 0, interp_steps = 0, counters = (\<lambda>_. 0), cg = codegen_init\<rparr>"

definition jit_flush :: "jit_t \<Rightarrow> jit_t" where
  "jit_flush g = g\<lparr>n_blocks := 0, lookup_n := 0, jit_steps := 0, native_steps := 0, interp_steps := 0,
     cg := (cg g)\<lparr>buffer := []\<rparr>, lookup_idx := (\<lambda>_. -1), lookup_pc := (\<lambda>_. 0), counters := (\<lambda>_. 0)\<rparr>"

definition jit_reset_counters :: "jit_t \<Rightarrow> jit_t" where
  "jit_reset_counters g = g\<lparr>counters := (\<lambda>_. 0)\<rparr>"

section \<open>The direct-mapped table\<close>

definition jit_hash :: "u32 \<Rightarrow> u32" where
  "jit_hash pc = fld pc 1 1023"

definition lookup :: "jit_t \<Rightarrow> u32 \<Rightarrow> int" where
  "lookup j pc =
     (let h = jit_hash pc
      in if lookup_idx j h \<ge> 0 \<and> lookup_pc j h = pc then lookup_idx j h else -1)"

definition install :: "jit_t \<Rightarrow> u32 \<Rightarrow> int \<Rightarrow> jit_t" where
  "install j pc idx =
     (let h = jit_hash pc
      in j\<lparr>lookup_pc := (lookup_pc j)(h := pc), lookup_idx := (lookup_idx j)(h := idx)\<rparr>)"

section \<open>Compilation\<close>

definition is_terminator :: "opcode_t \<Rightarrow> bool" where
  "is_terminator op \<longleftrightarrow>
     op = OP_B_COND \<or> op = OP_B_UNCOND \<or> op = OP_BX \<or> op = OP_BLX_REG \<or>
     op = OP_T32_BL \<or> op = OP_T32_B_COND \<or> op = OP_CBZ \<or> op = OP_CBNZ \<or>
     op = OP_POP \<or> op = OP_T32_LDM \<or> op = OP_UDF \<or> op = OP_SVC \<or> op = OP_BKPT \<or>
     op = OP_T32_TBB \<or> op = OP_T32_TBH"

text \<open>The decode loop; \<open>n\<close> is the room left in the block.\<close>

fun compile_loop :: "nat \<Rightarrow> machine \<Rightarrow> u32 \<Rightarrow> insn_t \<Rightarrow> insn_t list \<times> u32 \<times> machine" where
  "compile_loop 0 m cur i0 = ([], cur, m)"
| "compile_loop (Suc n) m cur i0 =
     (let (_, i, m) = decode m cur i0;
          i = i\<lparr>ipc := cur\<rparr>;
          cur = cur + to32 (isize i)
      in if is_terminator (iop i) then ([i], cur, m)
         else let (is, e, m) = compile_loop n m cur i0 in (i # is, e, m))"

definition compile_block :: "x86_host \<Rightarrow> jit_t \<Rightarrow> machine \<Rightarrow> u32 \<Rightarrow> insn_t \<Rightarrow> nat \<times> jit_t \<times> machine" where
  "compile_block h j m pc i0 =
     (let j = (if n_blocks j \<ge> JIT_MAX_BLOCKS then jit_flush j else j);
          k = n_blocks j;
          (is, e, m) = compile_loop JIT_MAX_BLOCK_LEN m pc i0;
          (code, g) = codegen_emit h (cg j) m is;
          j = j\<lparr>blocks := (blocks j)(k := \<lparr>pc_start = pc, pc_end = e, ins = is, native = code\<rparr>), cg := g\<rparr>;
          j = install j pc (int k)
      in (k, j\<lparr>n_blocks := k + 1\<rparr>, m))"

section \<open>Execution\<close>

text \<open>The loop over the pre-decoded instructions; the number is \<^verbatim>\<open>steps\<close>.\<close>

fun interp_block :: "insn_t list \<Rightarrow> machine \<Rightarrow> (nat \<times> machine) option" where
  "interp_block [] m = Some (0, m)"
| "interp_block (i # is) m =
     (if halted (cpu m) then Some (0, m)
      else do { (ok, m1) \<leftarrow> execute (set_reg m REG_PC (ipc i)) i;
                if \<not> ok then Some (0, m1)
                else if is_terminator (iop i) then Some (1, m1)
                else do { (k, m2) \<leftarrow> interp_block is m1; Some (Suc k, m2) } })"

definition run_block :: "x86_host \<Rightarrow> jit_t \<Rightarrow> jit_block_t \<Rightarrow> machine \<Rightarrow> (nat \<times> jit_t \<times> machine) option" where
  "run_block h j bk m =
     do { (steps, j, m) \<leftarrow>
            (case native bk of
               Some code \<Rightarrow>
                 do { (ok, m1) \<leftarrow> x86_call h code m;
                      if ok then (let k = length (ins bk) in
                        Some (k, j\<lparr>native_steps := native_steps j + of_nat k\<rparr>, m1))
                      else Some (0, j, m1) }
             | None \<Rightarrow> Some (0, j, m));
          (steps, m) \<leftarrow> (if steps = 0 then interp_block (ins bk) m else Some (steps, m));
          Some (steps, j\<lparr>jit_steps := jit_steps j + of_nat steps\<rparr>, m) }"

text \<open>
  \<open>jit_run\<close> returns \<^verbatim>\<open>*out_steps\<close>; the C result is whether it is positive.
\<close>

definition jit_run :: "x86_host \<Rightarrow> insn_t \<Rightarrow> jit_t \<Rightarrow> machine \<Rightarrow> (nat \<times> jit_t \<times> machine) option" where
  "jit_run h i0 j m =
     (let pc = reg m REG_PC; idx = lookup j pc
      in if idx < 0 then
           (let hs = jit_hash pc;
                j = (if lookup_idx j hs < 0 \<or> lookup_pc j hs \<noteq> pc
                     then j\<lparr>lookup_pc := (lookup_pc j)(hs := pc), lookup_idx := (lookup_idx j)(hs := -2)\<rparr>
                     else j);
                j = j\<lparr>counters := (counters j)(hs := counters j hs + 1)\<rparr>
            in if counters j hs < JIT_HOT_THRESHOLD then Some (0, j, m)
               else let (k, j, m) = compile_block h j m pc i0 in run_block h j (blocks j k) m)
         else run_block h j (blocks j (nat idx)) m)"

text \<open>
  \<open>stop\<close> is \<^verbatim>\<open>stop && *stop\<close> read between blocks; \<open>rem\<close> is \<^verbatim>\<open>max_steps - total\<close>.
\<close>

function jit_run_chained :: "x86_host \<Rightarrow> insn_t \<Rightarrow> jit_t \<Rightarrow> machine \<Rightarrow> nat \<Rightarrow> (machine \<Rightarrow> bool)
    \<Rightarrow> (nat \<times> jit_t \<times> machine) option" where
  "jit_run_chained h i0 j m rem stop =
     (if halted (cpu m) \<or> rem = 0 then Some (0, j, m)
      else if rem < JIT_MAX_BLOCK_LEN then Some (0, j, m)
      else if stop m then Some (0, j, m)
      else case jit_run h i0 j m of
        None \<Rightarrow> None
      | Some (steps, j1, m1) \<Rightarrow>
          if steps = 0 then Some (0, j1, m1)
          else case jit_run_chained h i0 j1 m1 (rem - steps) stop of
            None \<Rightarrow> None
          | Some (tot, j2, m2) \<Rightarrow> Some (steps + tot, j2, m2))"
  by pat_completeness auto
termination
  by (relation "measure (\<lambda>(h, i0, j, m, rem, stop). rem)") auto

declare jit_run_chained.simps [simp del]

end
