(* ===== verification/Run.thy ===== *)
theory Run
  imports Jit
begin

text \<open>
  The run loop of \<^verbatim>\<open>src/core/run.c\<close>: decode cache, budget of the chained dispatch, one
  iteration with its interrupt check, and the loop.
\<close>

section \<open>State\<close>

record dcache_e =
  dtag :: u32
  dins :: insn_t
  dvalid :: bool

text \<open>
  What an iteration reads and changes.  The context \<open>run_ctx_t\<close> of the C holds pointers that
  may be NULL; the booleans say which of them point at this machine's devices.
  \<open>stack_insn\<close> is what the uninitialised \<^verbatim>\<open>insn_t ins\<close> on the C stack holds.
\<close>

record run_ctx_t =
  with_st :: bool
  with_scb :: bool
  with_dwt :: bool
  with_nvic :: bool
  host :: x86_host
  stack_insn :: insn_t

record run_t =
  mach :: machine
  jit :: "jit_t option"
  dcache :: "u32 \<Rightarrow> dcache_e"

section \<open>Decode cache\<close>

definition dcache_invalidate :: "insn_t \<Rightarrow> u32 \<Rightarrow> dcache_e" where
  "dcache_invalidate i0 = (\<lambda>_. \<lparr>dtag = 0, dins = i0, dvalid = False\<rparr>)"

definition dcache_idx :: "addr_t \<Rightarrow> u32" where
  "dcache_idx pc = fld pc 1 4095"

definition cache_decode :: "(u32 \<Rightarrow> dcache_e) \<Rightarrow> machine \<Rightarrow> addr_t \<Rightarrow> insn_t
    \<Rightarrow> insn_t \<times> (u32 \<Rightarrow> dcache_e) \<times> machine" where
  "cache_decode d m pc i0 =
     (let e = d (dcache_idx pc)
      in if dvalid e \<and> dtag e = pc then (dins e, d, m)
         else let (_, i, m) = decode m pc i0
              in (i, d(dcache_idx pc := \<lparr>dtag = pc, dins = i, dvalid = True\<rparr>), m))"

section \<open>Budget\<close>

definition irq_safe_budget :: "systick_t option \<Rightarrow> scb_t option \<Rightarrow> u64 \<Rightarrow> u64" where
  "irq_safe_budget st scb remaining =
     (let cap = remaining;
          cap = (case scb of
                   Some s \<Rightarrow> if pendsv_pending s
                             then (let psv_cap = of_nat JIT_MAX_BLOCK_LEN
                                   in if psv_cap < cap then psv_cap else cap)
                             else cap
                 | None \<Rightarrow> cap)
      in case st of
           None \<Rightarrow> cap
         | Some t \<Rightarrow>
             if csr t AND 1 = 0 then cap
             else if csr t AND 2 = 0 then cap
             else (let cv = (if cvr t \<noteq> 0 then cvr t else rvr t)
                   in if cv = 0 then cap
                      else let stk_cap = to64 cv in if stk_cap < cap then stk_cap else cap))"

section \<open>Interrupts between instructions\<close>

definition enter_ignored :: "machine \<Rightarrow> u8 \<Rightarrow> machine option" where
  "enter_ignored m exc = map_option snd (exc_enter m exc)"

definition check_irqs :: "run_ctx_t \<Rightarrow> machine \<Rightarrow> machine option" where
  "check_irqs ctx m =
     (if mode (cpu m) = MODE_THREAD \<and> primask (cpu m) AND 1 = 0 \<and> basepri (cpu m) = 0 then
        (if with_st ctx \<and> irq_pending (d_st m) then
           enter_ignored (m\<lparr>d_st := (d_st m)\<lparr>irq_pending := False\<rparr>\<rparr>) EXC_SYSTICK
         else if with_scb ctx \<and> pendsv_pending (d_scb m) then
           enter_ignored (m\<lparr>d_scb := (d_scb m)\<lparr>pendsv_pending := False\<rparr>\<rparr>) EXC_PENDSV
         else if with_nvic ctx then
           do { pick \<leftarrow> nvic_pick (d_nvic m);
                case pick of
                  Some irq \<Rightarrow>
                    (let m = m\<lparr>d_nvic := nvic_clear_pending (d_nvic m) irq\<rparr>;
                         m = m\<lparr>d_nvic := nvic_set_active (d_nvic m) irq\<rparr>
                     in enter_ignored m (to8 (EXC_IRQ0 + irq)))
                | None \<Rightarrow> Some m }
         else Some m)
      else Some m)"

section \<open>The loop\<close>

text \<open>
  One iteration either leaves the loop (\<open>Stop\<close>: \<^verbatim>\<open>execute\<close> returned false) or comes to its
  end after \<^verbatim>\<open>i += extra\<close> (\<open>Went extra\<close>).
\<close>

datatype iter = Stop run_t | Went nat run_t

definition chain_budget :: "run_ctx_t \<Rightarrow> machine \<Rightarrow> nat \<Rightarrow> nat" where
  "chain_budget ctx m left =
     unat (irq_safe_budget (if with_st ctx then Some (d_st m) else None)
                           (if with_scb ctx then Some (d_scb m) else None) (of_nat left))"

definition stop_flag :: "run_ctx_t \<Rightarrow> machine \<Rightarrow> bool" where
  "stop_flag ctx m \<longleftrightarrow> with_scb ctx \<and> pendsv_pending (d_scb m)"

definition tick_batch :: "run_ctx_t \<Rightarrow> nat \<Rightarrow> machine \<Rightarrow> machine" where
  "tick_batch ctx k m =
     (let m = (if with_st ctx then m\<lparr>d_st := systick_tick (d_st m) (of_nat k)\<rparr> else m)
      in if with_dwt ctx then m\<lparr>d_dwt := dwt_batch (d_dwt m) (of_nat k)\<rparr> else m)"

definition tick_one :: "run_ctx_t \<Rightarrow> machine \<Rightarrow> machine" where
  "tick_one ctx m =
     (let m = (if with_st ctx then m\<lparr>d_st := systick_tick (d_st m) 1\<rparr> else m)
      in if with_dwt ctx then m\<lparr>d_dwt := dwt_tick (d_dwt m)\<rparr> else m)"

definition try_chain :: "run_ctx_t \<Rightarrow> run_t \<Rightarrow> nat \<Rightarrow> (nat \<times> run_t) option" where
  "try_chain ctx s left =
     (case jit s of
        None \<Rightarrow> Some (0, s)
      | Some g \<Rightarrow>
          do { (k, g1, m1) \<leftarrow> jit_run_chained (host ctx) (stack_insn ctx) g (mach s)
                                (chain_budget ctx (mach s) left) (stop_flag ctx);
               Some (k, s\<lparr>jit := Some g1, mach := m1\<rparr>) })"

definition step_one :: "run_ctx_t \<Rightarrow> run_t \<Rightarrow> iter option" where
  "step_one ctx s =
     (let (i, d, m) = cache_decode (dcache s) (mach s) (reg (mach s) REG_PC) (stack_insn ctx)
      in do { (ok, m1) \<leftarrow> execute m i;
              if \<not> ok then Some (Stop (s\<lparr>dcache := d, mach := m1\<rparr>))
              else do { m2 \<leftarrow> check_irqs ctx (tick_one ctx m1);
                        Some (Went 0 (s\<lparr>dcache := d, mach := m2\<rparr>)) } })"

definition run_iter :: "run_ctx_t \<Rightarrow> nat \<Rightarrow> run_t \<Rightarrow> iter option" where
  "run_iter ctx left s =
     do { (k, s1) \<leftarrow> try_chain ctx s left;
          if k > 0 then
            do { m2 \<leftarrow> check_irqs ctx (tick_batch ctx k (mach s1));
                 Some (Went (k - 1) (s1\<lparr>mach := m2\<rparr>)) }
          else step_one ctx s1 }"

text \<open>\<open>left\<close> is \<^verbatim>\<open>max_steps - i\<close>; the number returned is what the loop adds to \<^verbatim>\<open>i\<close>.\<close>

function run_loop :: "run_ctx_t \<Rightarrow> nat \<Rightarrow> run_t \<Rightarrow> (nat \<times> run_t) option" where
  "run_loop ctx left s =
     (if left = 0 \<or> halted (cpu (mach s)) then Some (0, s)
      else case run_iter ctx left s of
        None \<Rightarrow> None
      | Some (Stop s1) \<Rightarrow> Some (0, s1)
      | Some (Went extra s1) \<Rightarrow>
          (case run_loop ctx (left - Suc extra) s1 of
             None \<Rightarrow> None
           | Some (n, s2) \<Rightarrow> Some (Suc extra + n, s2)))"
  by pat_completeness auto
termination
  by (relation "measure (\<lambda>(ctx, left, s). left)") auto

declare run_loop.simps [simp del]

definition run_steps_full_gc :: "run_ctx_t \<Rightarrow> run_t \<Rightarrow> u64 \<Rightarrow> (u64 \<times> run_t) option" where
  "run_steps_full_gc ctx s max_steps =
     do { (n, s1) \<leftarrow> run_loop ctx (unat max_steps) (s\<lparr>dcache := dcache_invalidate (stack_insn ctx)\<rparr>);
          Some (of_nat n, s1) }"

text \<open>
  \<^verbatim>\<open>run_steps_full_g\<close> fills the context from its arguments and the legacy globals, of which
  the machine knows \<open>g_nvic_for_run\<close>; \<open>dwt_global\<close> is \<^verbatim>\<open>g_dwt_for_run != NULL\<close>.
\<close>

definition ctx_of_globals :: "run_ctx_t \<Rightarrow> bool \<Rightarrow> machine \<Rightarrow> run_ctx_t" where
  "ctx_of_globals ctx dwt_global m = ctx\<lparr>with_dwt := dwt_global, with_nvic := g_nvic_for_run m\<rparr>"

definition run_steps_full_g :: "run_ctx_t \<Rightarrow> bool \<Rightarrow> run_t \<Rightarrow> u64 \<Rightarrow> (u64 \<times> run_t) option" where
  "run_steps_full_g ctx dwt_global s max_steps =
     run_steps_full_gc (ctx_of_globals ctx dwt_global (mach s)) s max_steps"

end
