(* ===== verification/Tt.thy ===== *)
theory Tt
  imports Run
begin

text \<open>
  Time travel (\<^verbatim>\<open>src/core/tt.c\<close>) and the replaying run (\<^verbatim>\<open>run_until_cycle\<close> of
  \<^verbatim>\<open>src/core/run.c\<close>): event log, snapshots, the snapshot index, injection of events and
  rewinding.  Files and printing are left out.  The pointers of a \<^verbatim>\<open>tt_periph_t\<close> are those of
  the machine at hand.
\<close>

section \<open>Event log\<close>

datatype ev_type = EVENT_NONE | EVENT_UART_RX | EVENT_IRQ_INJECT | EVENT_ETH_RX

record ev_t =
  ev_cycle :: u64
  ev_kind :: ev_type
  payload :: u32

text \<open>\<open>buf\<close> holds the \<^verbatim>\<open>n\<close> used entries; \<open>lg_cap\<close> is the capacity of the allocation.\<close>

record ev_log_t =
  lg_buf :: "ev_t list"
  lg_cap :: nat
  lg_pos :: nat

abbreviation (input) TT_LOG_MAX :: nat where "TT_LOG_MAX \<equiv> 65536"
abbreviation (input) TT_ETH_MAX :: nat where "TT_ETH_MAX \<equiv> 256"
abbreviation (input) TT_ETH_MTU :: nat where "TT_ETH_MTU \<equiv> 1600"

text \<open>\<open>alloc n\<close> is whether the allocation of \<open>n\<close> entries succeeds.\<close>

definition ev_log_init :: "(nat \<Rightarrow> bool) \<Rightarrow> nat \<Rightarrow> ev_log_t" where
  "ev_log_init alloc cap = \<lparr>lg_buf = [], lg_cap = (if alloc cap then cap else 0), lg_pos = 0\<rparr>"

definition ev_log_append :: "(nat \<Rightarrow> bool) \<Rightarrow> ev_log_t \<Rightarrow> u64 \<Rightarrow> ev_type \<Rightarrow> u32 \<Rightarrow> bool \<times> ev_log_t" where
  "ev_log_append alloc lg cyc ty pl =
     (let e = \<lparr>ev_cycle = cyc, ev_kind = ty, payload = pl\<rparr>
      in if length (lg_buf lg) \<ge> lg_cap lg then
           (let nc = (if lg_cap lg \<noteq> 0 then lg_cap lg * 2 else 64);
                nc = (if nc > TT_LOG_MAX then TT_LOG_MAX else nc)
            in if nc \<le> lg_cap lg then (False, lg)
               else if \<not> alloc nc then (False, lg)
               else (True, lg\<lparr>lg_cap := nc, lg_buf := lg_buf lg @ [e]\<rparr>))
         else (True, lg\<lparr>lg_buf := lg_buf lg @ [e]\<rparr>))"

text \<open>The search of \<^verbatim>\<open>ev_log_seek\<close>.\<close>

function seek_loop :: "ev_t list \<Rightarrow> u64 \<Rightarrow> nat \<Rightarrow> nat \<Rightarrow> nat" where
  "seek_loop b target lo hi =
     (if lo < hi then
        (let mid = lo + (hi - lo) div 2
         in if ev_cycle (b ! mid) < target then seek_loop b target (mid + 1) hi
            else seek_loop b target lo mid)
      else lo)"
  by pat_completeness auto
termination by (relation "measure (\<lambda>(b, t, lo, hi). hi - lo)") auto

declare seek_loop.simps [simp del]

definition ev_log_seek :: "ev_log_t \<Rightarrow> u64 \<Rightarrow> nat" where
  "ev_log_seek lg cyc = seek_loop (lg_buf lg) cyc 0 (length (lg_buf lg))"

section \<open>Snapshots\<close>

text \<open>
  \<open>snap_xor32\<close> over the bytes of the blob.  The layout of the C struct in memory, its
  padding included, is the host's: \<open>bytes\<close>, a parameter of the functions that check it.
\<close>

definition le_word :: "u8 \<Rightarrow> u8 \<Rightarrow> u8 \<Rightarrow> u8 \<Rightarrow> u32" where
  "le_word a b c d = to32 a OR push_bit 8 (to32 b) OR push_bit 16 (to32 c) OR push_bit 24 (to32 d)"

fun snap_xor32 :: "u8 list \<Rightarrow> u32" where
  "snap_xor32 (a # b # c # d # xs) = le_word a b c d XOR snap_xor32 xs"
| "snap_xor32 [] = 0"
| "snap_xor32 [a] = to32 a"
| "snap_xor32 [a, b] = to32 a XOR push_bit 8 (to32 b)"
| "snap_xor32 [a, b, c] = to32 a XOR push_bit 8 (to32 b) XOR push_bit 16 (to32 c)"

record snap_blob_t =
  magic :: u32
  version :: u32
  sn_cycle :: u64
  sn_cpu :: cpu_t
  sn_st :: systick_t
  sn_nvic :: nvic_t
  sn_scb :: scb_t
  sn_mpu :: mpu_t
  sn_dwt :: dwt_t
  sn_stm32 :: stm32_t
  eth_state :: eth_t
  uart_state :: uart_t
  sram_size :: u32
  sram :: "u32 \<Rightarrow> u8"
  checksum :: u32

abbreviation (input) SNAP_MAGIC :: u32 where "SNAP_MAGIC \<equiv> 0x54544B30"
abbreviation (input) SNAP_VERSION :: u32 where "SNAP_VERSION \<equiv> 1"
abbreviation (input) SRAM_BASE_ADDR :: addr_t where "SRAM_BASE_ADDR \<equiv> 0x20000000"
abbreviation (input) SRAM_SIZE :: u32 where "SRAM_SIZE \<equiv> 0x40000"

text \<open>\<^verbatim>\<open>memcpy\<close> of the \<open>SRAM_SIZE\<close> bytes: only these come from the source.\<close>

definition copy_sram :: "(u32 \<Rightarrow> u8) \<Rightarrow> (u32 \<Rightarrow> u8) \<Rightarrow> u32 \<Rightarrow> u8" where
  "copy_sram dst src = (\<lambda>i. if i < SRAM_SIZE then src i else dst i)"

definition snap_save :: "(snap_blob_t \<Rightarrow> u8 list) \<Rightarrow> snap_blob_t \<Rightarrow> machine \<Rightarrow> bool \<times> snap_blob_t" where
  "snap_save bytes b m =
     (case bus_find_flat (regions m) SRAM_BASE_ADDR of
        None \<Rightarrow> (False, b)
      | Some k \<Rightarrow>
          (let sr = regions m ! k
           in if rsize sr < SRAM_SIZE then (False, b)
              else
                (let b = \<lparr>magic = SNAP_MAGIC, version = SNAP_VERSION, sn_cycle = cycles (cpu m),
                          sn_cpu = cpu m, sn_st = d_st m, sn_nvic = d_nvic m,
                          sn_scb = (d_scb m)\<lparr>scb_ctx := False\<rparr>, sn_mpu = d_mpu m, sn_dwt = d_dwt m,
                          sn_stm32 = d_stm32 m, eth_state = (d_eth m)\<lparr>eth_bus := False\<rparr>,
                          uart_state = (d_uart m)\<lparr>u_sink := SINK_NULL\<rparr>,
                          sram_size = SRAM_SIZE, sram = copy_sram (sram b) (buf sr), checksum = 0\<rparr>
                 in (True, b\<lparr>checksum := snap_xor32 (bytes b)\<rparr>))))"

text \<open>
  \<^verbatim>\<open>snap_restore\<close> flushes the block cache that \<^verbatim>\<open>g_jit_for_tt\<close> points at and the decode
  cache; \<open>jit_attached\<close> is whether that pointer is the run's block cache.  Unlike
  \<^verbatim>\<open>snap_save\<close> it copies the \<open>SRAM_SIZE\<close> bytes without asking for the size of the region: on a
  smaller one the copy runs past the end of the buffer, and the result is \<open>None\<close>.
\<close>

definition blob_valid :: "(snap_blob_t \<Rightarrow> u8 list) \<Rightarrow> snap_blob_t \<Rightarrow> bool" where
  "blob_valid bytes b \<longleftrightarrow> magic b = SNAP_MAGIC \<and> version b = SNAP_VERSION \<and> sram_size b = SRAM_SIZE \<and>
     snap_xor32 (bytes (b\<lparr>checksum := 0\<rparr>)) = checksum b"

definition restore_machine :: "snap_blob_t \<Rightarrow> machine \<Rightarrow> nat \<Rightarrow> machine" where
  "restore_machine b m k =
     m\<lparr>cpu := sn_cpu b, d_st := sn_st b, d_nvic := sn_nvic b,
       d_scb := (sn_scb b)\<lparr>scb_ctx := scb_ctx (d_scb m)\<rparr>, d_mpu := sn_mpu b, d_dwt := sn_dwt b,
       d_stm32 := sn_stm32 b, d_eth := (eth_state b)\<lparr>eth_bus := True\<rparr>,
       d_uart := (uart_state b)\<lparr>u_sink := u_sink (d_uart m)\<rparr>,
       regions := (regions m)[k := (regions m ! k)\<lparr>buf := copy_sram (buf (regions m ! k)) (sram b)\<rparr>]\<rparr>"

definition snap_restore :: "(snap_blob_t \<Rightarrow> u8 list) \<Rightarrow> bool \<Rightarrow> insn_t \<Rightarrow> snap_blob_t \<Rightarrow> run_t
    \<Rightarrow> (bool \<times> run_t) option" where
  "snap_restore bytes jit_attached i0 b s =
     (if \<not> blob_valid bytes b then Some (False, s)
      else case bus_find_flat (regions (mach s)) SRAM_BASE_ADDR of
        None \<Rightarrow> Some (False, s)
      | Some k \<Rightarrow>
          if rsize (regions (mach s) ! k) < SRAM_SIZE then None
          else Some (True, s\<lparr>mach := restore_machine b (mach s) k, dcache := dcache_invalidate i0,
                   jit := (if jit_attached then map_option jit_flush (jit s) else jit s)\<rparr>))"

section \<open>Recording\<close>

record eth_frame_t =
  fr_bytes :: "u8 list"

record snap_entry_t =
  se_cycle :: u64
  snap_idx :: nat

record tt_t =
  stride :: u32
  max_snaps :: nat
  snaps :: "snap_blob_t list"
  tt_idx :: "snap_entry_t list"
  tt_log :: ev_log_t
  frames :: "eth_frame_t list"

text \<open>
  \<open>snaps\<close> and \<open>tt_idx\<close> hold the \<^verbatim>\<open>n_snaps\<close> entries in use, \<open>frames\<close> the \<^verbatim>\<open>n_frames\<close> in use.
\<close>

definition tt_create :: "(nat \<Rightarrow> bool) \<Rightarrow> u32 \<Rightarrow> nat \<Rightarrow> tt_t option" where
  "tt_create alloc strd mx =
     (if strd = 0 \<or> mx = 0 then None
      else Some \<lparr>stride = strd, max_snaps = mx, snaps = [], tt_idx = [],
                 tt_log = ev_log_init alloc 16, frames = []\<rparr>)"

definition tt_record_irq :: "(nat \<Rightarrow> bool) \<Rightarrow> bool \<Rightarrow> tt_t option \<Rightarrow> u64 \<Rightarrow> u8 \<Rightarrow> tt_t option" where
  "tt_record_irq alloc replay tt cyc irq =
     (case tt of
        Some t \<Rightarrow> if replay then tt
          else Some (t\<lparr>tt_log := snd (ev_log_append alloc (tt_log t) cyc EVENT_IRQ_INJECT (to32 irq))\<rparr>)
      | None \<Rightarrow> None)"

definition tt_record_uart_rx :: "(nat \<Rightarrow> bool) \<Rightarrow> bool \<Rightarrow> tt_t option \<Rightarrow> u64 \<Rightarrow> u8 \<Rightarrow> tt_t option" where
  "tt_record_uart_rx alloc replay tt cyc b =
     (case tt of
        Some t \<Rightarrow> if replay then tt
          else Some (t\<lparr>tt_log := snd (ev_log_append alloc (tt_log t) cyc EVENT_UART_RX (to32 b))\<rparr>)
      | None \<Rightarrow> None)"

text \<open>The frame store is kept when the log takes the event, and given back when it is full.\<close>

definition tt_record_eth_rx :: "(nat \<Rightarrow> bool) \<Rightarrow> bool \<Rightarrow> tt_t option \<Rightarrow> u64 \<Rightarrow> u8 list \<Rightarrow> nat option \<times> tt_t option" where
  "tt_record_eth_rx alloc replay tt cyc fr =
     (case tt of
        None \<Rightarrow> (None, None)
      | Some t \<Rightarrow>
          if replay \<or> fr = [] then (None, tt)
          else if length (frames t) \<ge> TT_ETH_MAX then (None, tt)
          else
            (let cap = (if length fr < TT_ETH_MTU then length fr else TT_ETH_MTU);
                 n = length (frames t);
                 f = \<lparr>fr_bytes = take cap fr\<rparr>;
                 (ok, lg) = ev_log_append alloc (tt_log t) cyc EVENT_ETH_RX (of_nat n)
             in if ok then (Some n, Some (t\<lparr>frames := frames t @ [f], tt_log := lg\<rparr>))
                else (None, Some (t\<lparr>tt_log := lg\<rparr>))))"

definition tt_on_cycle :: "(snap_blob_t \<Rightarrow> u8 list) \<Rightarrow> bool \<Rightarrow> snap_blob_t \<Rightarrow> tt_t \<Rightarrow> machine \<Rightarrow> tt_t" where
  "tt_on_cycle bytes replay b0 tt m =
     (if replay then tt
      else
        (let nxt = (if snaps tt = [] then to64 (stride tt)
                    else se_cycle (last (tt_idx tt)) + to64 (stride tt))
         in if cycles (cpu m) < nxt then tt
            else if length (snaps tt) \<ge> max_snaps tt then tt
            else
              (let (ok, b) = snap_save bytes b0 m
               in if ok then tt\<lparr>snaps := snaps tt @ [b],
                     tt_idx := tt_idx tt @ [\<lparr>se_cycle = cycles (cpu m), snap_idx = length (snaps tt)\<rparr>]\<rparr>
                  else tt)))"

section \<open>The snapshot index\<close>

text \<open>\<open>lo\<close>, \<open>hi\<close> and \<open>best\<close> are C ints; -1 is none.\<close>

function bsearch_loop :: "snap_entry_t list \<Rightarrow> u64 \<Rightarrow> int \<Rightarrow> int \<Rightarrow> int \<Rightarrow> int" where
  "bsearch_loop a target lo hi best =
     (if lo \<le> hi then
        (let mid = lo + (hi - lo) div 2
         in if se_cycle (a ! nat mid) \<le> target then bsearch_loop a target (mid + 1) hi mid
            else bsearch_loop a target lo (mid - 1) best)
      else best)"
  by pat_completeness auto
termination by (relation "measure (\<lambda>(a, t, lo, hi, best). nat (hi + 1 - lo))") auto

declare bsearch_loop.simps [simp del]

definition tt_bsearch_le :: "snap_entry_t list \<Rightarrow> u64 \<Rightarrow> int" where
  "tt_bsearch_le a target = bsearch_loop a target 0 (int (length a) - 1) (-1)"

section \<open>Replay\<close>

text \<open>\<open>frs\<close> is the frame store of \<^verbatim>\<open>g_tt\<close>, \<open>None\<close> when that pointer is NULL.\<close>

definition tt_inject_event :: "eth_frame_t list option \<Rightarrow> machine \<Rightarrow> ev_t \<Rightarrow> machine option" where
  "tt_inject_event frs m e =
     (case ev_kind e of
        EVENT_UART_RX \<Rightarrow> Some (m\<lparr>d_uart := uart_inject_rx (d_uart m) (to8 (payload e AND 0xFF))\<rparr>)
      | EVENT_IRQ_INJECT \<Rightarrow> Some (m\<lparr>d_nvic := nvic_set_pending (d_nvic m) (payload e)\<rparr>)
      | EVENT_ETH_RX \<Rightarrow>
          (case frs of
             None \<Rightarrow> Some m
           | Some fl \<Rightarrow>
               if unat (payload e) \<ge> length fl then Some m
               else if fr_bytes (fl ! unat (payload e)) = [] then Some m
               else eth_inject_rx m (fr_bytes (fl ! unat (payload e))))
      | EVENT_NONE \<Rightarrow> Some m)"

text \<open>The inner loop: events due by now are injected; the number is how far the cursor moves.\<close>

fun drain :: "eth_frame_t list option \<Rightarrow> ev_t list \<Rightarrow> machine \<Rightarrow> (machine \<times> nat) option" where
  "drain frs [] m = Some (m, 0)"
| "drain frs (e # es) m =
     (if ev_cycle e \<le> cycles (cpu m)
      then do { m1 \<leftarrow> tt_inject_event frs m e; (m2, k) \<leftarrow> drain frs es m1; Some (m2, Suc k) }
      else Some (m, 0))"

text \<open>What a replay needs besides the machine.\<close>

record replay_t =
  rp_ctx :: run_ctx_t
  rp_dwt :: bool
  rp_frames :: "eth_frame_t list option"
  rp_log :: "ev_t list"

definition stop_at :: "replay_t \<Rightarrow> nat \<Rightarrow> u64 \<Rightarrow> u64" where
  "stop_at rp pos target =
     (let next_ev = (if pos < length (rp_log rp) then ev_cycle (rp_log rp ! pos) else target)
      in if next_ev < target then next_ev else target)"

text \<open>
  The outer loop.  It stops when a run makes no progress; nothing else bounds it, so it is
  the least fixed point, \<open>None\<close> for a loop that does not end.
\<close>

partial_function (option) until_loop :: "replay_t \<Rightarrow> u64 \<Rightarrow> run_t \<Rightarrow> nat \<Rightarrow> (run_t \<times> nat) option" where
  "until_loop rp target s pos =
     (if cycles (cpu (mach s)) < target then
        do { (m1, k) \<leftarrow> drain (rp_frames rp) (drop pos (rp_log rp)) (mach s);
             let pos1 = pos + k; gap = stop_at rp pos1 target - cycles (cpu m1) in
             if gap = 0 then Some (s\<lparr>mach := m1\<rparr>, pos1)
             else do { (_, s2) \<leftarrow> run_steps_full_g (rp_ctx rp) (rp_dwt rp) (s\<lparr>mach := m1\<rparr>) gap;
                       if cycles (cpu (mach s2)) = cycles (cpu m1) then Some (s2, pos1)
                       else until_loop rp target s2 pos1 } }
      else Some (s, pos))"

definition run_until_cycle :: "replay_t \<Rightarrow> u64 \<Rightarrow> run_t \<Rightarrow> nat \<Rightarrow> (u64 \<times> run_t \<times> nat) option" where
  "run_until_cycle rp target s pos =
     do { (s1, pos1) \<leftarrow> until_loop rp target s pos;
          Some (cycles (cpu (mach s1)) - cycles (cpu (mach s)), s1, pos1) }"

text \<open>
  \<^verbatim>\<open>tt_replay\<close>, \<^verbatim>\<open>tt_rewind\<close> and \<^verbatim>\<open>tt_step_back\<close>.  \<^verbatim>\<open>g_replay_mode\<close> is set during
  the run and put back at its end; nothing in the run reads it, and recording is not
  reached from the run, so the flag does not appear.
\<close>

definition tt_replay :: "(snap_blob_t \<Rightarrow> u8 list) \<Rightarrow> bool \<Rightarrow> replay_t \<Rightarrow> ev_log_t option \<Rightarrow> snap_blob_t \<Rightarrow> u64
    \<Rightarrow> run_t \<Rightarrow> (bool \<times> run_t) option" where
  "tt_replay bytes att rp lg b target s =
     do { (ok, s1) \<leftarrow> snap_restore bytes att (stack_insn (rp_ctx rp)) b s;
          if \<not> ok then Some (False, s1)
          else if target < cycles (cpu (mach s1)) then Some (False, s1)
          else
            (let (l, pos) = (case lg of Some g \<Rightarrow> (lg_buf g, ev_log_seek g (cycles (cpu (mach s1)))) | None \<Rightarrow> ([], 0))
             in do { (_, s2, _) \<leftarrow> run_until_cycle (rp\<lparr>rp_log := l\<rparr>) target s1 pos; Some (True, s2) }) }"

definition tt_rewind :: "(snap_blob_t \<Rightarrow> u8 list) \<Rightarrow> bool \<Rightarrow> replay_t \<Rightarrow> tt_t \<Rightarrow> u64 \<Rightarrow> run_t
    \<Rightarrow> (bool \<times> run_t) option" where
  "tt_rewind bytes att rp tt target s =
     (let i = tt_bsearch_le (tt_idx tt) target
      in if i < 0 then Some (False, s)
         else
           do { (ok, s1) \<leftarrow> snap_restore bytes att (stack_insn (rp_ctx rp))
                             (snaps tt ! snap_idx (tt_idx tt ! nat i)) s;
                if \<not> ok then Some (False, s1)
                else if target > cycles (cpu (mach s1)) then
                  (let pos = ev_log_seek (tt_log tt) (cycles (cpu (mach s1)))
                   in do { (_, s2, _) \<leftarrow> run_until_cycle (rp\<lparr>rp_log := lg_buf (tt_log tt)\<rparr>) target s1 pos;
                           Some (True, s2) })
                else Some (True, s1) })"

definition tt_step_back :: "(snap_blob_t \<Rightarrow> u8 list) \<Rightarrow> bool \<Rightarrow> replay_t \<Rightarrow> tt_t \<Rightarrow> u64 \<Rightarrow> run_t
    \<Rightarrow> (bool \<times> run_t) option" where
  "tt_step_back bytes att rp tt n s =
     (if n > cycles (cpu (mach s)) then Some (False, s)
      else tt_rewind bytes att rp tt (cycles (cpu (mach s)) - n) s)"

end
