(* ===== verification/Board.thy ===== *)
theory Board
  imports Tt
begin

text \<open>
  The board API of \<^verbatim>\<open>src/core/board.c\<close> (and its C ABI forwards in
  \<^verbatim>\<open>src/lecerf_api.c\<close>): profiles, the wiring of the devices to the bus, loading and
  running firmware, and the observers.  The build modelled is the one without the x86 block
  compiler (\<^verbatim>\<open>b->jit = NULL\<close>).
\<close>

section \<open>Profiles\<close>

record board_profile_t =
  pname :: string
  flash_base :: addr_t
  flash_size :: u32
  sram_base :: addr_t
  prof_sram_size :: u32
  prof_core :: core_t

definition BOARDS :: "board_profile_t list" where
  "BOARDS =
     [\<lparr>pname = ''stm32f103'', flash_base = 0, flash_size = 128 * 1024, sram_base = 0x20000000,
       prof_sram_size = 20 * 1024, prof_core = CORE_M3\<rparr>,
      \<lparr>pname = ''stm32f407'', flash_base = 0, flash_size = 512 * 1024, sram_base = 0x20000000,
       prof_sram_size = 128 * 1024, prof_core = CORE_M4\<rparr>,
      \<lparr>pname = ''generic-m4'', flash_base = 0, flash_size = 1024 * 1024, sram_base = 0x20000000,
       prof_sram_size = 256 * 1024, prof_core = CORE_M4\<rparr>]"

definition board_profile_find :: "string \<Rightarrow> board_profile_t option" where
  "board_profile_find nm = List.find (\<lambda>p. pname p = nm) BOARDS"

section \<open>Wiring\<close>

text \<open>
  The attach functions: a device resets its state and adds its regions; the result of
  adding a region is not looked at.
\<close>

definition attach :: "region_t list \<Rightarrow> string \<Rightarrow> addr_t \<Rightarrow> u32 \<Rightarrow> device \<Rightarrow> region_t list" where
  "attach rs nm b sz d = (case bus_add_mmio rs nm b sz d of Some rs' \<Rightarrow> rs' | None \<Rightarrow> rs)"

definition uart_attach :: "machine \<Rightarrow> machine" where
  "uart_attach m = m\<lparr>regions := attach (regions m) ''uart'' 0x40004000 0x1000 DEV_UART\<rparr>"

definition systick_attach :: "machine \<Rightarrow> machine" where
  "systick_attach m = m\<lparr>d_st := systick_init,
     regions := attach (regions m) ''systick'' 0xE000E010 0x10 DEV_SYSTICK\<rparr>"

definition scb_attach :: "machine \<Rightarrow> machine" where
  "scb_attach m = m\<lparr>d_scb := scb_init, regions := attach (regions m) ''scb'' 0xE000ED00 0x100 DEV_SCB\<rparr>"

definition mpu_attach :: "machine \<Rightarrow> machine" where
  "mpu_attach m = m\<lparr>d_mpu := mpu_init, regions := attach (regions m) ''mpu'' 0xE000ED90 0x60 DEV_MPU\<rparr>"

definition stm32_attach :: "machine \<Rightarrow> machine" where
  "stm32_attach m =
     (let rs = regions m;
          rs = attach rs ''rcc'' 0x40021000 0x400 DEV_RCC;
          rs = attach rs ''gpioa'' 0x40010800 0x400 (DEV_GPIO GPIO_A);
          rs = attach rs ''gpiob'' 0x40010C00 0x400 (DEV_GPIO GPIO_B);
          rs = attach rs ''gpioc'' 0x40011000 0x400 (DEV_GPIO GPIO_C);
          rs = attach rs ''usart1'' 0x40013800 0x400 DEV_USART;
          rs = attach rs ''usart2'' 0x40004400 0x400 DEV_USART
      in m\<lparr>d_stm32 := stm32_init, regions := rs\<rparr>)"

definition dwt_attach :: "machine \<Rightarrow> machine" where
  "dwt_attach m =
     (let rs = attach (regions m) ''dwt'' 0xE0001000 0x100 DEV_DWT;
          rs = attach rs ''demcr'' 0xE000EDFC 0x004 DEV_DEMCR
      in m\<lparr>d_dwt := dwt_init, regions := rs\<rparr>)"

definition nvic_attach :: "machine \<Rightarrow> machine" where
  "nvic_attach m = m\<lparr>d_nvic := nvic_init, regions := attach (regions m) ''nvic'' 0xE000E100 0x500 DEV_NVIC\<rparr>"

definition eth_attach :: "machine \<Rightarrow> machine" where
  "eth_attach m = m\<lparr>d_eth := eth_init, regions := attach (regions m) ''eth'' 0x40028000 0x100 DEV_ETH\<rparr>"

section \<open>Creation\<close>

record board_t =
  b_mach :: machine
  b_jit :: "jit_t option"
  b_tt :: "tt_t option"
  b_prof :: board_profile_t

text \<open>The zeroed allocation; the arithmetic of the host comes from outside.\<close>

definition calloc_machine :: "float_ops \<Rightarrow> machine" where
  "calloc_machine h =
     \<lparr>cpu = (cpu_reset CORE_M0)\<lparr>epsr := 0, fpu := fpu_reset\<lparr>fpu_enabled := False\<rparr>\<rparr>, regions = [],
      d_uart = \<lparr>u_sink = SINK_NULL, replay_mode = False, rx_q = (\<lambda>_. 0), rx_head = 0, rx_tail = 0\<rparr>,
      d_st = systick_init, d_scb = scb_init, d_mpu = mpu_init, d_stm32 = stm32_init,
      d_nvic = nvic_init, d_dwt = dwt_init, d_eth = eth_init\<lparr>eth_bus := False\<rparr>,
      uart_buf = [], uart_buf_cap = 0, stdout = [],
      g_nvic_for_run = False, g_cpu_for_scb = False, host_fpu = h\<rparr>"

definition attach_all :: "machine \<Rightarrow> machine" where
  "attach_all m =
     (let m = m\<lparr>d_uart := (d_uart m)\<lparr>u_sink := SINK_CAPTURE\<rparr>\<rparr>;
          m = uart_attach m;
          m = systick_attach m;
          m = scb_attach m;
          m = m\<lparr>d_scb := (d_scb m)\<lparr>scb_ctx := True\<rparr>\<rparr>;
          m = mpu_attach m;
          m = m\<lparr>d_stm32 := (d_stm32 m)\<lparr>quiet := True\<rparr>\<rparr>;
          m = stm32_attach m;
          m = dwt_attach m;
          m = nvic_attach m
      in eth_attach m)"

definition board_create :: "float_ops \<Rightarrow> string \<Rightarrow> board_t option" where
  "board_create h nm =
     (case board_profile_find nm of
        None \<Rightarrow> None
      | Some prof \<Rightarrow>
          do { rs1 \<leftarrow> bus_add_flat [] ''flash'' (flash_base prof) (flash_size prof) False;
               rs2 \<leftarrow> bus_add_flat rs1 ''sram'' (sram_base prof) (prof_sram_size prof) True;
               let m = (calloc_machine h)\<lparr>uart_buf_cap := 65536, regions := rs2\<rparr>;
                   m = attach_all m;
                   m = m\<lparr>cpu := cpu_reset (prof_core prof)\<rparr> in
               Some \<lparr>b_mach = m, b_jit = None, b_tt = None, b_prof = prof\<rparr> })"

section \<open>Operations\<close>

definition board_flash :: "board_t \<Rightarrow> u8 list \<Rightarrow> bool \<times> board_t" where
  "board_flash b data =
     (if data = [] then (False, b)
      else
        (let base = flash_base (b_prof b); (ok, m) = bus_load_blob (b_mach b) base data
         in if \<not> ok then (False, b)
            else
              (let (sp, m) = bus_r32 m base;
                   m = cpu_update (msp_update (\<lambda>_. sp)) m;
                   m = set_reg m REG_SP sp;
                   (e, m) = bus_r32 m (base + 4);
                   entry = e AND NOT 1;
                   m = set_reg m REG_PC (if entry \<noteq> 0 then entry else base);
                   m = cpu_update (halted_update (\<lambda>_. False)) m
               in (True, b\<lparr>b_mach := m\<rparr>))))"

datatype exit_cause = BOARD_HALT | BOARD_TIMEOUT | BOARD_FAULT

definition exit_cause_of :: "cpu_t \<Rightarrow> exit_cause" where
  "exit_cause_of c =
     (if halted c then BOARD_HALT else if cfsr c OR hfsr c \<noteq> 0 then BOARD_FAULT else BOARD_TIMEOUT)"

text \<open>The decode cache is a process global; \<open>d\<close> is what it holds before the run.\<close>

definition board_run :: "x86_host \<Rightarrow> insn_t \<Rightarrow> (u32 \<Rightarrow> dcache_e) \<Rightarrow> board_t \<Rightarrow> u64
    \<Rightarrow> (u64 \<times> exit_cause \<times> board_t \<times> (u32 \<Rightarrow> dcache_e)) option" where
  "board_run h i0 d b max_steps =
     (let ctx = \<lparr>with_st = True, with_scb = True, with_dwt = True, with_nvic = True, host = h, stack_insn = i0\<rparr>
      in do { (n, s) \<leftarrow> run_steps_full_gc ctx \<lparr>mach = b_mach b, jit = b_jit b, dcache = d\<rparr> max_steps;
              Some (n, exit_cause_of (cpu (mach s)), b\<lparr>b_mach := mach s, b_jit := jit s\<rparr>, dcache s) })"

definition board_uart_drain :: "board_t \<Rightarrow> nat \<Rightarrow> u8 list \<times> board_t" where
  "board_uart_drain b cap =
     (if cap = 0 then ([], b)
      else
        (let q = uart_buf (b_mach b); n = (if length q < cap then length q else cap)
         in (take n q, b\<lparr>b_mach := (b_mach b)\<lparr>uart_buf := []\<rparr>\<rparr>)))"

definition board_gpio_get :: "board_t \<Rightarrow> u32 \<Rightarrow> u32 \<Rightarrow> u32" where
  "board_gpio_get b port pin =
     (if pin \<ge> 16 then 0
      else let s = d_stm32 (b_mach b)
           in if port = 0 then fld (odr_a s) (unat pin) 1
              else if port = 1 then fld (odr_b s) (unat pin) 1
              else if port = 2 then fld (odr_c s) (unat pin) 1
              else 0)"

definition board_cpu_reg :: "board_t \<Rightarrow> u32 \<Rightarrow> u32" where
  "board_cpu_reg b n =
     (if n < 16 then reg (b_mach b) (to8 n) else if n = 16 then apsr (cpu (b_mach b)) else 0)"

definition board_cycles :: "board_t \<Rightarrow> u64" where
  "board_cycles b = cycles (cpu (b_mach b))"

definition board_enable_timetravel :: "(nat \<Rightarrow> bool) \<Rightarrow> board_t \<Rightarrow> u32 \<Rightarrow> nat \<Rightarrow> board_t" where
  "board_enable_timetravel alloc b strd mx =
     (if b_tt b \<noteq> None then b
      else if strd = 0 \<or> mx = 0 then b
      else b\<lparr>b_tt := Some \<lparr>stride = strd, max_snaps = mx, snaps = [], tt_idx = [],
                            tt_log = ev_log_init alloc 16, frames = []\<rparr>\<rparr>)"

text \<open>A log whose buffer is NULL has capacity 0; it is allocated again before the append.\<close>

definition board_inject_irq :: "(nat \<Rightarrow> bool) \<Rightarrow> board_t \<Rightarrow> u32 \<Rightarrow> board_t" where
  "board_inject_irq alloc b irq =
     (let t = b_tt b;
          t = map_option (\<lambda>t. if lg_cap (tt_log t) = 0 then t\<lparr>tt_log := ev_log_init alloc 16\<rparr> else t) t;
          t = map_option (\<lambda>t. t\<lparr>tt_log := snd (ev_log_append alloc (tt_log t) (cycles (cpu (b_mach b)))
                                              EVENT_IRQ_INJECT irq)\<rparr>) t
      in b\<lparr>b_tt := t, b_mach := (b_mach b)\<lparr>d_nvic := nvic_set_pending (d_nvic (b_mach b)) irq\<rparr>\<rparr>)"

definition board_get_ev_log_count :: "board_t \<Rightarrow> nat" where
  "board_get_ev_log_count b = (case b_tt b of Some t \<Rightarrow> length (lg_buf (tt_log t)) | None \<Rightarrow> 0)"

section \<open>The address map\<close>

definition mmio_region :: "string \<Rightarrow> addr_t \<Rightarrow> u32 \<Rightarrow> device \<Rightarrow> region_t" where
  "mmio_region nm b sz d =
     \<lparr>base = b, rsize = sz, kind = REGION_MMIO d, writable = True, buf = (\<lambda>_. 0), rname = nm\<rparr>"

definition flat_region :: "string \<Rightarrow> addr_t \<Rightarrow> u32 \<Rightarrow> bool \<Rightarrow> region_t" where
  "flat_region nm b sz w =
     \<lparr>base = b, rsize = sz, kind = REGION_FLAT, writable = w, buf = (\<lambda>_. 0), rname = nm\<rparr>"

lemma region_fields [simp]:
  "base (mmio_region nm b sz d) = b" "rsize (mmio_region nm b sz d) = sz"
  "kind (mmio_region nm b sz d) = REGION_MMIO d" "writable (mmio_region nm b sz d)"
  "base (flat_region nm b sz w) = b" "rsize (flat_region nm b sz w) = sz"
  "kind (flat_region nm b sz w) = REGION_FLAT" "writable (flat_region nm b sz w) = w"
  "buf (flat_region nm b sz w) = (\<lambda>_. 0)"
  by (simp_all add: mmio_region_def flat_region_def)

lemma attach_room: "length rs < 32 \<Longrightarrow> attach rs nm b sz d = rs @ [mmio_region nm b sz d]"
  by (simp add: attach_def bus_add_mmio_def mmio_region_def)

definition peripheral_map :: "region_t list" where
  "peripheral_map =
     [mmio_region ''uart'' 0x40004000 0x1000 DEV_UART, mmio_region ''systick'' 0xE000E010 0x10 DEV_SYSTICK,
      mmio_region ''scb'' 0xE000ED00 0x100 DEV_SCB, mmio_region ''mpu'' 0xE000ED90 0x60 DEV_MPU,
      mmio_region ''rcc'' 0x40021000 0x400 DEV_RCC, mmio_region ''gpioa'' 0x40010800 0x400 (DEV_GPIO GPIO_A),
      mmio_region ''gpiob'' 0x40010C00 0x400 (DEV_GPIO GPIO_B),
      mmio_region ''gpioc'' 0x40011000 0x400 (DEV_GPIO GPIO_C),
      mmio_region ''usart1'' 0x40013800 0x400 DEV_USART, mmio_region ''usart2'' 0x40004400 0x400 DEV_USART,
      mmio_region ''dwt'' 0xE0001000 0x100 DEV_DWT, mmio_region ''demcr'' 0xE000EDFC 4 DEV_DEMCR,
      mmio_region ''nvic'' 0xE000E100 0x500 DEV_NVIC, mmio_region ''eth'' 0x40028000 0x100 DEV_ETH]"

lemma attach_regions:
  "length (regions m) < 32 \<Longrightarrow> regions (uart_attach m) = regions m @ [mmio_region ''uart'' 0x40004000 0x1000 DEV_UART]"
  "length (regions m) < 32 \<Longrightarrow> regions (systick_attach m) = regions m @ [mmio_region ''systick'' 0xE000E010 0x10 DEV_SYSTICK]"
  "length (regions m) < 32 \<Longrightarrow> regions (scb_attach m) = regions m @ [mmio_region ''scb'' 0xE000ED00 0x100 DEV_SCB]"
  "length (regions m) < 32 \<Longrightarrow> regions (mpu_attach m) = regions m @ [mmio_region ''mpu'' 0xE000ED90 0x60 DEV_MPU]"
  "length (regions m) < 26 \<Longrightarrow> regions (stm32_attach m) = regions m @
     [mmio_region ''rcc'' 0x40021000 0x400 DEV_RCC, mmio_region ''gpioa'' 0x40010800 0x400 (DEV_GPIO GPIO_A),
      mmio_region ''gpiob'' 0x40010C00 0x400 (DEV_GPIO GPIO_B),
      mmio_region ''gpioc'' 0x40011000 0x400 (DEV_GPIO GPIO_C),
      mmio_region ''usart1'' 0x40013800 0x400 DEV_USART, mmio_region ''usart2'' 0x40004400 0x400 DEV_USART]"
  "length (regions m) < 31 \<Longrightarrow> regions (dwt_attach m) = regions m @
     [mmio_region ''dwt'' 0xE0001000 0x100 DEV_DWT, mmio_region ''demcr'' 0xE000EDFC 4 DEV_DEMCR]"
  "length (regions m) < 32 \<Longrightarrow> regions (nvic_attach m) = regions m @ [mmio_region ''nvic'' 0xE000E100 0x500 DEV_NVIC]"
  "length (regions m) < 32 \<Longrightarrow> regions (eth_attach m) = regions m @ [mmio_region ''eth'' 0x40028000 0x100 DEV_ETH]"
  by (simp_all add: uart_attach_def systick_attach_def scb_attach_def mpu_attach_def stm32_attach_def
      dwt_attach_def nvic_attach_def eth_attach_def Let_def attach_room)

lemma attach_all_regions: "length (regions m) \<le> 2 \<Longrightarrow> regions (attach_all m) = regions m @ peripheral_map"
  by (simp add: attach_all_def Let_def attach_regions peripheral_map_def)

lemma board_create_known:
  assumes "board_profile_find nm = Some p"
  shows "board_create h nm = Some \<lparr>b_mach = (attach_all ((calloc_machine h)\<lparr>uart_buf_cap := 65536, regions :=
      [flat_region ''flash'' (flash_base p) (flash_size p) False,
       flat_region ''sram'' (sram_base p) (prof_sram_size p) True]\<rparr>))\<lparr>cpu := cpu_reset (prof_core p)\<rparr>,
    b_jit = None, b_tt = None, b_prof = p\<rparr>"
  using assms by (simp add: board_create_def bus_add_flat_def flat_region_def Let_def)

lemma board_create_regions:
  assumes "board_profile_find nm = Some p"
  shows "map_option (\<lambda>b. regions (b_mach b)) (board_create h nm) = Some
    (flat_region ''flash'' (flash_base p) (flash_size p) False #
     flat_region ''sram'' (sram_base p) (prof_sram_size p) True # peripheral_map)"
  by (simp add: board_create_known [OF assms] attach_all_regions)

lemma board_create_cpu:
  assumes "board_profile_find nm = Some p"
  shows "cpu (b_mach (the (board_create h nm))) = cpu_reset (prof_core p)"
  by (simp add: board_create_known [OF assms])

end
