(* ===== verification/Exec_Laws.thy ===== *)
theory Exec_Laws
  imports Executor
begin

text \<open>
  What every instruction respects.  The stretches of the switch keep any relation of the
  locale \<open>machine_preorder\<close>, so the whole switch does; the instances say that the clock
  moves only when an instruction retires, and by one.
\<close>

section \<open>Outcomes under a relation\<close>

lemma set_flags_cycles [simp]:
  "cycles (cpu_set_flags_nz c v) = cycles c"
  "cycles (cpu_set_flags_nzcv_add c a b v ci) = cycles c"
  "cycles (cpu_set_flags_nzcv_sub c a b v) = cycles c"
  by (simp_all add: cpu_set_flags_nz_def cpu_set_flags_nzcv_add_def cpu_set_flags_nzcv_sub_def Let_def)

lemma msr_write_cycles [simp]: "cycles (msr_write c s k v) = cycles c"
  by (simp add: msr_write_def Let_def)

lemma it_advance_cycles [simp]: "cycles (cpu_it_advance c) = cycles c"
  by (simp add: cpu_it_advance_def Let_def)

lemma retire_cycles [simp]: "cycles (retire c np) = cycles c + 1"
  by (simp add: retire_def)

lemma exec_finish_cycles [simp]: "cycles (exec_finish it f op np c) = cycles c + 1"
  by (simp add: exec_finish_def Let_def)

context machine_preorder
begin

definition okR :: "machine \<Rightarrow> outcome \<Rightarrow> bool" where
  "okR m0 x \<longleftrightarrow> (case x of Break _ m \<Rightarrow> R m0 m | Ret _ m \<Rightarrow> R m0 m | _ \<Rightarrow> True)"

lemma ok_leaf:
  "R m0 m \<Longrightarrow> okR m0 (Break np m)" "R m0 m \<Longrightarrow> okR m0 (Ret b m)" "okR m0 Stuck" "okR m0 NoCase"
  by (simp_all add: okR_def)

lemma ok_halt: "R m0 m \<Longrightarrow> okR m0 (halt_false m)"
  by (simp add: halt_false_def okR_def R_upd)

lemma ok_if: "okR m0 x \<Longrightarrow> okR m0 y \<Longrightarrow> okR m0 (if b then x else y)"
  by simp

lemma ok_orelse: "okR m0 x \<Longrightarrow> okR m0 y \<Longrightarrow> okR m0 (orelse x y)"
  by (cases x) simp_all

lemma ok_rd:
  assumes "R m0 m" "\<And>v m1. R m0 m1 \<Longrightarrow> okR m0 (k v m1)"
  shows "okR m0 (rd m a sz k)"
proof -
  obtain v m1 where r: "bus_read m a sz = (v, m1)" by (cases "bus_read m a sz")
  then have "R m0 m1" using read_R [OF assms(1)] by blast
  then show ?thesis using r assms(2) by (cases v) (simp_all add: rd_def ok_halt)
qed

lemma ok_wr:
  assumes "R m0 m" "\<And>m1. R m0 m1 \<Longrightarrow> okR m0 (k m1)"
  shows "okR m0 (wr m a sz v k)"
proof (cases "bus_write m a sz v")
  case (Some y)
  obtain b m1 where y: "y = (b, m1)" by (cases y)
  then have "R m0 m1" using write_R [OF assms(1)] Some by blast
  then show ?thesis using Some y assms(2) by (simp add: wr_def ok_halt)
qed (simp add: wr_def ok_leaf)

lemma ok_stm: "R m0 m \<Longrightarrow> (\<And>m1 a. R m0 m1 \<Longrightarrow> okR m0 (k m1 a)) \<Longrightarrow> okR m0 (stm_loop val l ks m a k)"
  by (induction ks arbitrary: m a) (simp_all add: ok_wr)

lemma ok_ldm: "R m0 m \<Longrightarrow> (\<And>m1 a p. R m0 m1 \<Longrightarrow> okR m0 (k m1 a p)) \<Longrightarrow> okR m0 (ldm_loop l ks m a p k)"
proof (induction ks arbitrary: m a p)
  case (Cons n ks)
  show ?case using Cons.prems by (auto intro!: ok_rd Cons.IH R_upd)
qed simp

lemma ok_vst: "R m0 m \<Longrightarrow> (\<And>m1 a. R m0 m1 \<Longrightarrow> okR m0 (k m1 a)) \<Longrightarrow> okR m0 (vst_loop n s m a k)"
  by (induction n arbitrary: s m a) (simp_all add: ok_wr ok_leaf)

lemma ok_vld: "R m0 m \<Longrightarrow> (\<And>m1 a. R m0 m1 \<Longrightarrow> okR m0 (k m1 a)) \<Longrightarrow> okR m0 (vld_loop n s m a k)"
proof (induction n arbitrary: s m a)
  case (Suc n)
  show ?case using Suc.prems by (auto intro!: ok_rd ok_leaf Suc.IH R_upd)
qed simp

lemma ok_do_exc_return: "R m0 m \<Longrightarrow> okR m0 (do_exc_return m t)"
  using exc_return_R [of m0 m t]
  by (auto simp: do_exc_return_def Let_def case_prod_unfold intro!: ok_leaf ok_halt)

lemma R_if: "R m0 m \<Longrightarrow> R m0 m' \<Longrightarrow> R m0 (if b then m else m')"
  by simp

lemma R_f_if: "R m0 m \<Longrightarrow> (\<And>c. cycles (h c) = cycles c) \<Longrightarrow> R m0 (f_if i h m)"
  by (simp add: f_if_def R_upd)

lemmas ok_intros = ok_leaf ok_halt ok_if ok_rd ok_wr ok_stm ok_ldm ok_vst ok_vld ok_do_exc_return R_if R_f_if

lemma exec_ok:
  assumes "R m0 m"
  shows "okR m0 (exec_dp1 m i np)" "okR m0 (exec_dp2 m i np)" "okR m0 (exec_ldst1 m i np)"
    "okR m0 (exec_ldst2 m i np)" "okR m0 (exec_ext m i np)" "okR m0 (exec_t32_imm m i np)"
    "okR m0 (exec_t32_plain m i np)" "okR m0 (exec_t32_reg m i np)" "okR m0 (exec_t32_ldst m i np)"
    "okR m0 (exec_t32_ldst2 m i np)" "okR m0 (exec_vfp_arith m i np)" "okR m0 (exec_vfp_block m i np)"
    "okR m0 (exec_t32_mul m i np)" "okR m0 (exec_t32_sys m i np)" "okR m0 (exec_t32_bits m i np)"
  unfolding exec_dp1_def exec_dp2_def exec_ldst1_def exec_ldst2_def exec_ext_def exec_t32_imm_def
    exec_t32_plain_def exec_t32_reg_def exec_t32_ldst_def exec_t32_ldst2_def exec_vfp_arith_def
    exec_vfp_block_def exec_t32_mul_def exec_t32_sys_def exec_t32_bits_def put_pair_def Let_def
  by (intro ok_intros R_upd assms; simp)+

lemma exec_ok_stack: "R m0 m \<Longrightarrow> okR m0 (exec_stack m i np)"
  unfolding exec_stack_def Let_def
  by (intro ok_intros R_upd; simp split: option.split add: ok_intros R_upd)+

lemma ok_svc: "R m0 m \<Longrightarrow> okR m0 (case exc_enter m e of
    None \<Rightarrow> Stuck | Some (ok, m') \<Rightarrow> if ok then Ret True m' else halt_false m')"
  by (auto split: option.split intro!: ok_leaf ok_halt intro: exc_enter_R)

lemma exec_ok_branch: "R m0 m \<Longrightarrow> okR m0 (exec_branch m i np)"
  unfolding exec_branch_def Let_def
  by (intro ok_intros ok_svc R_upd; simp)

lemma exec_ok_misc: "R m0 m \<Longrightarrow> okR m0 (exec_misc m i np)"
  unfolding exec_misc_def Let_def
  by (intro ok_intros R_upd; simp)

lemma exec_ok_vfp_misc: "R m0 m \<Longrightarrow> okR m0 (exec_vfp_misc m i np)"
  unfolding exec_vfp_misc_def Let_def
  by (intro ok_intros R_upd; simp split: option.split add: ok_intros R_upd)

lemma exec_ok_block: "R m0 m \<Longrightarrow> okR m0 (exec_t32_block m i np)"
  unfolding exec_t32_block_def Let_def
  by (intro ok_intros R_upd; simp)

lemma exec_ok_undefined: "R m0 m \<Longrightarrow> okR m0 (exec_undefined m)"
  by (auto simp: exec_undefined_def split: option.split intro!: ok_leaf intro: raise_fault_R)

lemma exec_switch_ok: "R m0 m \<Longrightarrow> okR m0 (exec_switch m i np)"
  unfolding exec_switch_def
  by (intro ok_orelse exec_ok exec_ok_stack exec_ok_branch exec_ok_misc exec_ok_vfp_misc exec_ok_block
      exec_ok_undefined)

text \<open>
  An instruction is a change that \<open>R\<close> respects, followed, when it retires, by the end of
  the function, which touches the processor only.
\<close>

lemma execute_R:
  assumes "execute m i = Some (b, m')"
  obtains m1 where "R m m1" "m' = m1"
    | m1 h where "R m m1" "b" "m' = cpu_update h m1" "cycles (h (cpu m1)) = cycles (cpu m1) + 1"
proof (cases "cpu_in_it (cpu m) \<and> \<not> it_pass (cpu m)")
  case True
  then have e: "m' = cpu_update (\<lambda>c. retire (cpu_it_advance c) (reg m REG_PC + to32 (isize i))) m" "b"
    using assms by (auto simp: execute_def Let_def)
  show ?thesis by (rule that(2) [OF R_refl e(2) e(1)]) simp
next
  case False
  have ok: "okR m (exec_switch m i (reg m REG_PC + to32 (isize i)))" by (rule exec_switch_ok [OF R_refl])
  show ?thesis
  proof (cases "exec_switch m i (reg m REG_PC + to32 (isize i))")
    case (Break np m1)
    then have e: "m' = cpu_update (exec_finish (cpu_in_it (cpu m)) (apsr (cpu m)) (iop i) np) m1" "b" "R m m1"
      using assms False ok by (auto simp: execute_def Let_def okR_def)
    show ?thesis by (rule that(2) [OF e(3,2,1)]) simp
  next
    case (Ret b' m1)
    then show ?thesis using assms False ok by (intro that(1) [of m1]) (auto simp: execute_def Let_def okR_def)
  qed (use assms False in \<open>auto simp: execute_def Let_def\<close>)
qed

end

section \<open>Relations that the clock and the timers respect too\<close>

locale run_preorder = machine_preorder +
  assumes R_any_cpu: "R m (cpu_update h m)"
    and R_st: "R m (d_st_update t m)"
    and R_scb: "R m (d_scb_update s m)"
    and R_dwt: "R m (d_dwt_update d m)"
begin

lemma execute_keeps: "execute m i = Some (b, m') \<Longrightarrow> R m m'"
  by (erule execute_R) (auto intro: R_trans R_any_cpu)

lemma timers_R: "R m0 m \<Longrightarrow> R m0 (cpu_update h m)" "R m0 m \<Longrightarrow> R m0 (d_st_update t m)"
  "R m0 m \<Longrightarrow> R m0 (d_scb_update s m)" "R m0 m \<Longrightarrow> R m0 (d_dwt_update d m)"
  by (blast intro: R_trans R_any_cpu R_st R_scb R_dwt)+

end

section \<open>Instances\<close>

text \<open>
  The clock, the contents of memory that no store may change with the shape of the address
  map, and the output, which only grows.
\<close>

definition rom_of :: "machine \<Rightarrow> region_t list" where
  "rom_of m = map (\<lambda>r. if writable r then shape r else r) (regions m)"

definition same_rom :: "machine \<Rightarrow> machine \<Rightarrow> bool" where
  "same_rom m m' \<longleftrightarrow> rom_of m' = rom_of m"

definition out_grows :: "machine \<Rightarrow> machine \<Rightarrow> bool" where
  "out_grows m m' \<longleftrightarrow> (\<exists>xs. stdout m' = stdout m @ xs) \<and> (\<exists>ys. uart_buf m' = uart_buf m @ ys) \<and>
     uart_buf_cap m' = uart_buf_cap m \<and>
     (length (uart_buf m) \<le> uart_buf_cap m \<longrightarrow> length (uart_buf m') \<le> uart_buf_cap m)"

definition same_clock :: "machine \<Rightarrow> machine \<Rightarrow> bool" where
  "same_clock m m' \<longleftrightarrow> cycles (cpu m') = cycles (cpu m)"

lemma out_of_cases:
  "regions (dev_write m d off v) = regions m"
  "regions (uart_write m off v) = regions m"
  by (cases "(m, d, off, v)" rule: dev_write.cases)
    (simp_all add: case_prod_unfold Let_def uart_write_def uart_capture_def emit_stdout_def
      split: option.split uart_sink.split)

lemma dev_read_out:
  "stdout (snd (dev_read m d off)) = stdout m" "uart_buf (snd (dev_read m d off)) = uart_buf m"
  "uart_buf_cap (snd (dev_read m d off)) = uart_buf_cap m"
  by (cases "(m, d, off)" rule: dev_read.cases; simp add: case_prod_unfold Let_def)+

lemma uart_write_out: "out_grows m (uart_write m off v)" "cpu (uart_write m off v) = cpu m"
  by (auto simp: uart_write_def uart_capture_def emit_stdout_def out_grows_def split: option.split uart_sink.split)

lemma dev_write_out: "out_grows m (dev_write m d off v)"
proof (cases "d = DEV_UART")
  case False
  then show ?thesis
    by (cases "(m, d, off, v)" rule: dev_write.cases)
      (auto simp: case_prod_unfold Let_def emit_stdout_def out_grows_def split: option.split)
qed (simp add: uart_write_out)

lemma scb_write_cycles: "snd (scb_write s (Some c) off v) = Some c' \<Longrightarrow> cycles c' = cycles c"
  by (auto simp: scb_write_def Let_def split: if_splits)

lemma scb_write_none: "snd (scb_write s None off v) = None"
  by (simp add: scb_write_def Let_def)

lemma dev_write_clock: "same_clock m (dev_write m d off v)"
proof (cases "d = DEV_SCB")
  case True
  show ?thesis
    using True scb_write_cycles [of "d_scb m" "cpu m" off v] scb_write_none [of "d_scb m" off v]
    by (auto simp: same_clock_def scb_cpu_def case_prod_unfold Let_def split: option.split)
next
  case False
  then show ?thesis
    by (cases "(m, d, off, v)" rule: dev_write.cases)
      (simp_all add: same_clock_def uart_write_out emit_stdout_def split: option.split)
qed

lemma same_rom_put_flat:
  assumes "k < length (regions m)" "writable (regions m ! k)"
  shows "same_rom m (put_flat m k off sz v)"
proof -
  let ?g = "\<lambda>r. if writable r then shape r else r"
  have "?g ((regions m ! k)\<lparr>buf := f\<rparr>) = ?g (regions m ! k)" for f
    using assms(2) by (simp add: shape_def)
  then have "rom_of (put_flat m k off sz v) = (map ?g (regions m))[k := map ?g (regions m) ! k]"
    using assms(1) by (simp add: rom_of_def put_flat_def map_update)
  then show ?thesis by (simp only: list_update_id same_rom_def rom_of_def)
qed

interpretation clock: machine_preorder same_clock
  by unfold_locales
    (simp_all add: same_clock_def put_flat_def dev_read_frame dev_write_clock [unfolded same_clock_def])

interpretation rom: run_preorder same_rom
  by unfold_locales
    (simp_all add: same_rom_put_flat, simp_all add: same_rom_def rom_of_def dev_read_frame out_of_cases)

interpretation emitted: run_preorder out_grows
  by unfold_locales
    (simp_all add: dev_write_out, auto simp: out_grows_def put_flat_def dev_read_out)

lemma execute_clock:
  "execute m i = Some (b, m') \<Longrightarrow> cycles (cpu m') = cycles (cpu m) \<or> b \<and> cycles (cpu m') = cycles (cpu m) + 1"
  by (erule clock.execute_R) (auto simp: same_clock_def)

end
