(* ===== verification/Exc_Laws.thy ===== *)
theory Exc_Laws
  imports Exceptions
begin

text \<open>A word that a load finds in a flat region, writable or not.\<close>

definition flat_read_ok :: "machine \<Rightarrow> addr_t \<Rightarrow> bool" where
  "flat_read_ok m a \<longleftrightarrow> (case find_region (regions m) a of None \<Rightarrow> False
     | Some k \<Rightarrow> kind (regions m ! k) = REGION_FLAT \<and> a - base (regions m ! k) + 4 \<le> rsize (regions m ! k))"

lemma flat_read:
  assumes "flat_read_ok m a"
  shows "\<exists>v. ld_word m a = Some v \<and> bus_read m a 4 = (Some v, m)"
proof -
  obtain k where "find_region (regions m) a = Some k" "kind (regions m ! k) = REGION_FLAT"
    "\<not> rsize (regions m ! k) < a - base (regions m ! k) + 4"
    using assms by (auto simp: flat_read_ok_def not_less split: option.splits)
  from bus_read_flat [OF this] show ?thesis by (simp add: ld_word_def)
qed

lemma flat_read_regions:
  assumes "regions m = regions m'"
  shows "flat_read_ok m a = flat_read_ok m' a" "flat_read_ok m a \<Longrightarrow> ld_word m a = ld_word m' a"
proof -
  show "flat_read_ok m a = flat_read_ok m' a" using assms by (simp add: flat_read_ok_def split: option.split)
  show "ld_word m a = ld_word m' a" if "flat_read_ok m a"
    using that assms by (auto simp: flat_read_ok_def ld_word_def bus_read_flat not_less split: option.splits)
qed

lemma flat_read_shape:
  assumes "map shape (regions m) = map shape (regions m')"
  shows "flat_read_ok m a = flat_read_ok m' a"
proof (cases "find_region (regions m') a")
  case None
  then show ?thesis using find_region_shape [OF assms, of a] by (simp add: flat_read_ok_def)
next
  case (Some k)
  then have "k < length (regions m')" using find_region_Some by blast
  moreover have "length (regions m) = length (regions m')" using assms by (metis length_map)
  ultimately have "shape (regions m ! k) = shape (regions m' ! k)" using assms by (metis nth_map)
  from shape_fields [OF this] show ?thesis
    using Some find_region_shape [OF assms, of a] by (simp add: flat_read_ok_def)
qed

lemma st_word_shape:
  assumes "flat_ok m a" "st_word m a v = Some m'"
  shows "map shape (regions m') = map shape (regions m)"
  using assms(1)
proof (rule flat_okE)
  fix k
  assume k: "find_region (regions m) a = Some k" "k < length (regions m)" "kind (regions m ! k) = REGION_FLAT"
    "writable (regions m ! k)" "\<not> rsize (regions m ! k) < a - base (regions m ! k) + 4"
  then have "m' = put_flat m k (a - base (regions m ! k)) 4 v"
    using assms(2) by (simp add: st_word_def bus_write_flat)
  then show ?thesis using k(2) by simp
qed

lemma st_seq_shape:
  "\<forall>k<length vs. flat_ok m (a + 4 * of_nat k) \<Longrightarrow> flat_word.st_seq m a vs = Some m' \<Longrightarrow>
   map shape (regions m') = map shape (regions m)"
proof (induction vs arbitrary: m a)
  case (Cons v vs)
  have a: "flat_ok m a" using Cons.prems(1) by force
  obtain m1 where m1: "st_word m a v = Some m1" "flat_word.st_seq m1 (a + 4) vs = Some m'"
    using Cons.prems(2) by (auto split: bind_splits)
  have "flat_ok m1 (a + 4 + 4 * of_nat k)" if "k < length vs" for k
  proof -
    have "flat_ok m (a + 4 * of_nat (Suc k))" using that Cons.prems(1) by (metis Suc_less_eq length_Cons)
    then show ?thesis using flat_word.st_ok [OF a m1(1)] by (simp add: algebra_simps)
  qed
  then show ?case using Cons.IH [OF _ m1(2)] st_word_shape [OF a m1(1)] by simp
qed simp

text \<open>Entry succeeds, and jumps where the vector says.\<close>

lemma enter_handler_returns:
  assumes "flat_read_ok m (4 * to32 exc)"
  shows "\<exists>m1 v. enter_handler m u sp exc = (True, m1) \<and> ld_word m1 (4 * to32 exc) = Some v \<and>
    reg m1 REG_PC = v AND NOT 1 \<and> d_nvic m1 = d_nvic m"
proof -
  define m0 where "m0 = (let m = (if u then cpu_update (psp_update (\<lambda>_. sp)) m
               else cpu_update (msp_update (\<lambda>_. sp)) m);
          m = cpu_update (mode_update (\<lambda>_. MODE_HANDLER)) m;
          m = set_reg m REG_SP (msp (cpu m));
          exc_ret = (if u then 0xFFFFFFFD else 0xFFFFFFF9)
      in set_reg m REG_LR exc_ret)"
  have "regions m0 = regions m" and dn: "d_nvic m0 = d_nvic m" by (simp_all add: m0_def Let_def)
  then have ok: "flat_read_ok m0 (4 * to32 exc)" using assms flat_read_regions by blast
  then obtain v where v: "ld_word m0 (4 * to32 exc) = Some v" "bus_read m0 (4 * to32 exc) 4 = (Some v, m0)"
    using flat_read by blast
  let ?m1 = "cpu_update (itstate_update (\<lambda>_. 0)) (cpu_update (ipsr_update (\<lambda>_. to32 exc))
         (set_reg m0 REG_PC (v AND NOT 1)))"
  have "enter_handler m u sp exc = pop_w m0 (4 * to32 exc) (\<lambda>handler m.
      (True, cpu_update (itstate_update (\<lambda>_. 0)) (cpu_update (ipsr_update (\<lambda>_. to32 exc))
         (set_reg m REG_PC (handler AND NOT 1)))))"
    unfolding enter_handler_def m0_def Let_def ..
  then have "enter_handler m u sp exc = (True, ?m1)" using v(2) by (simp add: pop_w_def)
  moreover have "ld_word ?m1 (4 * to32 exc) = Some v"
    using flat_read_regions(2) [OF _ ok, of ?m1] v(1) by simp
  ultimately show ?thesis using dn by (intro exI [of _ ?m1] exI [of _ v]) simp
qed

lemma exc_enter_returns:
  assumes ok: "frame_ok m (reg m REG_SP - 32)" and vec: "flat_read_ok m (4 * to32 exc)"
  shows "\<exists>m1 v. exc_enter m exc = Some (True, m1) \<and> ld_word m1 (4 * to32 exc) = Some v \<and>
    reg m1 REG_PC = v AND NOT 1 \<and> d_nvic m1 = d_nvic m"
proof -
  let ?p = "reg m REG_SP - 32" and ?vs = "frame_of (cpu m) (entry_xpsr (cpu m) exc)"
  have len: "length ?vs = 8" by (simp add: frame_of_def)
  have sp: "(if on_psp (cpu m) then psp (cpu (sync_sp m)) else msp (cpu (sync_sp m))) - 32 = ?p" by simp
  have ok1: "frame_ok (sync_sp m) ?p" by (rule frame_regions(1) [OF ok]) simp
  have ok8: "\<forall>k<length ?vs. flat_ok (sync_sp m) (?p + 4 * of_nat k)" using ok1 len by (simp add: frame_ok_def)
  then obtain m' where m': "flat_word.st_seq (sync_sp m) ?p ?vs = Some m'"
    using flat_word.st_seq_laws [OF ok8] len by auto
  have xp: "entry_xpsr (cpu (sync_sp m)) exc = entry_xpsr (cpu m) exc"
    by (simp add: entry_xpsr_def)
  have "push_frame (sync_sp m) ?p (entry_xpsr (cpu m) exc) k = k m'" for k
    unfolding push_frame_list using m' ok1
    by (intro push_list_flat) (simp_all add: frame_of_def frame_ok_def)
  then have "exc_enter m exc = Some (enter_handler m' (on_psp (cpu m)) ?p exc)"
    unfolding exc_enter_def Let_def sp xp by simp
  moreover have "flat_read_ok m' (4 * to32 exc)"
    using flat_read_shape [OF st_seq_shape [OF ok8 m']] flat_read_regions(1) [of "sync_sp m" m] vec by simp
  moreover have "d_nvic m' = d_nvic m"
  proof -
    have "d_nvic m' = d_nvic (sync_sp m)"
      by (subst st_seq_frame [OF m' ok8]) simp
    then show ?thesis by (simp add: sync_sp_def)
  qed
  ultimately show ?thesis using enter_handler_returns by metis
qed

end
