(* ===== verification/Demo.thy ===== *)
theory Demo
  imports Board Exec_Laws Exc_Laws
begin

text \<open>
  A board with a three instruction firmware.  The theorems with hypotheses are applied to it,
  and to the machine it runs.  The float operations are never called by this firmware.
\<close>

definition demo_fpu :: float_ops where
  "demo_fpu = \<lparr>fp_add = (\<lambda>a b. 0), fp_sub = (\<lambda>a b. 0), fp_mul = (\<lambda>a b. 0), fp_div = (\<lambda>a b. 0),
     fp_fma = (\<lambda>a b c. 0), fp_sqrt = (\<lambda>a. 0), fp_lt = (\<lambda>a b. False), fp_eq = (\<lambda>a b. a = b),
     fp_to_i32 = (\<lambda>a. None), fp_of_i32 = (\<lambda>a. 0)\<rparr>"

text \<open>Vectors: SP = 0x20000100, reset = 8; then MOVS r0,#5; ADDS r0,#3; B .\<close>

definition demo_fw :: "u8 list" where
  "demo_fw = [0x00, 0x01, 0x00, 0x20, 0x09, 0x00, 0x00, 0x00, 0x05, 0x20, 0x03, 0x30, 0xFE, 0xE7]"

definition demo_new :: board_t where
  "demo_new = the (board_create demo_fpu ''generic-m4'')"

definition demo_board :: board_t where
  "demo_board = snd (board_flash demo_new demo_fw)"

definition demo_machine :: machine where
  "demo_machine = b_mach demo_board"

definition demo_rom :: region_t where
  "demo_rom = (flat_region ''flash'' 0 0x100000 False)\<lparr>buf := put_bytes (\<lambda>_. 0) 0 demo_fw\<rparr>"

lemma demo_profile: "board_profile_find ''generic-m4'' = Some \<lparr>pname = ''generic-m4'', flash_base = 0,
    flash_size = 0x100000, sram_base = 0x20000000, prof_sram_size = 0x40000, prof_core = CORE_M4\<rparr>"
  by (simp add: board_profile_find_def BOARDS_def)

lemma demo_rom_fields [simp]:
  "base demo_rom = 0" "rsize demo_rom = 0x100000" "kind demo_rom = REGION_FLAT" "\<not> writable demo_rom"
  "buf demo_rom = put_bytes (\<lambda>_. 0) 0 demo_fw"
  by (simp_all add: demo_rom_def)

lemma demo_new_facts:
  "regions (b_mach demo_new) = flat_region ''flash'' 0 0x100000 False #
     flat_region ''sram'' 0x20000000 0x40000 True # peripheral_map"
  "cpu (b_mach demo_new) = cpu_reset CORE_M4" "b_jit demo_new = None" "b_tt demo_new = None"
  "flash_base (b_prof demo_new) = 0"
  by (simp_all add: demo_new_def board_create_known [OF demo_profile] attach_all_regions)

lemma rom_read:
  assumes "regions m = demo_rom # rs" "a < 0x100000" "a + sz \<le> 0x100000"
  shows "bus_read m a sz = (Some (get_le (put_bytes (\<lambda>_. 0) 0 demo_fw) a (unat sz)), m)"
  using assms by (simp add: bus_read_def not_less)

lemma flash_cpu: "cpu_update (halted_update (\<lambda>_. False))
      (set_reg (set_reg (cpu_update (msp_update (\<lambda>_. 0x20000100)) m) REG_SP 0x20000100) REG_PC 8) =
    m\<lparr>cpu := (cpu m)\<lparr>halted := False, msp := 0x20000100, r_of := (r_of (cpu m))(REG_SP := 0x20000100, REG_PC := 8)\<rparr>\<rparr>"
  by (cases m) (simp add: fun_upd_def)

lemma demo_flashed:
  "fst (board_flash demo_new demo_fw)"
  "demo_machine = (b_mach demo_new)\<lparr>regions := demo_rom # flat_region ''sram'' 0x20000000 0x40000 True # peripheral_map,
     cpu := (cpu_reset CORE_M4)\<lparr>halted := False, msp := 0x20000100, r_of := (r_of (cpu_reset CORE_M4))(REG_SP := 0x20000100, REG_PC := 8)\<rparr>\<rparr>"
proof -
  let ?m = "(b_mach demo_new)\<lparr>regions := demo_rom # flat_region ''sram'' 0x20000000 0x40000 True # peripheral_map\<rparr>"
  have l: "bus_load_blob (b_mach demo_new) 0 demo_fw = (True, ?m)"
    by (simp add: bus_load_blob_def demo_new_facts demo_fw_def demo_rom_def)
  have r: "bus_r32 m 0 = (0x20000100, m)" "bus_r32 m 4 = (9, m)"
    if "regions m = demo_rom # flat_region ''sram'' 0x20000000 0x40000 True # peripheral_map" for m
    using rom_read [OF that] by (simp_all add: bus_r32_def demo_fw_def get_le_4)
  have "board_flash demo_new demo_fw = (True, demo_new\<lparr>b_mach := cpu_update (halted_update (\<lambda>_. False))
      (set_reg (set_reg (cpu_update (msp_update (\<lambda>_. 0x20000100)) ?m) REG_SP 0x20000100) REG_PC 8)\<rparr>)"
    using l r by (simp add: board_flash_def demo_new_facts demo_fw_def Let_def)
  moreover have "cpu_update (halted_update (\<lambda>_. False))
      (set_reg (set_reg (cpu_update (msp_update (\<lambda>_. 0x20000100)) ?m) REG_SP 0x20000100) REG_PC 8) =
    ?m\<lparr>cpu := (cpu_reset CORE_M4)\<lparr>halted := False, msp := 0x20000100, r_of := (r_of (cpu_reset CORE_M4))(REG_SP := 0x20000100, REG_PC := 8)\<rparr>\<rparr>"
    unfolding flash_cpu by (simp add: demo_new_facts)
  ultimately show "fst (board_flash demo_new demo_fw)"
    "demo_machine = ?m\<lparr>cpu := (cpu_reset CORE_M4)\<lparr>halted := False, msp := 0x20000100,
       r_of := (r_of (cpu_reset CORE_M4))(REG_SP := 0x20000100, REG_PC := 8)\<rparr>\<rparr>"
    by (simp_all add: demo_machine_def demo_board_def)
qed

lemma demo_regions: "regions demo_machine =
    demo_rom # flat_region ''sram'' 0x20000000 0x40000 True # peripheral_map"
  unfolding demo_flashed by simp

lemma demo_cpu:
  "reg demo_machine n = (if n = REG_PC then 8 else if n = REG_SP then 0x20000100 else 0)"
  "mode (cpu demo_machine) = MODE_THREAD" "apsr (cpu demo_machine) = 0" "\<not> halted (cpu demo_machine)"
  "cycles (cpu demo_machine) = 0" "primask (cpu demo_machine) = 0" "itstate (cpu demo_machine) = 0"
  "control (cpu demo_machine) = 0"
  unfolding demo_flashed by (simp_all add: cpu_reset_def)

lemma demo_flat:
  assumes "0x20000000 \<le> a" "a \<le> 0x2003FFFC"
  shows "flat_ok demo_machine a"
proof -
  have n: "\<not> a < 0x100000" using assms by (auto simp: word_less_nat_alt word_le_nat_alt)
  have l: "a < 0x20040000" "a - 0x20000000 + 4 \<le> 0x40000"
    using assms by (simp_all add: word_less_nat_alt word_le_nat_alt unat_sub_if' unat_word_ariths)
  show ?thesis using n l assms by (simp add: flat_ok_def demo_regions)
qed

lemma demo_frame: "frame_ok demo_machine 0x200000E0"
proof -
  have "flat_ok demo_machine (0x200000E0 + 4 * of_nat k)" if "k < 8" for k
  proof -
    have "k = 0 \<or> k = 1 \<or> k = 2 \<or> k = 3 \<or> k = 4 \<or> k = 5 \<or> k = 6 \<or> k = 7" using that by linarith
    then show ?thesis by (intro demo_flat) auto
  qed
  then show ?thesis by (simp add: frame_ok_def)
qed

lemma demo_vector: "flat_read_ok demo_machine 44"
  by (simp add: flat_read_ok_def demo_regions)

section \<open>Two steps of the firmware\<close>

lemma get_le_2: "get_le f p 2 = to32 (f p) OR push_bit 8 (to32 (f (p + 1)))"
  by (simp add: numeral_2_eq_2)

lemma demo_half: assumes "regions m = demo_rom # rs"
  shows "bus_r16 m 8 = (0x2005, m)" "bus_r16 m 10 = (0x3003, m)"
  using rom_read [OF assms, of 8 2] rom_read [OF assms, of 10 2]
  by (simp_all add: bus_r16_def demo_fw_def get_le_2)

lemma demo_decode: assumes "regions m = demo_rom # rs"
  shows "decode m 8 i0 = (2, i0\<lparr>iop := OP_MOV_IMM, ipc := 8, isize := 2, iraw := 0x2005, ird := 0, irn := 0, irm := 0,
     irs := 0, iimm := 5, icond := 0xE, ireg_list := 0\<rparr>, m)"
   "decode m 10 i0 = (2, i0\<lparr>iop := OP_ADD_IMM8, ipc := 10, isize := 2, iraw := 0x3003, ird := 0, irn := 0, irm := 0,
     irs := 0, iimm := 3, icond := 0xE, ireg_list := 0\<rparr>, m)"
  by (simp_all add: decode_def demo_half [OF assms] is_t32_def decode_thumb16_def set_undef_def Let_def)


text \<open>What both instructions leave of the processor.\<close>

definition stepped :: "cpu_t \<Rightarrow> u32 \<Rightarrow> cpu_t \<Rightarrow> bool" where
  "stepped c v c' \<longleftrightarrow> r_of c' = (r_of c)(0 := v, REG_PC := r_of c REG_PC + 2) \<and> cycles c' = cycles c + 1 \<and>
     itstate c' = 0 \<and> mode c' = mode c \<and> primask c' = primask c \<and> basepri c' = basepri c \<and> halted c' = halted c"

lemma demo_exec:
  assumes "ird i = 0" "irn i = 0" "isize i = 2" "itstate (cpu m) = 0"
  shows "iop i = OP_MOV_IMM \<Longrightarrow> \<exists>f. execute m i = Some (True, cpu_update f m) \<and> stepped (cpu m) (iimm i) (f (cpu m))"
    "iop i = OP_ADD_IMM8 \<Longrightarrow> \<exists>f. execute m i = Some (True, cpu_update f m) \<and> stepped (cpu m) (reg m 0 + iimm i) (f (cpu m))"
proof -
  note d = execute_def cpu_in_it_def exec_switch_def exec_dp1_def Let_def comp_def
  note e = stepped_def exec_finish_def retire_def Let_def
  let ?fin = "exec_finish False (apsr (cpu m)) (iop i) (reg m REG_PC + 2)"
  let ?f = "\<lambda>c. ?fin (cpu_set_flags_nz (r_of_update (\<lambda>g. g(0 := iimm i)) c) (iimm i))"
  let ?g = "\<lambda>c. ?fin (cpu_set_flags_nzcv_add (r_of_update (\<lambda>g. g(0 := reg m 0 + iimm i)) c) (reg m 0) (iimm i)
        (reg m 0 + iimm i) False)"
  show "\<exists>f. execute m i = Some (True, cpu_update f m) \<and> stepped (cpu m) (iimm i) (f (cpu m))" if "iop i = OP_MOV_IMM"
  proof -
    have "execute m i = Some (True, cpu_update ?f m)" using assms that by (simp add: d)
    moreover have "stepped (cpu m) (iimm i) (?f (cpu m))"
      using assms(4) by (simp add: e cpu_set_flags_nz_def)
    ultimately show ?thesis by blast
  qed
  show "\<exists>f. execute m i = Some (True, cpu_update f m) \<and> stepped (cpu m) (reg m 0 + iimm i) (f (cpu m))" if "iop i = OP_ADD_IMM8"
  proof -
    have "execute m i = Some (True, cpu_update ?g m)" using assms that by (simp add: d)
    moreover have "stepped (cpu m) (reg m 0 + iimm i) (?g (cpu m))"
      using assms(4) by (simp add: e cpu_set_flags_nzcv_add_def)
    ultimately show ?thesis by blast
  qed
qed

text \<open>With nothing enabled no interrupt is picked, and a disabled SysTick stays as it is.\<close>

lemma no_irq_ready: "nv_enable n = (\<lambda>_. 0) \<Longrightarrow> nvic_pick n = Some None"
proof -
  assume "nv_enable n = (\<lambda>_. 0)"
  then have "ready_lines n = []" by (simp add: ready_lines_def nvic_ready_def)
  then show ?thesis by (simp add: nvic_pick_def)
qed

definition demo_host :: x86_host where
  "demo_host = \<lparr>at_cpu = 0x10000, at_bus = 0x20000, at_sram = 0x1000000, at_rsp = 0x30008, at_bus_read = 0x40000,
     at_bus_write = 0x40100, realigns = True, entry = (\<lambda>r. to64 r), below = (\<lambda>_ _. 0), af_pf = (\<lambda>_. 0), leaves = (\<lambda>s. s)\<rparr>"

definition demo_ctx :: run_ctx_t where
  "demo_ctx = \<lparr>with_st = True, with_scb = True, with_dwt = True, with_nvic = True,
     host = demo_host, stack_insn =
     \<lparr>iop = OP_UNDEFINED, ipc = 0, isize = 0, ird = 0, irn = 0, irm = 0, irs = 0, iimm = 0, iraw = 0, icond = 0,
      ireg_list = 0, iset_flags = False, iwriteback = False, iadd = False, iindex = False,
      ishift_type = 0, ishift_n = 0, iit_mask = 0, iit_first = 0, isd = 0, isn = 0, ism = 0\<rparr>\<rparr>"

definition quiet :: "machine \<Rightarrow> bool" where
  "quiet m \<longleftrightarrow> (\<exists>rs. regions m = demo_rom # rs) \<and> csr (d_st m) = 0 \<and> \<not> irq_pending (d_st m) \<and>
     \<not> pendsv_pending (d_scb m) \<and> nv_enable (d_nvic m) = (\<lambda>_. 0) \<and> \<not> halted (cpu m) \<and>
     mode (cpu m) = MODE_THREAD \<and> primask (cpu m) = 0 \<and> basepri (cpu m) = 0 \<and> itstate (cpu m) = 0"

lemma quiet_step:
  assumes q: "quiet (mach s)" and j: "jit s = None"
    and miss: "\<not> dvalid (dcache s (dcache_idx (reg (mach s) REG_PC)))"
    and d: "decode (mach s) (reg (mach s) REG_PC) (stack_insn demo_ctx) = (sz, i, mach s)"
    and e: "execute (mach s) i = Some (True, cpu_update f (mach s))" and st: "stepped (cpu (mach s)) v (f (cpu (mach s)))"
  shows "\<exists>e. run_iter (demo_ctx\<lparr>with_nvic := b\<rparr>) n s = Some (Went 0 (s\<lparr>dcache := (dcache s)(dcache_idx (reg (mach s) REG_PC) := e),
      mach := (cpu_update f (mach s))\<lparr>d_dwt := dwt_tick (d_dwt (mach s))\<rparr>\<rparr>))"
    "quiet ((cpu_update f (mach s))\<lparr>d_dwt := x\<rparr>)"
proof -
  let ?m = "(cpu_update f (mach s))\<lparr>d_dwt := dwt_tick (d_dwt (mach s))\<rparr>"
  have t: "tick_one (demo_ctx\<lparr>with_nvic := b\<rparr>) (cpu_update f (mach s)) = ?m"
    using q by (simp add: tick_one_def demo_ctx_def quiet_def systick_tick_def)
  show q2: "quiet ((cpu_update f (mach s))\<lparr>d_dwt := x\<rparr>)" for x using q st by (simp add: quiet_def stepped_def)
  have c: "check_irqs (demo_ctx\<lparr>with_nvic := b\<rparr>) ?m = Some ?m"
    using q st by (simp add: check_irqs_def demo_ctx_def quiet_def stepped_def no_irq_ready)
  show "\<exists>e. run_iter (demo_ctx\<lparr>with_nvic := b\<rparr>) n s = Some (Went 0 (s\<lparr>dcache := (dcache s)(dcache_idx (reg (mach s) REG_PC) := e), mach := ?m\<rparr>))"
    using miss d e t c by (auto simp: run_iter_def try_chain_def j step_one_def cache_decode_def Let_def)
qed

definition demo_run :: run_t where
  "demo_run = \<lparr>mach = demo_machine, jit = None, dcache = (\<lambda>_. \<lparr>dtag = 0, dins = stack_insn demo_ctx, dvalid = False\<rparr>)\<rparr>"

lemma demo_new_devices:
  "d_st (b_mach demo_new) = systick_init" "d_scb (b_mach demo_new) = scb_init\<lparr>scb_ctx := True\<rparr>"
  "d_nvic (b_mach demo_new) = nvic_init" "d_dwt (b_mach demo_new) = dwt_init"
  by (simp_all add: demo_new_def board_create_known [OF demo_profile] attach_all_def uart_attach_def systick_attach_def
      scb_attach_def mpu_attach_def stm32_attach_def dwt_attach_def nvic_attach_def eth_attach_def Let_def)

lemma demo_quiet: "quiet demo_machine"
  unfolding quiet_def demo_flashed
  by (simp add: cpu_reset_def demo_new_devices systick_init_def scb_init_def nvic_init_def)

text \<open>Two steps from the first instruction.\<close>

lemma quiet_runs:
  assumes q: "quiet (mach s)" and j: "jit s = None" and pc: "reg (mach s) REG_PC = 8"
  shows "\<exists>s'. run_steps_full_gc (demo_ctx\<lparr>with_nvic := b\<rparr>) s 2 = Some (2, s') \<and> reg (mach s') 0 = 8 \<and> reg (mach s') REG_PC = 12 \<and>
     cycles (cpu (mach s')) = cycles (cpu (mach s)) + 2"
proof -
  let ?i0 = "stack_insn demo_ctx" and ?d = "dcache_invalidate (stack_insn demo_ctx)"
  define s0 where "s0 = s\<lparr>dcache := ?d\<rparr>"
  have m0: "mach s0 = mach s" "jit s0 = None" "dcache s0 = ?d" by (simp_all add: s0_def j)
  obtain rs where r0: "regions (mach s0) = demo_rom # rs" using q m0 by (auto simp: quiet_def)
  have pc0: "reg (mach s0) REG_PC = 8" "itstate (cpu (mach s0)) = 0" using pc q m0 by (simp_all add: quiet_def)
  note D = demo_decode(1) [OF r0, of ?i0]
  obtain f where f: "execute (mach s0) (fst (snd (decode (mach s0) 8 ?i0))) = Some (True, cpu_update f (mach s0))"
    "stepped (cpu (mach s0)) 5 (f (cpu (mach s0)))"
    using demo_exec(1) [of "fst (snd (decode (mach s0) 8 ?i0))" "mach s0"] pc0 unfolding D by auto
  obtain e1 where e1: "run_iter (demo_ctx\<lparr>with_nvic := b\<rparr>) 2 s0 = Some (Went 0 (s0\<lparr>dcache := (dcache s0)(dcache_idx 8 := e1),
      mach := (cpu_update f (mach s0))\<lparr>d_dwt := dwt_tick (d_dwt (mach s0))\<rparr>\<rparr>))"
    using quiet_step(1) [of s0 2 "fst (snd (decode (mach s0) 8 ?i0))" f 5 b 2] f D q m0 pc0
    by (auto simp: dcache_invalidate_def)
  define s1 where "s1 = s0\<lparr>dcache := (dcache s0)(dcache_idx 8 := e1),
      mach := (cpu_update f (mach s0))\<lparr>d_dwt := dwt_tick (d_dwt (mach s0))\<rparr>\<rparr>"
  have m1: "quiet (mach s1)" "jit s1 = None" "regions (mach s1) = demo_rom # rs" "cpu (mach s1) = f (cpu (mach s0))"
    using quiet_step(2) [of s0 2 "fst (snd (decode (mach s0) 8 ?i0))" f 5] f D q m0 pc0 r0
    by (auto simp: s1_def dcache_invalidate_def)
  have pc1: "reg (mach s1) REG_PC = 10" "reg (mach s1) 0 = 5" "cycles (cpu (mach s1)) = cycles (cpu (mach s)) + 1"
    using f(2) pc0 m0 unfolding m1(4) stepped_def by simp_all
  note E = demo_decode(2) [OF m1(3), of ?i0]
  obtain g where g: "execute (mach s1) (fst (snd (decode (mach s1) 10 ?i0))) = Some (True, cpu_update g (mach s1))"
    "stepped (cpu (mach s1)) 8 (g (cpu (mach s1)))"
    using demo_exec(2) [of "fst (snd (decode (mach s1) 10 ?i0))" "mach s1"] m1 pc1 unfolding E quiet_def by auto
  have miss: "\<not> dvalid (dcache s1 (dcache_idx 10))"
    using m0 by (simp add: s1_def dcache_invalidate_def dcache_idx_def)
  obtain e2 where e2: "run_iter (demo_ctx\<lparr>with_nvic := b\<rparr>) 1 s1 = Some (Went 0 (s1\<lparr>dcache := (dcache s1)(dcache_idx 10 := e2),
      mach := (cpu_update g (mach s1))\<lparr>d_dwt := dwt_tick (d_dwt (mach s1))\<rparr>\<rparr>))"
    using quiet_step(1) [of s1 2 "fst (snd (decode (mach s1) 10 ?i0))" g 8 b 1] g E m1 pc1 miss by auto
  let ?s2 = "s1\<lparr>dcache := (dcache s1)(dcache_idx 10 := e2),
      mach := (cpu_update g (mach s1))\<lparr>d_dwt := dwt_tick (d_dwt (mach s1))\<rparr>\<rparr>"
  have h: "\<not> halted (cpu (mach s0))" "\<not> halted (cpu (mach s1))" using q m0 m1 by (simp_all add: quiet_def)
  have "run_loop (demo_ctx\<lparr>with_nvic := b\<rparr>) 2 s0 = Some (2, ?s2)"
    using h e1 e2 by (simp add: run_loop.simps [of _ 2] run_loop.simps [of _ "Suc 0"] run_loop.simps [of _ 0] s1_def [symmetric])
  then have "run_steps_full_gc (demo_ctx\<lparr>with_nvic := b\<rparr>) s 2 = Some (2, ?s2)"
    by (simp add: run_steps_full_gc_def s0_def)
  moreover have "reg (mach ?s2) 0 = 8" "reg (mach ?s2) REG_PC = 12" "cycles (cpu (mach ?s2)) = cycles (cpu (mach s)) + 2"
    using g(2) pc1 unfolding stepped_def by simp_all
  ultimately show ?thesis by blast
qed

lemma demo_runs:
  "\<exists>s. run_steps_full_gc demo_ctx demo_run 2 = Some (2, s) \<and> reg (mach s) 0 = 8 \<and> reg (mach s) REG_PC = 12 \<and>
     cycles (cpu (mach s)) = 2"
proof -
  have "demo_ctx\<lparr>with_nvic := True\<rparr> = demo_ctx" by (simp add: demo_ctx_def)
  then show ?thesis using quiet_runs [of demo_run True] demo_quiet demo_cpu(1,5) by (simp add: demo_run_def)
qed

end
