(* ===== verification/X86_Keeps.thy ===== *)
theory X86_Keeps
  imports X86 Bus_Laws
begin

text \<open>
  What no code can break, whatever its bytes are: emitted code reaches the machine through the
  registers, the APSR and the halt flag of \<^verbatim>\<open>cpu_t\<close>, the buffer of the flat region at
  0x20000000 and the two bus functions only.
\<close>

locale x86_preorder = machine_preorder +
  assumes R_put_sram: "bus_find_flat (regions m) SRAM_BASE = Some k \<Longrightarrow> R m (put_flat m k off sz v)"
begin

abbreviation Rs :: "xstate \<Rightarrow> xstate \<Rightarrow> bool" where
  "Rs s s' \<equiv> R (mem s) (mem s')"

lemma store_R: "store32 h s a v = Some s' \<Longrightarrow> Rs s s'" "store8 h s a b = Some s' \<Longrightarrow> Rs s s'"
  by (auto simp: store32_def store8_def sram_slot_def Let_def R_cpu R_put_sram split: if_splits option.splits)

lemma put_R: "put8 h s d b = Some s' \<Longrightarrow> Rs s s'" "put32 h s d v = Some s' \<Longrightarrow> Rs s s'" "put64 s d w = Some s' \<Longrightarrow> Rs s s'"
  by (cases d; auto simp: set_gp_def R_refl dest: store_R split: if_splits)+

lemma flags_mem [simp]: "mem (alu_flags op a b s) = mem s" "mem (shift_flags h x c s) = mem s" "mem (set_gp r v s) = mem s"
  by (simp_all add: alu_flags_def shift_flags_def set_gp_def)

lemma alu_step_R: "alu_step h s w op d src = Some s' \<Longrightarrow> Rs s s'"
  by (auto simp: alu_step_def Let_def R_refl dest!: put_R split: wd.splits bind_splits sum.splits if_splits)

lemma call_bus_R: "call_bus h s f = Some s' \<Longrightarrow> Rs s s'"
  using bus_read_R [of "mem s"]
  by (auto simp: call_bus_def returned_def Let_def case_prod_unfold dest: bus_write_R split: if_splits option.splits bind_splits)

lemma x86_step_R: "x86_step h i s = Some s' \<Longrightarrow> Rs s s'"
proof (cases i)
  case (Lea r x)
  then show "x86_step h i s = Some s' \<Longrightarrow> Rs s s'" by (cases x) (auto simp: R_refl split: if_splits)
qed (auto simp: Let_def R_refl rsp_step_def dest!: put_R alu_step_R call_bus_R split: wd.splits bind_splits if_splits list.splits)

lemma x86_run_R: "x86_run h bs s = Some s' \<Longrightarrow> Rs s s'"
proof (induction h bs s rule: x86_run.induct)
  case (1 h bs s)
  obtain i rest where d: "x86_decode bs = Some (i, rest)"
    using "1.prems" by (subst (asm) x86_run.simps) (auto split: option.splits)
  note IH = "1.IH" [OF d refl]
  show ?case
  proof (cases "i = RetN \<or> (\<exists>k. i = Jmp k) \<or> (\<exists>c k. i = Jcc c k)")
    case True
    then show ?thesis
      using "1.prems" d IH by (subst (asm) x86_run.simps) (auto simp: R_refl split: if_splits)
  next
    case False
    then obtain s1 where s1: "x86_step h i s = Some s1" "x86_run h rest s1 = Some s'"
      using "1.prems" d by (subst (asm) x86_run.simps) (auto split: x86.splits option.splits)
    have "Rs s1 s'" using IH s1 False by (cases i) auto
    then show ?thesis using x86_step_R [OF s1(1)] R_trans by blast
  qed
qed

lemma x86_call_R: "x86_call h bs m = Some (b, m') \<Longrightarrow> R m m'"
  by (auto simp: x86_call_def Let_def dest!: x86_run_R split: bind_splits if_splits)

end

end
