(* ===== verification/Run_Laws.thy ===== *)
theory Run_Laws
  imports Run Exec_Laws X86_Keeps
begin

text \<open>
  Laws of the run loop: it keeps what single instructions keep, it takes no more steps than
  it was given, and the clock advances by at most the steps it reports.
\<close>

section \<open>Relations kept by the block cache and the loop\<close>

context machine_preorder
begin

lemma bus_r16_R: "R m0 m \<Longrightarrow> R m0 (snd (bus_r16 m a))"
  using bus_read_R [of m a 2] by (auto simp: bus_r16_def Let_def case_prod_unfold intro: R_trans)

lemma decode_R: "R m0 m \<Longrightarrow> R m0 (snd (snd (decode m pc i0)))"
  by (simp add: decode_def Let_def case_prod_unfold bus_r16_R)

lemma cache_decode_R: "R m0 m \<Longrightarrow> R m0 (snd (snd (cache_decode d m pc i0)))"
  by (simp add: cache_decode_def Let_def case_prod_unfold decode_R)

lemma compile_loop_R: "R m0 m \<Longrightarrow> R m0 (snd (snd (compile_loop n m cur i0)))"
proof (induction n arbitrary: m cur)
  case (Suc n)
  then show ?case using decode_R [OF Suc.prems] by (simp add: Let_def case_prod_unfold)
qed simp

lemma compile_block_R: "R m0 m \<Longrightarrow> R m0 (snd (snd (compile_block h j m pc i0)))"
  by (simp add: compile_block_def Let_def case_prod_unfold compile_loop_R)

end

text \<open>The machine that an iteration leaves behind.\<close>

fun iter_mach :: "iter \<Rightarrow> machine" where
  "iter_mach (Stop s) = mach s"
| "iter_mach (Went k s) = mach s"

context run_preorder
begin

lemma interp_block_keeps: "interp_block is m = Some (k, m') \<Longrightarrow> R m m'"
proof (induction "is" arbitrary: m k)
  case (Cons i "is")
  show ?case
  proof (cases "halted (cpu m)")
    case False
    then obtain ok m1 where e: "execute (set_reg m REG_PC (ipc i)) i = Some (ok, m1)"
      using Cons.prems by (auto split: bind_splits)
    then have "R m m1" using execute_keeps R_any_cpu by (blast intro: R_trans)
    then show ?thesis
      using Cons e False by (auto split: if_splits bind_splits intro: R_trans)
  qed (use Cons.prems R_refl in auto)
qed (simp add: R_refl)

lemma check_irqs_keeps:
  assumes "check_irqs ctx m = Some m'" "R m0 m"
  shows "R m0 m'"
proof -
  have e: "R m0 m'" if "enter_ignored m1 x = Some m'" "R m0 m1" for m1 x
    using that exc_enter_R by (auto simp: enter_ignored_def)
  show ?thesis
    using assms
    by (auto simp: check_irqs_def Let_def split: if_splits bind_splits option.splits
        elim!: e intro: timers_R R_upd)
qed

lemma ticks_R: "R m0 m \<Longrightarrow> R m0 (tick_one ctx m)" "R m0 m \<Longrightarrow> R m0 (tick_batch ctx k m)"
  by (simp_all add: tick_one_def tick_batch_def Let_def timers_R)

lemma step_one_keeps:
  assumes "step_one ctx s = Some x"
  shows "R (mach s) (iter_mach x)"
proof -
  let ?d = "cache_decode (dcache s) (mach s) (reg (mach s) REG_PC) (stack_insn ctx)"
  have d: "R (mach s) (snd (snd ?d))" by (rule cache_decode_R [OF R_refl])
  show ?thesis
  proof (cases "execute (snd (snd ?d)) (fst ?d)")
    case None
    then show ?thesis using assms by (simp add: step_one_def Let_def case_prod_unfold)
  next
    case (Some y)
    obtain ok m1 where y: "y = (ok, m1)" by (cases y)
    then have m1: "R (mach s) m1" using d execute_keeps Some by (blast intro: R_trans)
    then show ?thesis
      using assms Some y
      by (cases ok; cases "check_irqs ctx (tick_one ctx m1)")
        (auto simp: step_one_def Let_def case_prod_unfold intro: check_irqs_keeps ticks_R)
  qed
qed

end

locale run_x86_preorder = run_preorder + x86_preorder
begin

lemma run_block_keeps:
  assumes "run_block h j bk m = Some (k, j', m')"
  shows "R m m'"
proof -
  obtain s j1 m1 where s: "(case native bk of
               Some code \<Rightarrow>
                 do { (ok, m1) \<leftarrow> x86_call h code m;
                      if ok then (let k = length (ins bk) in
                        Some (k, j\<lparr>native_steps := native_steps j + of_nat k\<rparr>, m1))
                      else Some (0, j, m1) }
             | None \<Rightarrow> Some (0, j, m)) = Some (s, j1, m1)"
    and r: "(if s = 0 then interp_block (ins bk) m1 else Some (s, m1)) = Some (k, m')"
    using assms by (auto simp: run_block_def split: bind_splits)
  have "R m m1" using s x86_call_R by (auto simp: R_refl Let_def split: if_splits bind_splits option.splits)
  then show ?thesis using r interp_block_keeps by (auto split: if_splits intro: R_trans)
qed

lemma jit_run_keeps: "jit_run h i0 j m = Some (k, j', m') \<Longrightarrow> R m m'"
  by (auto simp: jit_run_def Let_def case_prod_unfold R_refl
      intro: R_trans [OF compile_block_R [OF R_refl]] dest!: run_block_keeps split: if_splits)

lemma jit_run_chained_keeps:
  "jit_run_chained h i0 j m n stop = Some (k, j', m') \<Longrightarrow> R m m'"
proof (induction h i0 j m n stop arbitrary: k rule: jit_run_chained.induct)
  case (1 h i0 j m n stop)
  show ?case
  proof (cases "halted (cpu m) \<or> n = 0 \<or> n < 32 \<or> stop m")
    case True
    then show ?thesis using "1.prems" by (subst (asm) jit_run_chained.simps) (auto simp: R_refl split: if_splits)
  next
    case False
    then obtain k1 j1 m1 where j: "jit_run h i0 j m = Some (k1, j1, m1)"
      using "1.prems" by (subst (asm) jit_run_chained.simps) (auto split: option.splits)
    have m1: "R m m1" by (rule jit_run_keeps [OF j])
    show ?thesis
    proof (cases "k1 = 0")
      case True
      then show ?thesis using "1.prems" False j m1 by (subst (asm) jit_run_chained.simps) auto
    next
      case k1: False
      then obtain k2 where "jit_run_chained h i0 j1 m1 (n - k1) stop = Some (k2, j', m')"
        using "1.prems" False j by (subst (asm) jit_run_chained.simps) (auto split: option.splits)
      then have "R m1 m'" using "1.IH" [OF _ _ _ j refl refl k1] False by blast
      with m1 show ?thesis by (rule R_trans)
    qed
  qed
qed

lemma run_iter_keeps:
  assumes "run_iter ctx left s = Some x"
  shows "R (mach s) (iter_mach x)"
proof -
  obtain k s1 where t: "try_chain ctx s left = Some (k, s1)"
    and x: "(if k > 0 then do { m2 \<leftarrow> check_irqs ctx (tick_batch ctx k (mach s1));
                 Some (Went (k - 1) (s1\<lparr>mach := m2\<rparr>)) } else step_one ctx s1) = Some x"
    using assms by (auto simp: run_iter_def split: bind_splits)
  have 1: "R (mach s) (mach s1)"
    using t by (auto simp: try_chain_def R_refl split: option.splits bind_splits
        dest: jit_run_chained_keeps)
  show ?thesis
  proof (cases "k > 0")
    case True
    then show ?thesis using x 1 by (auto split: bind_splits dest!: check_irqs_keeps intro: ticks_R)
  next
    case False
    then show ?thesis using x step_one_keeps [of ctx s1 x] 1 by (auto intro: R_trans)
  qed
qed

lemma run_loop_keeps:
  "run_loop ctx left s = Some (n, s') \<Longrightarrow> R (mach s) (mach s')"
proof (induction ctx left s arbitrary: n rule: run_loop.induct)
  case (1 ctx left s)
  show ?case
  proof (cases "left = 0 \<or> halted (cpu (mach s))")
    case True
    then show ?thesis using "1.prems" by (subst (asm) run_loop.simps) (auto simp: R_refl)
  next
    case False
    then obtain x where x: "run_iter ctx left s = Some x"
      using "1.prems" by (subst (asm) run_loop.simps) (auto split: option.splits)
    note r = run_iter_keeps [OF x]
    show ?thesis
    proof (cases x)
      case (Stop s1)
      then show ?thesis using "1.prems" False x r by (subst (asm) run_loop.simps) auto
    next
      case (Went extra s1)
      then obtain n1 where "run_loop ctx (left - Suc extra) s1 = Some (n1, s')"
        using "1.prems" False x by (subst (asm) run_loop.simps) (auto split: option.splits)
      then have "R (mach s1) (mach s')" using "1.IH" [OF _ x] False Went by blast
      then show ?thesis using r Went by (auto intro: R_trans)
    qed
  qed
qed

lemma run_steps_keeps:
  assumes "run_steps_full_gc ctx s k = Some (n, s')"
  shows "R (mach s) (mach s')"
proof -
  obtain n1 where "run_loop ctx (unat k) (s\<lparr>dcache := dcache_invalidate (stack_insn ctx)\<rparr>) = Some (n1, s')"
    using assms by (auto simp: run_steps_full_gc_def split: bind_splits)
  from run_loop_keeps [OF this] show ?thesis by simp
qed

end

section \<open>Budgets\<close>

definition jit_ok :: "jit_t \<Rightarrow> bool" where
  "jit_ok j \<longleftrightarrow> (\<forall>k. length (ins (blocks j k)) \<le> JIT_MAX_BLOCK_LEN)"

lemma jit_ok_init: "jit_ok jit_init"
  by (simp add: jit_ok_def jit_init_def empty_block_def)

lemma compile_loop_len: "length (fst (compile_loop n m cur i0)) \<le> n"
proof (induction n arbitrary: m cur)
  case (Suc n)
  show ?case using Suc.IH by (simp add: Let_def case_prod_unfold)
qed simp

lemma compile_block_ok: "jit_ok j \<Longrightarrow> jit_ok (fst (snd (compile_block h j m pc i0)))"
  using compile_loop_len [of JIT_MAX_BLOCK_LEN m pc i0]
  by (simp add: compile_block_def Let_def case_prod_unfold jit_ok_def install_def jit_flush_def)

lemma interp_block_len: "interp_block is m = Some (k, m') \<Longrightarrow> k \<le> length is"
proof (induction "is" arbitrary: m k)
  case (Cons i "is")
  then show ?case by (fastforce split: if_splits bind_splits)
qed simp

lemma run_block_ok:
  assumes "jit_ok j" "length (ins bk) \<le> JIT_MAX_BLOCK_LEN" "run_block h j bk m = Some (k, j', m')"
  shows "k \<le> JIT_MAX_BLOCK_LEN \<and> jit_ok j'"
proof -
  obtain s j1 m1 where s: "(case native bk of
               Some code \<Rightarrow>
                 do { (ok, m1) \<leftarrow> x86_call h code m;
                      if ok then (let k = length (ins bk) in
                        Some (k, j\<lparr>native_steps := native_steps j + of_nat k\<rparr>, m1))
                      else Some (0, j, m1) }
             | None \<Rightarrow> Some (0, j, m)) = Some (s, j1, m1)"
    and r: "(if s = 0 then interp_block (ins bk) m1 else Some (s, m1)) = Some (k, m')"
    and j': "j' = j1\<lparr>jit_steps := jit_steps j1 + of_nat k\<rparr>"
    using assms(3) by (auto simp: run_block_def split: bind_splits)
  have "s \<le> length (ins bk)" "blocks j1 = blocks j"
    using s by (auto simp: Let_def split: if_splits bind_splits option.splits)
  moreover have "k \<le> length (ins bk)" using r interp_block_len calculation(1) by (auto split: if_splits)
  ultimately show ?thesis using assms(1,2) j' by (simp add: jit_ok_def)
qed

lemma jit_run_ok:
  assumes "jit_ok j" "jit_run h i0 j m = Some (k, j', m')"
  shows "k \<le> JIT_MAX_BLOCK_LEN \<and> jit_ok j'"
proof -
  have len: "length (ins (blocks g x)) \<le> JIT_MAX_BLOCK_LEN" if "jit_ok g" for g x
    using that by (simp add: jit_ok_def)
  have b: "k \<le> JIT_MAX_BLOCK_LEN \<and> jit_ok j'" if "run_block h g (blocks g x) n = Some (k, j', m')" "jit_ok g" for g x n
    using run_block_ok [OF that(2) len [OF that(2)] that(1)] .
  show ?thesis
    using assms
    by (auto simp: jit_run_def Let_def case_prod_unfold jit_ok_def [of "lookup_pc_update f g" for f g]
        jit_ok_def [of "counters_update f g" for f g] split: if_splits
        intro!: b compile_block_ok, auto simp: jit_ok_def)
qed

lemma jit_run_chained_ok:
  "jit_ok j \<Longrightarrow> jit_run_chained h i0 j m n stop = Some (k, j', m') \<Longrightarrow> k \<le> n \<and> jit_ok j'"
proof (induction h i0 j m n stop arbitrary: k rule: jit_run_chained.induct)
  case (1 h i0 j m n stop)
  show ?case
  proof (cases "halted (cpu m) \<or> n = 0 \<or> n < 32 \<or> stop m")
    case True
    then show ?thesis using "1.prems" by (subst (asm) jit_run_chained.simps) (auto split: if_splits)
  next
    case False
    then obtain k1 j1 m1 where j: "jit_run h i0 j m = Some (k1, j1, m1)"
      using "1.prems"(2) by (subst (asm) jit_run_chained.simps) (auto split: option.splits)
    note j1 = jit_run_ok [OF "1.prems"(1) j]
    show ?thesis
    proof (cases "k1 = 0")
      case True
      then show ?thesis using "1.prems"(2) False j j1 by (subst (asm) jit_run_chained.simps) auto
    next
      case k1: False
      then obtain k2 where k2: "jit_run_chained h i0 j1 m1 (n - k1) stop = Some (k2, j', m')" "k = k1 + k2"
        using "1.prems"(2) False j by (subst (asm) jit_run_chained.simps) (auto split: option.splits)
      then have "k2 \<le> n - k1 \<and> jit_ok j'" using "1.IH" [OF _ _ _ j refl refl k1] False j1 by blast
      then show ?thesis using k2(2) j1 False by auto
    qed
  qed
qed

lemma budget_le: "irq_safe_budget st scb rem \<le> rem"
  by (auto simp: irq_safe_budget_def Let_def split: option.splits)

lemma budget_timer:
  assumes "csr t AND 1 \<noteq> 0" "csr t AND 2 \<noteq> 0" "rvr t \<noteq> 0"
  shows "unat (irq_safe_budget (Some t) scb rem) \<le> unat (if cvr t = 0 then rvr t else cvr t)"
proof -
  let ?c = "if cvr t = 0 then rvr t else cvr t"
  have "?c \<noteq> 0" using assms(3) by simp
  then have "irq_safe_budget (Some t) scb rem \<le> to64 ?c"
    using assms(1,2) by (auto simp: irq_safe_budget_def Let_def split: option.splits)
  then show ?thesis unfolding word_le_nat_alt unat_to64 .
qed

lemma chain_budget_le:
  assumes "left < 2 ^ 64"
  shows "chain_budget ctx m left \<le> left"
proof -
  have "unat (of_nat left :: u64) = left" using assms by (simp add: unsigned_of_nat take_bit_nat_eq_self)
  then show ?thesis
    using budget_le [of _ _ "of_nat left :: u64"] unfolding chain_budget_def word_le_nat_alt by simp
qed

definition run_ok :: "run_t \<Rightarrow> bool" where
  "run_ok s \<longleftrightarrow> (case jit s of None \<Rightarrow> True | Some j \<Rightarrow> jit_ok j)"

lemma run_iter_count:
  assumes "run_ok s" "left < 2 ^ 64" "0 < left" "run_iter ctx left s = Some x"
  shows "case x of Stop s1 \<Rightarrow> run_ok s1 | Went extra s1 \<Rightarrow> run_ok s1 \<and> Suc extra \<le> left"
proof -
  obtain k s1 where t: "try_chain ctx s left = Some (k, s1)"
    and x: "(if k > 0 then do { m2 \<leftarrow> check_irqs ctx (tick_batch ctx k (mach s1));
                 Some (Went (k - 1) (s1\<lparr>mach := m2\<rparr>)) } else step_one ctx s1) = Some x"
    using assms(4) by (auto simp: run_iter_def split: bind_splits)
  have s1: "run_ok s1 \<and> k \<le> left"
  proof (cases "jit s")
    case None
    then show ?thesis using t assms(1) by (auto simp: try_chain_def)
  next
    case (Some j)
    then obtain j1 m1 where c: "jit_run_chained (host ctx) (stack_insn ctx) j (mach s)
        (chain_budget ctx (mach s) left) (stop_flag ctx) = Some (k, j1, m1)"
      and s1: "s1 = s\<lparr>jit := Some j1, mach := m1\<rparr>"
      using t by (auto simp: try_chain_def split: bind_splits)
    have "jit_ok j" using assms(1) Some by (simp add: run_ok_def)
    from jit_run_chained_ok [OF this c] show ?thesis
      using chain_budget_le [OF assms(2), of ctx "mach s"] s1 by (simp add: run_ok_def)
  qed
  show ?thesis
  proof (cases "k > 0")
    case True
    then show ?thesis using x s1 by (auto simp: run_ok_def split: bind_splits)
  next
    case False
    have keep: "run_ok (s1\<lparr>dcache := d, mach := m\<rparr>)" for d m using s1 by (simp add: run_ok_def)
    show ?thesis
      using x False assms(3)
      by (auto simp: step_one_def Let_def case_prod_unfold keep split: if_splits bind_splits)
  qed
qed

lemma run_loop_count:
  "run_ok s \<Longrightarrow> left < 2 ^ 64 \<Longrightarrow> run_loop ctx left s = Some (n, s') \<Longrightarrow> n \<le> left \<and> run_ok s'"
proof (induction ctx left s arbitrary: n rule: run_loop.induct)
  case (1 ctx left s)
  show ?case
  proof (cases "left = 0 \<or> halted (cpu (mach s))")
    case True
    then show ?thesis using "1.prems" by (subst (asm) run_loop.simps) auto
  next
    case False
    then obtain x where x: "run_iter ctx left s = Some x"
      using "1.prems"(3) by (subst (asm) run_loop.simps) (auto split: option.splits)
    have r: "case x of Stop s1 \<Rightarrow> run_ok s1 | Went extra s1 \<Rightarrow> run_ok s1 \<and> Suc extra \<le> left"
      using run_iter_count [OF "1.prems"(1,2) _ x] False by simp
    show ?thesis
    proof (cases x)
      case (Stop s1)
      then show ?thesis using "1.prems"(3) False x r by (subst (asm) run_loop.simps) auto
    next
      case (Went extra s1)
      then obtain n1 where n1: "run_loop ctx (left - Suc extra) s1 = Some (n1, s')" "n = Suc extra + n1"
        using "1.prems"(3) False x by (subst (asm) run_loop.simps) (auto split: option.splits)
      have "n1 \<le> left - Suc extra \<and> run_ok s'"
        using "1.IH" [OF _ x Went _ _ n1(1)] False r Went "1.prems"(2) by simp
      then show ?thesis using n1(2) r Went by auto
    qed
  qed
qed

section \<open>The clock\<close>

text \<open>
  \<open>advanced n m m'\<close>: the clock went forward by at most \<open>n\<close>.  Emitted code leaves
  \<^verbatim>\<open>c->cycles\<close> alone.
\<close>

definition advanced :: "nat \<Rightarrow> machine \<Rightarrow> machine \<Rightarrow> bool" where
  "advanced n m m' \<longleftrightarrow> (\<exists>k\<le>n. cycles (cpu m') = cycles (cpu m) + of_nat k)"

interpretation native: x86_preorder same_clock
  by unfold_locales (simp add: same_clock_def put_flat_def)

lemma advanced_0 [simp]: "advanced 0 m m' \<longleftrightarrow> same_clock m m'"
  by (simp add: advanced_def same_clock_def)

lemma advanced_mono: "advanced a m m' \<Longrightarrow> a \<le> b \<Longrightarrow> advanced b m m'"
  unfolding advanced_def using le_trans by blast

lemma advanced_trans: "advanced a m1 m2 \<Longrightarrow> advanced b m2 m3 \<Longrightarrow> advanced (a + b) m1 m3"
proof -
  assume "advanced a m1 m2" "advanced b m2 m3"
  then obtain i j where "i \<le> a" "cycles (cpu m2) = cycles (cpu m1) + of_nat i"
    "j \<le> b" "cycles (cpu m3) = cycles (cpu m2) + of_nat j" by (auto simp: advanced_def)
  then have "i + j \<le> a + b" "cycles (cpu m3) = cycles (cpu m1) + of_nat (i + j)" by simp_all
  then show ?thesis unfolding advanced_def by blast
qed

lemma advanced_same: "same_clock m1 m2 \<Longrightarrow> advanced b m2 m3 \<Longrightarrow> advanced b m1 m3"
  "advanced b m1 m2 \<Longrightarrow> same_clock m2 m3 \<Longrightarrow> advanced b m1 m3"
  by (auto simp: advanced_def same_clock_def)

lemma execute_advanced: "execute m i = Some (b, m') \<Longrightarrow> advanced (if b then 1 else 0) m m'"
  using execute_clock [of m i b m'] by (auto simp: advanced_def intro: exI [of _ "0 :: nat"] exI [of _ "1 :: nat"])

lemma interp_block_advanced: "interp_block is m = Some (k, m') \<Longrightarrow> advanced k m m'"
proof (induction "is" arbitrary: m k)
  case (Cons i "is")
  show ?case
  proof (cases "halted (cpu m)")
    case False
    then obtain b m1 where e: "execute (set_reg m REG_PC (ipc i)) i = Some (b, m1)"
      using Cons.prems by (auto split: bind_splits)
    have "same_clock m (set_reg m REG_PC (ipc i))" by (simp add: same_clock_def)
    then have a: "advanced (if b then 1 else 0) m m1" using execute_advanced [OF e] by (rule advanced_same)
    consider "\<not> b" "k = 0" "m' = m1" | "b" "k = 1" "m' = m1"
      | k1 where "b" "interp_block is m1 = Some (k1, m')" "k = Suc k1"
      using Cons.prems e False by (auto split: if_splits bind_splits)
    then show ?thesis
    proof cases
      case 3
      then show ?thesis using advanced_trans [OF a Cons.IH [OF 3(2)]] by simp
    qed (use a in simp_all)
  qed (use Cons.prems in \<open>simp add: same_clock_def\<close>)
qed (simp add: same_clock_def)

lemma run_block_advanced:
  assumes "run_block h j bk m = Some (k, j', m')"
  shows "advanced k m m'"
proof -
  obtain s j1 m1 where s: "(case native bk of
               Some code \<Rightarrow>
                 do { (ok, m1) \<leftarrow> x86_call h code m;
                      if ok then (let k = length (ins bk) in
                        Some (k, j\<lparr>native_steps := native_steps j + of_nat k\<rparr>, m1))
                      else Some (0, j, m1) }
             | None \<Rightarrow> Some (0, j, m)) = Some (s, j1, m1)"
    and r: "(if s = 0 then interp_block (ins bk) m1 else Some (s, m1)) = Some (k, m')"
    using assms by (auto simp: run_block_def split: bind_splits)
  have m1: "same_clock m m1"
    using s native.x86_call_R by (auto simp: clock.R_refl Let_def split: if_splits bind_splits option.splits)
  show ?thesis
  proof (cases "s = 0")
    case True
    then show ?thesis using r interp_block_advanced advanced_same(1) [OF m1] by auto
  next
    case False
    then show ?thesis using r m1 by (auto intro: advanced_mono [of 0])
  qed
qed

lemma jit_run_advanced:
  assumes "jit_run h i0 j m = Some (k, j', m')"
  shows "advanced k m m'"
  using assms
  by (auto simp: jit_run_def Let_def case_prod_unfold clock.R_refl
      intro: advanced_same(1) [OF clock.compile_block_R [OF clock.R_refl]]
      dest!: run_block_advanced split: if_splits)

lemma jit_run_chained_advanced:
  "jit_run_chained h i0 j m n stop = Some (k, j', m') \<Longrightarrow> advanced k m m'"
proof (induction h i0 j m n stop arbitrary: k rule: jit_run_chained.induct)
  case (1 h i0 j m n stop)
  show ?case
  proof (cases "halted (cpu m) \<or> n = 0 \<or> n < 32 \<or> stop m")
    case True
    then show ?thesis using "1.prems"
      by (subst (asm) jit_run_chained.simps) (auto simp: clock.R_refl split: if_splits)
  next
    case False
    then obtain k1 j1 m1 where j: "jit_run h i0 j m = Some (k1, j1, m1)"
      using "1.prems" by (subst (asm) jit_run_chained.simps) (auto split: option.splits)
    note a = jit_run_advanced [OF j]
    show ?thesis
    proof (cases "k1 = 0")
      case True
      then show ?thesis using "1.prems" False j a by (subst (asm) jit_run_chained.simps) auto
    next
      case k1: False
      then obtain k2 where k2: "jit_run_chained h i0 j1 m1 (n - k1) stop = Some (k2, j', m')" "k = k1 + k2"
        using "1.prems" False j by (subst (asm) jit_run_chained.simps) (auto split: option.splits)
      then have "advanced k2 m1 m'" using "1.IH" [OF _ _ _ j refl refl k1] False by blast
      then show ?thesis unfolding k2(2) by (rule advanced_trans [OF a])
    qed
  qed
qed

lemma check_irqs_clock:
  assumes "check_irqs ctx m = Some m'" "same_clock m0 m"
  shows "same_clock m0 m'"
proof -
  have e: "same_clock m0 m'" if "enter_ignored m1 x = Some m'" "same_clock m0 m1" for m1 x
    using that clock.exc_enter_R by (auto simp: enter_ignored_def)
  have d: "same_clock m0 (d_st_update f m)" "same_clock m0 (d_scb_update g m)" for f g
    using assms(2) by (simp_all add: same_clock_def)
  show ?thesis
    using assms d
    by (auto simp: check_irqs_def Let_def split: if_splits bind_splits option.splits
        elim!: e intro: clock.R_upd)
qed

lemma ticks_clock: "same_clock m (tick_one ctx m)" "same_clock m (tick_batch ctx k m)"
  by (simp_all add: tick_one_def tick_batch_def Let_def same_clock_def)

text \<open>The steps that an iteration accounts for.\<close>

fun iter_steps :: "iter \<Rightarrow> nat" where
  "iter_steps (Stop s) = 0"
| "iter_steps (Went k s) = Suc k"

lemma step_one_clock:
  assumes "step_one ctx s = Some x"
  shows "advanced (iter_steps x) (mach s) (iter_mach x)"
proof -
  let ?d = "cache_decode (dcache s) (mach s) (reg (mach s) REG_PC) (stack_insn ctx)"
  have d: "same_clock (mach s) (snd (snd ?d))" by (rule clock.cache_decode_R [OF clock.R_refl])
  show ?thesis
  proof (cases "execute (snd (snd ?d)) (fst ?d)")
    case None
    then show ?thesis using assms by (simp add: step_one_def Let_def case_prod_unfold)
  next
    case (Some y)
    obtain ok m1 where y: "y = (ok, m1)" by (cases y)
    then have a: "advanced (if ok then 1 else 0) (mach s) m1"
      using Some execute_advanced advanced_same(1) [OF d] by blast
    have irq: "check_irqs ctx (tick_one ctx m1) = Some m2 \<Longrightarrow> same_clock m1 m2" for m2
      using check_irqs_clock ticks_clock(1) by blast
    show ?thesis
      using assms Some y a irq
      by (cases ok; cases "check_irqs ctx (tick_one ctx m1)")
        (auto simp: step_one_def Let_def case_prod_unfold intro: advanced_same(2))
  qed
qed

lemma run_iter_clock:
  assumes "run_iter ctx left s = Some x"
  shows "advanced (iter_steps x) (mach s) (iter_mach x)"
proof -
  obtain k s1 where t: "try_chain ctx s left = Some (k, s1)"
    and x: "(if k > 0 then do { m2 \<leftarrow> check_irqs ctx (tick_batch ctx k (mach s1));
                 Some (Went (k - 1) (s1\<lparr>mach := m2\<rparr>)) } else step_one ctx s1) = Some x"
    using assms by (auto simp: run_iter_def split: bind_splits)
  have 1: "advanced k (mach s) (mach s1)"
    using t by (auto simp: try_chain_def clock.R_refl split: option.splits bind_splits
        dest: jit_run_chained_advanced)
  show ?thesis
  proof (cases "k > 0")
    case True
    have irq: "check_irqs ctx (tick_batch ctx k (mach s1)) = Some m2 \<Longrightarrow> same_clock (mach s1) m2" for m2
      using check_irqs_clock ticks_clock(2) by blast
    show ?thesis using True x 1 irq by (auto split: bind_splits intro: advanced_same(2))
  next
    case False
    then show ?thesis using x step_one_clock [of ctx s1 x] 1 advanced_same(1) by auto
  qed
qed

lemma run_loop_clock:
  "run_loop ctx left s = Some (n, s') \<Longrightarrow> advanced n (mach s) (mach s')"
proof (induction ctx left s arbitrary: n rule: run_loop.induct)
  case (1 ctx left s)
  show ?case
  proof (cases "left = 0 \<or> halted (cpu (mach s))")
    case True
    then show ?thesis using "1.prems" by (subst (asm) run_loop.simps) (auto simp: clock.R_refl)
  next
    case False
    then obtain x where x: "run_iter ctx left s = Some x"
      using "1.prems" by (subst (asm) run_loop.simps) (auto split: option.splits)
    note a = run_iter_clock [OF x]
    show ?thesis
    proof (cases x)
      case (Stop s1)
      then show ?thesis using "1.prems" False x a by (subst (asm) run_loop.simps) auto
    next
      case (Went extra s1)
      then obtain n1 where n1: "run_loop ctx (left - Suc extra) s1 = Some (n1, s')" "n = Suc extra + n1"
        using "1.prems" False x by (subst (asm) run_loop.simps) (auto split: option.splits)
      have "advanced n1 (mach s1) (mach s')" using "1.IH" [OF _ x Went n1(1)] False by blast
      then show ?thesis unfolding n1(2) using advanced_trans a Went by fastforce
    qed
  qed
qed

section \<open>Flash and output\<close>

text \<open>
  A fast path of emitted code writes to the region at 0x20000000 without a look at its
  \<^verbatim>\<open>writable\<close>, so flash is kept where that region is writable.
\<close>

definition sram_writable :: "machine \<Rightarrow> bool" where
  "sram_writable m \<longleftrightarrow> (\<forall>k. bus_find_flat (regions m) SRAM_BASE = Some k \<longrightarrow> writable (regions m ! k))"

definition rom_kept :: "machine \<Rightarrow> machine \<Rightarrow> bool" where
  "rom_kept m m' \<longleftrightarrow> (sram_writable m \<longrightarrow> same_rom m m')"

lemma find_flat_rom:
  "map (\<lambda>r. if writable r then shape r else r) rs = map (\<lambda>r. if writable r then shape r else r) rs' \<Longrightarrow>
   bus_find_flat rs a = bus_find_flat rs' a"
proof (induction rs arbitrary: rs')
  case (Cons r rs)
  then obtain r' rs2 where rs': "rs' = r' # rs2" by (cases rs') auto
  then have "kind r = kind r'" "base r = base r'" using Cons.prems by (cases r; cases r'; auto simp: shape_def split: if_splits)+
  then show ?case using Cons.IH [of rs2] Cons.prems rs' by simp
qed simp

lemma find_flat_bound: "bus_find_flat rs a = Some k \<Longrightarrow> k < length rs"
  by (induction rs arbitrary: k) (auto split: if_splits)

lemma sram_writable_same:
  assumes "same_rom m m'" "sram_writable m"
  shows "sram_writable m'"
proof -
  let ?g = "\<lambda>r. if writable r then shape r else r"
  have e: "map ?g (regions m') = map ?g (regions m)" using assms(1) by (simp add: same_rom_def rom_of_def)
  have "writable (regions m' ! k)" if k: "bus_find_flat (regions m') SRAM_BASE = Some k" for k
  proof -
    have k': "bus_find_flat (regions m) SRAM_BASE = Some k" using find_flat_rom [OF e] k by simp
    have "writable (regions m ! k)" using assms(2) k' by (simp add: sram_writable_def)
    moreover have "?g (regions m' ! k) = ?g (regions m ! k)"
      using arg_cong [OF e, of "\<lambda>l. l ! k"] find_flat_bound [OF k] find_flat_bound [OF k'] by (simp only: nth_map)
    ultimately show ?thesis by (auto simp: shape_def split: if_splits)
  qed
  then show ?thesis by (simp add: sram_writable_def)
qed

lemma rom_keptI: "same_rom m m' \<Longrightarrow> rom_kept m m'"
  by (simp add: rom_kept_def)

interpretation flash: run_x86_preorder rom_kept
proof unfold_locales
  show "rom_kept m m" for m by (simp add: rom_kept_def rom.R_refl)
  show "rom_kept m1 m2 \<Longrightarrow> rom_kept m2 m3 \<Longrightarrow> rom_kept m1 m3" for m1 m2 m3
    using rom.R_trans sram_writable_same unfolding rom_kept_def by blast
  show "bus_find_flat (regions m) SRAM_BASE = Some k \<Longrightarrow> rom_kept m (put_flat m k off sz v)" for m k off sz v
    by (simp add: rom_kept_def sram_writable_def same_rom_put_flat find_flat_bound)
qed (intro rom_keptI rom.R_put_flat rom.R_dev_read rom.R_dev_write rom.R_eth rom.R_nvic rom.R_cpu rom.R_any_cpu
    rom.R_st rom.R_scb rom.R_dwt; assumption)+

interpretation printed: run_x86_preorder out_grows
  by unfold_locales (simp add: out_grows_def put_flat_def)

end
