(* ===== verification/Tt_Laws.thy ===== *)
theory Tt_Laws
  imports Tt Run_Laws
begin

text \<open>
  Laws of the time-travel module: the two binary searches, the event log, the snapshots and
  the replaying run.
\<close>

section \<open>Searches\<close>

text \<open>The logs are ordered by cycle: the order in which events are recorded.\<close>

definition log_sorted :: "ev_t list \<Rightarrow> bool" where
  "log_sorted b \<longleftrightarrow> sorted (map ev_cycle b)"

lemma log_sortedD: "log_sorted b \<Longrightarrow> i \<le> j \<Longrightarrow> j < length b \<Longrightarrow> ev_cycle (b ! i) \<le> ev_cycle (b ! j)"
  using sorted_nth_mono [of "map ev_cycle b" i j] by (simp add: log_sorted_def)

text \<open>A position splits the log at a cycle: the events before it are earlier, the others are not.\<close>

definition splits_at :: "ev_t list \<Rightarrow> u64 \<Rightarrow> nat \<Rightarrow> bool" where
  "splits_at b t p \<longleftrightarrow> p \<le> length b \<and> (\<forall>i<p. ev_cycle (b ! i) < t) \<and>
     (\<forall>i. p \<le> i \<and> i < length b \<longrightarrow> t \<le> ev_cycle (b ! i))"

lemma seek_loop_splits:
  "log_sorted b \<Longrightarrow> lo \<le> hi \<Longrightarrow> hi \<le> length b \<Longrightarrow> \<forall>i<lo. ev_cycle (b ! i) < t \<Longrightarrow>
   \<forall>i. hi \<le> i \<and> i < length b \<longrightarrow> t \<le> ev_cycle (b ! i) \<Longrightarrow> splits_at b t (seek_loop b t lo hi)"
proof (induction b t lo hi rule: seek_loop.induct)
  case (1 b t lo hi)
  let ?mid = "lo + (hi - lo) div 2"
  note srt = log_sortedD [OF "1.prems"(1)]
  show ?case
  proof (cases "lo < hi")
    case False
    then show ?thesis using "1.prems" by (subst seek_loop.simps) (auto simp: splits_at_def)
  next
    case lt: True
    then have mid: "lo \<le> ?mid" "?mid < hi" by auto
    show ?thesis
    proof (cases "ev_cycle (b ! ?mid) < t")
      case True
      have "\<forall>i < ?mid + 1. ev_cycle (b ! i) < t"
        using True mid "1.prems"(3) srt [of _ ?mid] by (fastforce simp: less_Suc_eq_le intro: le_less_trans)
      then have "splits_at b t (seek_loop b t (?mid + 1) hi)"
        using "1.prems" lt mid True by (intro "1.IH"(1)) auto
      then show ?thesis using lt True by (subst seek_loop.simps) (simp add: Let_def)
    next
      case False
      have "\<forall>i. ?mid \<le> i \<and> i < length b \<longrightarrow> t \<le> ev_cycle (b ! i)"
        using False srt [of ?mid] by (auto simp: not_less intro: order_trans)
      then have "splits_at b t (seek_loop b t lo ?mid)"
        using "1.prems" lt mid False by (intro "1.IH"(2)) auto
      then show ?thesis using lt False by (subst seek_loop.simps) (simp add: Let_def)
    qed
  qed
qed

lemma ev_log_seek_splits: "log_sorted (lg_buf lg) \<Longrightarrow> splits_at (lg_buf lg) t (ev_log_seek lg t)"
  unfolding ev_log_seek_def by (rule seek_loop_splits) auto

text \<open>The snapshot index.\<close>

definition idx_sorted :: "snap_entry_t list \<Rightarrow> bool" where
  "idx_sorted a \<longleftrightarrow> sorted (map se_cycle a)"

lemma idx_sortedD: "idx_sorted a \<Longrightarrow> i \<le> j \<Longrightarrow> j < length a \<Longrightarrow> se_cycle (a ! i) \<le> se_cycle (a ! j)"
  using sorted_nth_mono [of "map se_cycle a" i j] by (simp add: idx_sorted_def)

text \<open>\<open>r\<close> is the last entry at or before the target, or -1 when there is none.\<close>

definition last_le :: "snap_entry_t list \<Rightarrow> u64 \<Rightarrow> int \<Rightarrow> bool" where
  "last_le a t r \<longleftrightarrow> -1 \<le> r \<and> r < int (length a) \<and> (\<forall>i < length a. se_cycle (a ! i) \<le> t \<longleftrightarrow> int i \<le> r)"

lemma bsearch_loop_last:
  "idx_sorted a \<Longrightarrow> 0 \<le> lo \<Longrightarrow> lo \<le> hi + 1 \<Longrightarrow> hi < int (length a) \<Longrightarrow> best = lo - 1 \<Longrightarrow>
   \<forall>i < length a. int i < lo \<longrightarrow> se_cycle (a ! i) \<le> t \<Longrightarrow>
   \<forall>i < length a. hi < int i \<longrightarrow> t < se_cycle (a ! i) \<Longrightarrow> last_le a t (bsearch_loop a t lo hi best)"
proof (induction a t lo hi best rule: bsearch_loop.induct)
  case (1 a t lo hi best)
  let ?mid = "lo + (hi - lo) div 2"
  note srt = idx_sortedD [OF "1.prems"(1)]
  show ?case
  proof (cases "lo \<le> hi")
    case False
    then have "\<forall>i < length a. se_cycle (a ! i) \<le> t \<longleftrightarrow> int i \<le> best"
      using "1.prems" by (auto simp: not_le)
    then show ?thesis using False "1.prems" by (subst bsearch_loop.simps) (auto simp: last_le_def)
  next
    case le: True
    then have mid: "lo \<le> ?mid" "?mid \<le> hi" by auto
    show ?thesis
    proof (cases "se_cycle (a ! nat ?mid) \<le> t")
      case True
      have "\<forall>i < length a. int i < ?mid + 1 \<longrightarrow> se_cycle (a ! i) \<le> t"
      proof (intro allI impI)
        fix i assume "i < length a" "int i < ?mid + 1"
        then have "i \<le> nat ?mid" "nat ?mid < length a" using mid "1.prems"(2,4) by linarith+
        then show "se_cycle (a ! i) \<le> t" using srt [of i "nat ?mid"] True by (rule_tac order_trans)
      qed
      then have "last_le a t (bsearch_loop a t (?mid + 1) hi ?mid)"
        using "1.prems" le mid True by (intro "1.IH"(1)) auto
      then show ?thesis using le True by (subst bsearch_loop.simps) (simp add: Let_def)
    next
      case False
      have "\<forall>i < length a. ?mid - 1 < int i \<longrightarrow> t < se_cycle (a ! i)"
        using False mid "1.prems" srt [of "nat ?mid"] by (auto simp: not_le intro: less_le_trans)
      then have "last_le a t (bsearch_loop a t lo (?mid - 1) best)"
        using "1.prems" le mid False by (intro "1.IH"(2)) auto
      then show ?thesis using le False by (subst bsearch_loop.simps) (simp add: Let_def)
    qed
  qed
qed

lemma tt_bsearch_le_last: "idx_sorted a \<Longrightarrow> last_le a t (tt_bsearch_le a t)"
  unfolding tt_bsearch_le_def by (rule bsearch_loop_last) auto

section \<open>The event log\<close>

definition log_ok :: "ev_log_t \<Rightarrow> bool" where
  "log_ok lg \<longleftrightarrow> length (lg_buf lg) \<le> lg_cap lg \<and> lg_cap lg \<le> TT_LOG_MAX"

lemma ev_log_append_spec:
  assumes "log_ok lg" "ev_log_append alloc lg cyc ty pl = (b, lg')"
  shows "log_ok lg' \<and> lg_cap lg \<le> lg_cap lg' \<and>
    lg_buf lg' = (if b then lg_buf lg @ [\<lparr>ev_cycle = cyc, ev_kind = ty, payload = pl\<rparr>] else lg_buf lg) \<and>
    (\<not> b \<longrightarrow> lg' = lg \<and> length (lg_buf lg) = lg_cap lg \<and> (lg_cap lg = TT_LOG_MAX \<or> (\<exists>n. \<not> alloc n)))"
proof (cases "length (lg_buf lg) \<ge> lg_cap lg")
  case True
  then have "lg_cap lg = length (lg_buf lg)" using assms(1) by (simp add: log_ok_def)
  then show ?thesis using assms
    by (cases "lg_buf lg") (auto simp: ev_log_append_def log_ok_def Let_def split: if_splits)
qed (use assms in \<open>auto simp: ev_log_append_def log_ok_def Let_def\<close>)

section \<open>Snapshots\<close>

lemma snap_restore_save:
  assumes "snap_save bytes b0 m = (True, b)" "bus_find_flat (regions (mach s)) SRAM_BASE_ADDR = Some k"
    "\<not> rsize (regions (mach s) ! k) < SRAM_SIZE"
  shows "\<exists>s' j. snap_restore bytes att i0 b s = Some (True, s') \<and> bus_find_flat (regions m) SRAM_BASE_ADDR = Some j \<and>
    cpu (mach s') = cpu m \<and> d_st (mach s') = d_st m \<and> d_nvic (mach s') = d_nvic m \<and> d_mpu (mach s') = d_mpu m \<and>
    d_dwt (mach s') = d_dwt m \<and> d_stm32 (mach s') = d_stm32 m \<and>
    d_scb (mach s') = (d_scb m)\<lparr>scb_ctx := scb_ctx (d_scb (mach s))\<rparr> \<and>
    d_eth (mach s') = (d_eth m)\<lparr>eth_bus := True\<rparr> \<and>
    d_uart (mach s') = (d_uart m)\<lparr>u_sink := u_sink (d_uart (mach s))\<rparr> \<and>
    (\<forall>a < SRAM_SIZE. buf (regions (mach s') ! k) a = buf (regions m ! j) a) \<and>
    (\<forall>i. i \<noteq> k \<longrightarrow> regions (mach s') ! i = regions (mach s) ! i) \<and>
    map shape (regions (mach s')) = map shape (regions (mach s)) \<and>
    (\<forall>p. \<not> dvalid (dcache s' p)) \<and> stdout (mach s') = stdout (mach s) \<and> uart_buf (mach s') = uart_buf (mach s)"
proof -
  have k: "k < length (regions (mach s))" using find_flat_bound [OF assms(2)] .
  obtain j where j: "bus_find_flat (regions m) SRAM_BASE_ADDR = Some j" "\<not> rsize (regions m ! j) < SRAM_SIZE"
    using assms(1) by (auto simp: snap_save_def Let_def split: option.splits if_splits)
  let ?b = "\<lparr>magic = SNAP_MAGIC, version = SNAP_VERSION, sn_cycle = cycles (cpu m),
                          sn_cpu = cpu m, sn_st = d_st m, sn_nvic = d_nvic m,
                          sn_scb = (d_scb m)\<lparr>scb_ctx := False\<rparr>, sn_mpu = d_mpu m, sn_dwt = d_dwt m,
                          sn_stm32 = d_stm32 m, eth_state = (d_eth m)\<lparr>eth_bus := False\<rparr>,
                          uart_state = (d_uart m)\<lparr>u_sink := SINK_NULL\<rparr>,
                          sram_size = SRAM_SIZE, sram = copy_sram (sram b0) (buf (regions m ! j)), checksum = 0\<rparr>"
  have b: "b = ?b\<lparr>checksum := snap_xor32 (bytes ?b)\<rparr>"
    using assms(1) j by (simp add: snap_save_def Let_def)
  have v: "blob_valid bytes b" unfolding b blob_valid_def by simp
  let ?s = "s\<lparr>mach := restore_machine b (mach s) k, dcache := dcache_invalidate i0,
                   jit := (if att then map_option jit_flush (jit s) else jit s)\<rparr>"
  have r: "snap_restore bytes att i0 b s = Some (True, ?s)" using v assms(2,3) by (simp add: snap_restore_def)
  have sh: "map shape ((regions (mach s))[k := (regions (mach s) ! k)\<lparr>buf := f\<rparr>]) = map shape (regions (mach s))" for f
    using k by (simp add: map_update shape_def) (metis list_update_id map_update shape_def)
  show ?thesis
    by (rule exI [of _ ?s], rule exI [of _ j])
      (use r j k sh in \<open>simp add: b restore_machine_def copy_sram_def dcache_invalidate_def\<close>)
qed

lemma snap_save_valid: "snap_save bytes b0 m = (True, b) \<Longrightarrow> blob_valid bytes b"
  by (auto simp: snap_save_def blob_valid_def Let_def split: option.splits if_splits)

text \<open>A valid snapshot does not fit a smaller region, and nothing refuses it.\<close>

lemma snap_restore_overflow:
  assumes "blob_valid bytes b" "bus_find_flat (regions (mach s)) SRAM_BASE_ADDR = Some k"
    "rsize (regions (mach s) ! k) < SRAM_SIZE"
  shows "snap_restore bytes att i0 b s = None"
  using assms by (simp add: snap_restore_def)

lemma le_word_eq: "le_word a b c d = le_word a' b' c' d' \<longleftrightarrow> a = a' \<and> b = b' \<and> c = c' \<and> d = d'"
proof
  assume e: "le_word a b c d = le_word a' b' c' d'"
  have bits: "bit (le_word a b c d) n = (if n < 8 then bit a n else if n < 16 then bit b (n - 8)
      else if n < 24 then bit c (n - 16) else if n < 32 then bit d (n - 24) else False)" for a b c d :: u8 and n
    by (auto simp: le_word_def bit_simps dest: bit_imp_le_length)
  have "bit a n = bit a' n" "bit b n = bit b' n" "bit c n = bit c' n" "bit d n = bit d' n" if "n < 8" for n
    using that arg_cong [OF e, of "\<lambda>w. bit w n"] arg_cong [OF e, of "\<lambda>w. bit w (n + 8)"]
      arg_cong [OF e, of "\<lambda>w. bit w (n + 16)"] arg_cong [OF e, of "\<lambda>w. bit w (n + 24)"]
    unfolding bits by simp_all
  then show "a = a' \<and> b = b' \<and> c = c' \<and> d = d'" by (auto intro!: bit_word_eqI)
qed simp

lemma le_word_xor: "le_word a b c 0 = to32 a XOR push_bit 8 (to32 b) XOR push_bit 16 (to32 c)"
  by (rule bit_word_eqI) (auto simp: le_word_def bit_simps dest: bit_imp_le_length)

lemma snap_xor32_tail: "snap_xor32 [a] = le_word a 0 0 0" "snap_xor32 [a, b] = le_word a b 0 0"
  "snap_xor32 [a, b, c] = le_word a b c 0"
  by (simp_all add: le_word_xor)

lemma xor_cancel: "(x :: u32) XOR z = y XOR z \<longleftrightarrow> x = y" "z XOR (x :: u32) = z XOR y \<longleftrightarrow> x = y"
  by (metis xor.assoc xor.commute xor.right_neutral xor_self_eq)+

lemma snap_xor32_byte: "i < length xs \<Longrightarrow> v \<noteq> xs ! i \<Longrightarrow> snap_xor32 (xs[i := v]) \<noteq> snap_xor32 xs"
proof (induction xs arbitrary: i rule: snap_xor32.induct)
  case (1 a b c d xs)
  show ?case
  proof (cases "i < 4")
    case True
    then consider "i = 0" | "i = 1" | "i = 2" | "i = 3" by linarith
    then show ?thesis using "1.prems" by cases (auto simp: le_word_eq xor_cancel)
  next
    case False
    then obtain j where j: "i = j + 4" by (metis add.commute le_Suc_ex not_less)
    then show ?thesis using 1 by (simp add: eval_nat_numeral xor_cancel)
  qed
next
  case (3 a)
  then show ?case using le_word_eq [of v 0 0 0 a 0 0 0] by (simp add: le_word_def)
next
  case (4 a b)
  then show ?case by (cases i) (auto simp: less_Suc_eq snap_xor32_tail le_word_eq simp del: snap_xor32.simps)
next
  case (5 a b c)
  then have "i = 0 \<or> i = 1 \<or> i = 2" by auto
  then show ?case using 5 by (auto simp: snap_xor32_tail le_word_eq simp del: snap_xor32.simps)
qed simp

text \<open>A blob that differs in one byte from a valid one with the same checksum is refused.\<close>

lemma blob_corruption:
  assumes "blob_valid bytes b" "checksum b' = checksum b" "i < length (bytes (b\<lparr>checksum := 0\<rparr>))"
    "bytes (b'\<lparr>checksum := 0\<rparr>) = (bytes (b\<lparr>checksum := 0\<rparr>))[i := v]" "v \<noteq> bytes (b\<lparr>checksum := 0\<rparr>) ! i"
  shows "\<not> blob_valid bytes b' \<and> snap_restore bytes att i0 b' s = Some (False, s)"
  using snap_xor32_byte [OF assms(3,5)] assms(1,2,4) by (simp add: blob_valid_def snap_restore_def)

section \<open>The snapshot index\<close>

text \<open>
  What the snapshot store keeps: one index entry per snapshot, in the order they were taken,
  at least a stride apart.  Cycle counts below \<open>2 ^ 63\<close> keep the sum with the stride from
  wrapping.
\<close>

definition tt_ok :: "tt_t \<Rightarrow> bool" where
  "tt_ok t \<longleftrightarrow> length (tt_idx t) = length (snaps t) \<and> length (snaps t) \<le> max_snaps t \<and>
     (\<forall>i < length (snaps t). snap_idx (tt_idx t ! i) = i \<and> sn_cycle (snaps t ! i) = se_cycle (tt_idx t ! i) \<and>
        cycles (sn_cpu (snaps t ! i)) = se_cycle (tt_idx t ! i) \<and> unat (se_cycle (tt_idx t ! i)) < 2 ^ 63) \<and>
     (\<forall>i. Suc i < length (snaps t) \<longrightarrow>
        unat (se_cycle (tt_idx t ! i)) + unat (stride t) \<le> unat (se_cycle (tt_idx t ! Suc i)))"

lemma tt_ok_create: "tt_create alloc strd mx = Some t \<Longrightarrow> tt_ok t"
  by (auto simp: tt_create_def tt_ok_def split: if_splits)

lemma snap_save_cycles:
  "snap_save bytes b0 m = (True, b) \<Longrightarrow> sn_cycle b = cycles (cpu m) \<and> cycles (sn_cpu b) = cycles (cpu m)"
  by (auto simp: snap_save_def Let_def split: option.splits if_splits)

lemma unat_add_stride:
  fixes a :: u64 and s :: u32
  assumes "unat a < 2 ^ 63"
  shows "unat (a + to64 s) = unat a + unat s"
proof -
  have "unat s < 2 ^ 32" by (rule unat_lt32)
  then show ?thesis using assms by (simp add: unat_word_ariths unat_to64)
qed

lemma tt_on_cycle_ok:
  assumes ok: "tt_ok t" and c: "unat (cycles (cpu m)) < 2 ^ 63"
  shows "tt_ok (tt_on_cycle bytes rp b0 t m)"
proof (cases "tt_on_cycle bytes rp b0 t m = t")
  case False
  let ?n = "length (snaps t)"
  obtain b where b: "snap_save bytes b0 m = (True, b)" "?n < max_snaps t"
    "tt_on_cycle bytes rp b0 t m = t\<lparr>snaps := snaps t @ [b],
       tt_idx := tt_idx t @ [\<lparr>se_cycle = cycles (cpu m), snap_idx = ?n\<rparr>]\<rparr>"
    "snaps t \<noteq> [] \<longrightarrow> se_cycle (last (tt_idx t)) + to64 (stride t) \<le> cycles (cpu m)"
    using False by (auto simp: tt_on_cycle_def Let_def not_le not_less split: if_splits prod.splits bool.splits)
  have len: "length (tt_idx t) = ?n" using ok by (simp add: tt_ok_def)
  have sp: "unat (se_cycle (tt_idx t ! i)) + unat (stride t) \<le> unat (cycles (cpu m))" if "Suc i = ?n" for i
  proof -
    have "last (tt_idx t) = tt_idx t ! i" using that len by (metis diff_Suc_1 last_conv_nth list.size(3) nat.simps(3))
    moreover have "unat (se_cycle (tt_idx t ! i)) < 2 ^ 63" using ok that by (simp add: tt_ok_def)
    ultimately show ?thesis
      using b(4) that unat_add_stride [of "se_cycle (tt_idx t ! i)" "stride t"] by (auto simp: word_le_nat_alt)
  qed
  show ?thesis
    using ok c b(2) snap_save_cycles [OF b(1)] sp len unfolding b(3) tt_ok_def
    by (auto simp: nth_append less_Suc_eq)
qed (use ok in simp)

lemma tt_ok_idx_sorted: "tt_ok t \<Longrightarrow> idx_sorted (tt_idx t)"
proof -
  assume ok: "tt_ok t"
  have "se_cycle (tt_idx t ! i) \<le> se_cycle (tt_idx t ! Suc i)" if "Suc i < length (tt_idx t)" for i
    using ok that by (auto simp: tt_ok_def word_le_nat_alt dest: add_leD1)
  then show ?thesis by (simp add: idx_sorted_def sorted_iff_nth_Suc)
qed

end
