(* ===== verification/Replay_Laws.thy ===== *)
theory Replay_Laws
  imports Tt_Laws
begin

text \<open>
  The replaying run (\<^verbatim>\<open>run_until_cycle\<close>) and rewinding (\<^verbatim>\<open>tt_rewind\<close>): where they land and which
  events they have injected.
\<close>

section \<open>Replay\<close>

lemma inject_loop_clock: "inject_loop m i bs = Some m' \<Longrightarrow> same_clock m m'"
proof (induction bs arbitrary: m i)
  case (Cons b bs)
  then obtain ok m1 where w: "bus_write m (rx_addr (d_eth m) + i) 1 (to32 b) = Some (ok, m1)"
    "inject_loop m1 (i + 1) bs = Some m'" by (auto split: bind_splits)
  show ?case using clock.bus_write_R [OF w(1)] Cons.IH [OF w(2)] by (simp add: same_clock_def)
qed (simp add: same_clock_def)

lemma inject_clock: "tt_inject_event frs m e = Some m' \<Longrightarrow> same_clock m m'"
  by (auto simp: tt_inject_event_def eth_inject_rx_def Let_def same_clock_def
      split: ev_type.splits option.splits if_splits bind_splits dest!: inject_loop_clock)

lemma drain_spec:
  "drain frs es m = Some (m', k) \<Longrightarrow> same_clock m m' \<and> k \<le> length es \<and>
     (\<forall>i<k. ev_cycle (es ! i) \<le> cycles (cpu m)) \<and> (k < length es \<longrightarrow> cycles (cpu m) < ev_cycle (es ! k))"
proof (induction es arbitrary: m k)
  case (Cons e es)
  show ?case
  proof (cases "ev_cycle e \<le> cycles (cpu m)")
    case True
    then obtain m1 j where d: "tt_inject_event frs m e = Some m1" "drain frs es m1 = Some (m', j)" "k = Suc j"
      using Cons.prems by (auto split: bind_splits)
    have c: "cycles (cpu m1) = cycles (cpu m)" using inject_clock [OF d(1)] by (simp add: same_clock_def)
    show ?thesis using Cons.IH [OF d(2)] c True d(3) by (auto simp: same_clock_def less_Suc_eq_0_disj)
  next
    case False
    then have "m' = m" "k = 0" using Cons.prems by simp_all
    then show ?thesis using False by (simp add: same_clock_def not_le)
  qed
qed (simp add: same_clock_def)

lemma run_g_clock:
  assumes "run_steps_full_g ctx dg s gap = Some (n, s2)" "run_ok s"
  shows "run_ok s2 \<and> (\<exists>j \<le> unat gap. cycles (cpu (mach s2)) = cycles (cpu (mach s)) + of_nat j)"
proof -
  let ?c = "ctx_of_globals ctx dg (mach s)"
  let ?s0 = "s\<lparr>dcache := dcache_invalidate (stack_insn ?c)\<rparr>"
  obtain i where i: "run_loop ?c (unat gap) ?s0 = Some (i, s2)"
    using assms(1) by (auto simp: run_steps_full_g_def run_steps_full_gc_def split: bind_splits)
  have "run_ok ?s0" "unat gap < 2 ^ 64"
    using assms(2) unsigned_less [of gap, where ?'a = nat] by (simp_all add: run_ok_def ctx_of_globals_def)
  then have "i \<le> unat gap" "run_ok s2" "advanced i (mach ?s0) (mach s2)"
    using run_loop_count [OF _ _ i] run_loop_clock [OF i] by blast+
  then show ?thesis unfolding advanced_def by (metis le_trans run_t.select_convs(1) run_t.surjective run_t.update_convs(3))
qed

lemma clock_within:
  fixes c stop :: u64
  assumes "c \<le> stop" "j \<le> unat (stop - c)"
  shows "c + of_nat j \<le> stop" "c \<le> c + of_nat j"
proof -
  have "unat (stop - c) = unat stop - unat c" using assms(1) by (simp add: unat_sub)
  moreover have "unat stop < 2 ^ 64" "unat c \<le> unat stop"
    using assms(1) unsigned_less [of stop, where ?'a = nat] by (simp_all add: word_le_nat_alt)
  ultimately have "unat (c + of_nat j) = unat c + j" "unat c + j \<le> unat stop" using assms(2)
    by (simp_all add: unat_word_ariths unsigned_of_nat take_bit_nat_eq_self)
  then show "c + of_nat j \<le> stop" "c \<le> c + of_nat j" by (simp_all add: word_le_nat_alt)
qed

text \<open>
  What the replaying run keeps: it never passes its target, and exactly the events that are
  due have been injected: those before the cursor are not later than the clock, and the one
  at the cursor is not earlier.
\<close>

definition due_at :: "ev_t list \<Rightarrow> nat \<Rightarrow> nat \<Rightarrow> u64 \<Rightarrow> bool" where
  "due_at l pos0 pos now \<longleftrightarrow> pos0 \<le> pos \<and> pos \<le> max pos0 (length l) \<and>
     (\<forall>i. pos0 \<le> i \<and> i < pos \<longrightarrow> ev_cycle (l ! i) \<le> now) \<and> (pos < length l \<longrightarrow> now \<le> ev_cycle (l ! pos))"

definition replay_inv :: "replay_t \<Rightarrow> u64 \<Rightarrow> nat \<Rightarrow> run_t \<Rightarrow> nat \<Rightarrow> bool" where
  "replay_inv rp target pos0 s pos \<longleftrightarrow> run_ok s \<and> cycles (cpu (mach s)) \<le> target \<and>
     due_at (rp_log rp) pos0 pos (cycles (cpu (mach s)))"

lemma replay_step:
  assumes inv: "replay_inv rp target pos0 s pos"
    and lt: "cycles (cpu (mach s)) < target"
    and d: "drain (rp_frames rp) (drop pos (rp_log rp)) (mach s) = Some (m1, k)"
  shows "cycles (cpu m1) = cycles (cpu (mach s)) \<and> cycles (cpu m1) < stop_at rp (pos + k) target \<and>
    (run_steps_full_g (rp_ctx rp) (rp_dwt rp) (s\<lparr>mach := m1\<rparr>) (stop_at rp (pos + k) target - cycles (cpu m1))
        = Some (n, s2) \<longrightarrow> replay_inv rp target pos0 s2 (pos + k))"
proof -
  let ?l = "rp_log rp" and ?now = "cycles (cpu (mach s))" and ?stop = "stop_at rp (pos + k) target"
  note D = drain_spec [OF d]
  have c: "cycles (cpu m1) = ?now" using D by (simp add: same_clock_def)
  have nxt: "pos + k < length ?l \<longrightarrow> ?now < ev_cycle (?l ! (pos + k))" using D by (auto simp: add.commute)
  then have lts: "?now < ?stop" using lt by (auto simp: stop_at_def Let_def)
  have past: "\<forall>i. pos0 \<le> i \<and> i < pos + k \<longrightarrow> ev_cycle (?l ! i) \<le> ?now"
  proof (intro allI impI)
    fix i assume i: "pos0 \<le> i \<and> i < pos + k"
    show "ev_cycle (?l ! i) \<le> ?now"
    proof (cases "i < pos")
      case True
      then show ?thesis using inv i by (simp add: replay_inv_def due_at_def)
    next
      case False
      then have "i - pos < k" using i by linarith
      then have "ev_cycle (drop pos ?l ! (i - pos)) \<le> ?now" using D by blast
      moreover have "i < length ?l" using False i D by auto
      ultimately show ?thesis using False by simp
    qed
  qed
  have "replay_inv rp target pos0 s2 (pos + k)"
    if r: "run_steps_full_g (rp_ctx rp) (rp_dwt rp) (s\<lparr>mach := m1\<rparr>) (?stop - cycles (cpu m1)) = Some (n, s2)"
  proof -
    have "run_ok (s\<lparr>mach := m1\<rparr>)" using inv by (simp add: replay_inv_def run_ok_def)
    from run_g_clock [OF r this] obtain j where j: "run_ok s2" "j \<le> unat (?stop - ?now)"
      "cycles (cpu (mach s2)) = ?now + of_nat j" using c by auto
    have le: "?now + of_nat j \<le> ?stop" and ge: "?now \<le> ?now + of_nat j"
      using lts j(2) clock_within [of ?now ?stop j] by simp_all
    have "?stop \<le> target" "pos + k < length ?l \<longrightarrow> ?stop \<le> ev_cycle (?l ! (pos + k))"
      by (auto simp: stop_at_def Let_def)
    then show ?thesis
      using j le ge past inv D unfolding replay_inv_def due_at_def by (auto intro: order_trans)
  qed
  then show ?thesis using c lts by simp
qed

lemma until_loop_inv:
  assumes "until_loop rp target s pos = Some (s', pos')" "replay_inv rp target pos0 s pos"
  shows "replay_inv rp target pos0 s' pos'"
proof -
  have "replay_inv rp target pos0 (fst y) (snd y)"
    if "until_loop rp target s pos = Some y" "replay_inv rp target pos0 s pos" for y
    using that
  proof (induction rp target s pos y rule: until_loop.raw_induct [rotated, consumes 1, case_names step])
    case (step f rp target s pos y)
    show ?case
    proof (cases "cycles (cpu (mach s)) < target")
      case True
      then obtain m1 k where d: "drain (rp_frames rp) (drop pos (rp_log rp)) (mach s) = Some (m1, k)"
        using step(2) by (auto split: bind_splits)
      let ?gap = "stop_at rp (pos + k) target - cycles (cpu m1)"
      note st = replay_step [OF step(3) True d]
      have "?gap \<noteq> 0" using st by (metis less_irrefl right_minus_eq)
      then obtain n s2 where r: "run_steps_full_g (rp_ctx rp) (rp_dwt rp) (s\<lparr>mach := m1\<rparr>) ?gap = Some (n, s2)"
        "(if cycles (cpu (mach s2)) = cycles (cpu m1) then Some (s2, pos + k) else f rp target s2 (pos + k)) = Some y"
        using step(2) True d by (auto simp: Let_def split: bind_splits)
      have inv: "replay_inv rp target pos0 s2 (pos + k)" using st r(1) by blast
      then show ?thesis using r(2) step(1,3) by (auto split: if_splits)
    qed (use step in auto)
  qed
  from this [OF assms] show ?thesis by simp
qed

lemma run_until_inv:
  assumes "run_until_cycle rp target s pos = Some (d, s', pos')" "run_ok s"
    "cycles (cpu (mach s)) \<le> target" "pos \<le> length (rp_log rp)"
    "pos < length (rp_log rp) \<longrightarrow> cycles (cpu (mach s)) \<le> ev_cycle (rp_log rp ! pos)"
  shows "cycles (cpu (mach s')) \<le> target \<and> run_ok s' \<and> due_at (rp_log rp) pos pos' (cycles (cpu (mach s'))) \<and>
    d = cycles (cpu (mach s')) - cycles (cpu (mach s))"
proof -
  have u: "until_loop rp target s pos = Some (s', pos')" "d = cycles (cpu (mach s')) - cycles (cpu (mach s))"
    using assms(1) by (auto simp: run_until_cycle_def split: bind_splits)
  have "replay_inv rp target pos s pos" using assms by (auto simp: replay_inv_def due_at_def)
  from until_loop_inv [OF u(1) this] show ?thesis using u(2) by (simp add: replay_inv_def)
qed

section \<open>The trace of a replay\<close>

text \<open>
  What a replay does to the machine and to its position in the log, as a relation: either the
  event at the position is injected, at the very cycle it was logged with, or, when none is due,
  the machine runs on, up to the cycle of the event at the position and no further.  The list
  holds the events injected on the way.
\<close>

inductive replayed :: "replay_t \<Rightarrow> run_t \<times> nat \<Rightarrow> ev_t list \<Rightarrow> run_t \<times> nat \<Rightarrow> bool"
  for rp :: replay_t where
  replay_done: "replayed rp (s, pos) [] (s, pos)"
| replay_event: "pos < length (rp_log rp) \<Longrightarrow> e = rp_log rp ! pos \<Longrightarrow> ev_cycle e = cycles (cpu (mach s)) \<Longrightarrow>
    tt_inject_event (rp_frames rp) (mach s) e = Some m1 \<Longrightarrow>
    replayed rp (s\<lparr>mach := m1\<rparr>, Suc pos) es x \<Longrightarrow> replayed rp (s, pos) (e # es) x"
| replay_run: "(pos < length (rp_log rp) \<Longrightarrow> cycles (cpu (mach s)) < ev_cycle (rp_log rp ! pos)) \<Longrightarrow>
    run_steps_full_g (rp_ctx rp) (rp_dwt rp) s gap = Some (n, s2) \<Longrightarrow>
    (pos < length (rp_log rp) \<Longrightarrow> cycles (cpu (mach s2)) \<le> ev_cycle (rp_log rp ! pos)) \<Longrightarrow>
    replayed rp (s2, pos) es x \<Longrightarrow> replayed rp (s, pos) es x"

text \<open>The events of a trace are those of the log, in order and none left out.\<close>

lemma replayed_events:
  "replayed rp x es y \<Longrightarrow> snd y = snd x + length es \<and> es = take (length es) (drop (snd x) (rp_log rp))"
  by (induction rule: replayed.induct) (auto simp: Cons_nth_drop_Suc [symmetric])

text \<open>A run that makes no progress ends the replay early.\<close>

definition no_progress :: "replay_t \<Rightarrow> run_t \<Rightarrow> bool" where
  "no_progress rp s' \<longleftrightarrow> (\<exists>s gap n. 0 < gap \<and> run_steps_full_g (rp_ctx rp) (rp_dwt rp) s gap = Some (n, s') \<and>
     cycles (cpu (mach s')) = cycles (cpu (mach s)))"

lemma drain_replayed:
  assumes "log_sorted (rp_log rp)"
  shows "drain (rp_frames rp) (drop pos (rp_log rp)) (mach s) = Some (m1, k) \<Longrightarrow>
    pos < length (rp_log rp) \<longrightarrow> cycles (cpu (mach s)) \<le> ev_cycle (rp_log rp ! pos) \<Longrightarrow>
    replayed rp (s\<lparr>mach := m1\<rparr>, pos + k) es x \<Longrightarrow> \<exists>es. replayed rp (s, pos) es x"
proof (induction k arbitrary: s pos)
  case 0
  then show ?case by (cases "drop pos (rp_log rp)") (auto split: if_splits bind_splits)
next
  case (Suc k)
  let ?l = "rp_log rp"
  have "drop pos ?l \<noteq> []" using Suc.prems(1) by auto
  then have lt: "pos < length ?l" by simp
  then obtain m2 where m2: "ev_cycle (?l ! pos) \<le> cycles (cpu (mach s))"
    "tt_inject_event (rp_frames rp) (mach s) (?l ! pos) = Some m2"
    "drain (rp_frames rp) (drop (Suc pos) ?l) m2 = Some (m1, k)"
    using Suc.prems(1) by (auto simp: Cons_nth_drop_Suc [symmetric] split: if_splits bind_splits)
  have now: "ev_cycle (?l ! pos) = cycles (cpu (mach s))" using m2(1) Suc.prems(2) lt by simp
  have c: "cycles (cpu m2) = cycles (cpu (mach s))" using inject_clock [OF m2(2)] by (simp add: same_clock_def)
  have "Suc pos < length ?l \<longrightarrow> cycles (cpu m2) \<le> ev_cycle (?l ! Suc pos)"
    using log_sortedD [OF assms, of pos "Suc pos"] now c by simp
  then have "\<exists>es. replayed rp (s\<lparr>mach := m2\<rparr>, Suc pos) es x"
    using Suc.IH [of "Suc pos" "s\<lparr>mach := m2\<rparr>"] m2(3) Suc.prems(3) by simp
  then show ?case using replay_event [OF lt refl now m2(2)] by blast
qed

lemma until_loop_replayed:
  assumes srt: "log_sorted (rp_log rp)"
    and "until_loop rp target s pos = Some (s', pos')" "replay_inv rp target pos0 s pos"
  shows "(\<exists>es. replayed rp (s, pos) es (s', pos')) \<and> (cycles (cpu (mach s')) = target \<or> no_progress rp s')"
proof -
  have "(\<exists>es. replayed rp (s, pos) es y) \<and> (cycles (cpu (mach (fst y))) = target \<or> no_progress rp (fst y))"
    if "until_loop rp target s pos = Some y" "replay_inv rp target pos0 s pos" "log_sorted (rp_log rp)" for y
    using that
  proof (induction rp target s pos y rule: until_loop.raw_induct [rotated, consumes 1, case_names step])
    case (step f rp target s pos y)
    let ?l = "rp_log rp"
    show ?case
    proof (cases "cycles (cpu (mach s)) < target")
      case True
      then obtain m1 k where d: "drain (rp_frames rp) (drop pos ?l) (mach s) = Some (m1, k)"
        using step(2) by (auto split: bind_splits)
      let ?gap = "stop_at rp (pos + k) target - cycles (cpu m1)"
      note st = replay_step [OF step(3) True d]
      have g: "?gap \<noteq> 0" using st by (metis less_irrefl right_minus_eq)
      then obtain n s2 where r: "run_steps_full_g (rp_ctx rp) (rp_dwt rp) (s\<lparr>mach := m1\<rparr>) ?gap = Some (n, s2)"
        "(if cycles (cpu (mach s2)) = cycles (cpu m1) then Some (s2, pos + k) else f rp target s2 (pos + k)) = Some y"
        using step(2) True d by (auto simp: Let_def split: bind_splits)
      have inv: "replay_inv rp target pos0 s2 (pos + k)" using st r(1) by blast
      have rest: "(\<exists>es. replayed rp (s2, pos + k) es y) \<and>
          (cycles (cpu (mach (fst y))) = target \<or> no_progress rp (fst y))"
      proof (cases "cycles (cpu (mach s2)) = cycles (cpu m1)")
        case True
        then have "no_progress rp s2" using r(1) g unfolding no_progress_def
          by (intro exI [of _ "s\<lparr>mach := m1\<rparr>"] exI [of _ ?gap] exI [of _ n]) (simp del: right_minus_eq add: word_gt_0)
        then show ?thesis using True r(2) replay_done by auto
      next
        case False
        then show ?thesis using r(2) step(1) inv step(4) by auto
      qed
      then obtain es where es: "replayed rp (s2, pos + k) es y" by blast
      have "cycles (cpu m1) < stop_at rp (pos + k) target" using st by blast
      moreover have "pos + k < length ?l \<Longrightarrow> stop_at rp (pos + k) target \<le> ev_cycle (?l ! (pos + k))"
        by (auto simp: stop_at_def Let_def)
      ultimately have before: "pos + k < length ?l \<Longrightarrow> cycles (cpu m1) < ev_cycle (?l ! (pos + k))"
        by (rule less_le_trans)
      have after: "pos + k < length ?l \<Longrightarrow> cycles (cpu (mach s2)) \<le> ev_cycle (?l ! (pos + k))"
        using inv by (simp add: replay_inv_def due_at_def)
      have "replayed rp (s\<lparr>mach := m1\<rparr>, pos + k) es y"
        by (rule replay_run [OF _ r(1) _ es]) (use before after in simp_all)
      moreover have "pos < length ?l \<longrightarrow> cycles (cpu (mach s)) \<le> ev_cycle (?l ! pos)"
        using step(3) by (simp add: replay_inv_def due_at_def)
      ultimately show ?thesis using drain_replayed [OF step(4) d] rest by blast
    next
      case False
      then have "y = (s, pos)" "cycles (cpu (mach s)) = target" using step(2,3) by (auto simp: replay_inv_def)
      then show ?thesis using replay_done by (metis fst_conv)
    qed
  qed
  from this [OF assms(2,3,1)] show ?thesis by simp
qed

section \<open>Rewinding\<close>

lemma restore_facts:
  assumes "snap_restore bytes att i0 b s = Some (True, s1)" "run_ok s"
  shows "run_ok s1 \<and> cpu (mach s1) = sn_cpu b"
proof -
  have "jit_ok (jit_flush j)" if "jit_ok j" for j using that by (simp add: jit_ok_def jit_flush_def)
  then show ?thesis using assms
    by (auto simp: snap_restore_def restore_machine_def run_ok_def split: if_splits option.splits)
qed

text \<open>
  The replay of a log from the state \<open>s1\<close> to the state \<open>s'\<close>: it starts at the first event that
  is not earlier than \<open>s1\<close>, follows the log and ends at the target, or where a run makes no
  progress, with every event injected that lies before the end.
\<close>

definition replayed_to :: "replay_t \<Rightarrow> run_t \<Rightarrow> u64 \<Rightarrow> run_t \<Rightarrow> bool" where
  "replayed_to rp s1 target s' \<longleftrightarrow> (\<exists>pos0 pos' evs.
     splits_at (rp_log rp) (cycles (cpu (mach s1))) pos0 \<and> replayed rp (s1, pos0) evs (s', pos') \<and>
     pos' = pos0 + length evs \<and> evs = take (length evs) (drop pos0 (rp_log rp)) \<and>
     due_at (rp_log rp) pos0 pos' (cycles (cpu (mach s'))) \<and>
     cycles (cpu (mach s')) \<le> target \<and> (cycles (cpu (mach s')) = target \<or> no_progress rp s'))"

lemma run_until_replayed:
  assumes "log_sorted (rp_log rp)" "run_ok s1" "cycles (cpu (mach s1)) \<le> target"
    and sp: "splits_at (rp_log rp) (cycles (cpu (mach s1))) pos0"
    and r: "run_until_cycle rp target s1 pos0 = Some (d, s', pos')"
  shows "replayed_to rp s1 target s'"
proof -
  have u: "until_loop rp target s1 pos0 = Some (s', pos')"
    using r by (auto simp: run_until_cycle_def split: bind_splits)
  have inv: "replay_inv rp target pos0 s1 pos0" using assms(2,3) sp by (auto simp: replay_inv_def due_at_def splits_at_def)
  obtain evs where evs: "replayed rp (s1, pos0) evs (s', pos')" "cycles (cpu (mach s')) = target \<or> no_progress rp s'"
    using until_loop_replayed [OF assms(1) u inv] by blast
  have "replay_inv rp target pos0 s' pos'" by (rule until_loop_inv [OF u inv])
  then show ?thesis using sp evs replayed_events [OF evs(1)] unfolding replayed_to_def replay_inv_def
    by (intro exI [of _ pos0] exI [of _ pos'] exI [of _ evs]) auto
qed

lemma tt_rewind_lands:
  assumes ok: "tt_ok tt" "log_sorted (lg_buf (tt_log tt))" "run_ok s"
    and r: "tt_rewind bytes att rp tt target s = Some (True, s')"
  shows "\<exists>i s1. i < length (snaps tt) \<and> last_le (tt_idx tt) target (int i) \<and>
    snap_restore bytes att (stack_insn (rp_ctx rp)) (snaps tt ! i) s = Some (True, s1) \<and>
    cycles (cpu (mach s1)) = se_cycle (tt_idx tt ! i) \<and>
    replayed_to (rp\<lparr>rp_log := lg_buf (tt_log tt)\<rparr>) s1 target s'"
proof -
  let ?r = "tt_bsearch_le (tt_idx tt) target" and ?l = "lg_buf (tt_log tt)"
  let ?rp = "rp\<lparr>rp_log := ?l\<rparr>"
  have le: "last_le (tt_idx tt) target ?r" using tt_bsearch_le_last [OF tt_ok_idx_sorted [OF ok(1)]] .
  have "\<not> ?r < 0" using r by (auto simp: tt_rewind_def)
  then obtain i where i: "?r = int i" by (metis nonneg_int_cases not_less)
  then have il: "i < length (snaps tt)" using le ok(1) by (simp add: last_le_def tt_ok_def)
  let ?c = "se_cycle (tt_idx tt ! i)" and ?b = "snaps tt ! i"
  have e: "snap_idx (tt_idx tt ! i) = i" "cycles (sn_cpu ?b) = ?c" using ok(1) il by (simp_all add: tt_ok_def)
  have ct: "?c \<le> target" using le il i ok(1) by (auto simp: last_le_def tt_ok_def)
  obtain s1 where s1: "snap_restore bytes att (stack_insn (rp_ctx rp)) ?b s = Some (True, s1)"
    using r i e by (auto simp: tt_rewind_def split: if_splits bind_splits)
  have f: "run_ok s1" "cycles (cpu (mach s1)) = ?c" using restore_facts [OF s1 ok(3)] e by simp_all
  let ?p = "ev_log_seek (tt_log tt) ?c"
  have sp: "splits_at (rp_log ?rp) (cycles (cpu (mach s1))) ?p" using ev_log_seek_splits [OF ok(2)] f by simp
  have "replayed_to ?rp s1 target s'"
  proof (cases "?c < target")
    case True
    then obtain d pos' where "run_until_cycle ?rp target s1 ?p = Some (d, s', pos')"
      using r i e s1 f by (auto simp: tt_rewind_def Let_def split: bind_splits)
    then show ?thesis using run_until_replayed [OF _ f(1) _ sp] ok(2) f ct by simp
  next
    case False
    then have "s' = s1" "?c = target" using r i e s1 f ct by (auto simp: tt_rewind_def)
    moreover have "due_at ?l ?p ?p ?c" using sp f by (auto simp: due_at_def splits_at_def)
    moreover have "replayed ?rp (s1, ?p) [] (s1, ?p)" by (rule replay_done)
    ultimately show ?thesis using sp f unfolding replayed_to_def
      by (intro exI [of _ ?p] exI [of _ ?p] exI [of _ "[]"]) auto
  qed
  then show ?thesis using il le s1 f unfolding i by blast
qed

end
