(* ===== verification/Replay_Total.thy ===== *)
theory Replay_Total
  imports Replay_Laws
begin

text \<open>
  The replaying run comes to its end: its loop has no bound in the code, but every iteration
  that goes on moves the clock towards the target.
\<close>

text \<open>An iteration that goes on.\<close>

inductive until_step :: "replay_t \<Rightarrow> u64 \<Rightarrow> run_t \<times> nat \<Rightarrow> run_t \<times> nat \<Rightarrow> bool"
  for rp :: replay_t and target :: u64 where
  goes_on: "cycles (cpu (mach s)) < target \<Longrightarrow>
    drain (rp_frames rp) (drop pos (rp_log rp)) (mach s) = Some (m1, k) \<Longrightarrow>
    run_steps_full_g (rp_ctx rp) (rp_dwt rp) (s\<lparr>mach := m1\<rparr>) (stop_at rp (pos + k) target - cycles (cpu m1)) = Some (n, s2) \<Longrightarrow>
    cycles (cpu (mach s2)) \<noteq> cycles (cpu m1) \<Longrightarrow>
    until_step rp target (s, pos) (s2, pos + k)"

inductive_cases until_stepE: "until_step rp target (s, pos) x"

text \<open>Both calls of an iteration return.\<close>

definition iteration_returns :: "replay_t \<Rightarrow> u64 \<Rightarrow> run_t \<Rightarrow> nat \<Rightarrow> bool" where
  "iteration_returns rp target s pos \<longleftrightarrow> (\<exists>m1 k n s2.
     drain (rp_frames rp) (drop pos (rp_log rp)) (mach s) = Some (m1, k) \<and>
     run_steps_full_g (rp_ctx rp) (rp_dwt rp) (s\<lparr>mach := m1\<rparr>) (stop_at rp (pos + k) target - cycles (cpu m1)) = Some (n, s2))"

lemma until_step_progress:
  assumes "until_step rp target (s, pos) (s2, pos2)" "replay_inv rp target pos0 s pos"
  shows "replay_inv rp target pos0 s2 pos2 \<and> cycles (cpu (mach s)) < cycles (cpu (mach s2))"
  using assms(1)
proof (rule until_stepE)
  fix m1 k n s2'
  assume lt: "cycles (cpu (mach s)) < target"
    and e: "(s2, pos2) = (s2', pos + k)"
    and d: "drain (rp_frames rp) (drop pos (rp_log rp)) (mach s) = Some (m1, k)"
    and r: "run_steps_full_g (rp_ctx rp) (rp_dwt rp) (s\<lparr>mach := m1\<rparr>) (stop_at rp (pos + k) target - cycles (cpu m1)) = Some (n, s2')"
    and ne: "cycles (cpu (mach s2')) \<noteq> cycles (cpu m1)"
  note st = replay_step [OF assms(2) lt d, of n s2']
  let ?c = "cycles (cpu m1)" and ?stop = "stop_at rp (pos + k) target"
  have "run_ok (s\<lparr>mach := m1\<rparr>)" using assms(2) by (simp add: replay_inv_def run_ok_def)
  from run_g_clock [OF r this] obtain j where j: "j \<le> unat (?stop - ?c)"
    "cycles (cpu (mach s2')) = ?c + of_nat j" by auto
  have "?c \<le> ?stop" using st by auto
  then have "?c \<le> cycles (cpu (mach s2'))" using clock_within(2) [OF _ j(1)] j(2) by simp
  then show ?thesis using st r e ne by auto
qed

lemma until_loop_returns:
  "replay_inv rp target pos0 s pos \<Longrightarrow>
   \<forall>s' pos'. (until_step rp target)\<^sup>*\<^sup>* (s, pos) (s', pos') \<and> cycles (cpu (mach s')) < target \<longrightarrow>
     iteration_returns rp target s' pos' \<Longrightarrow> \<exists>y. until_loop rp target s pos = Some y"
proof (induction "unat (target - cycles (cpu (mach s)))" arbitrary: s pos rule: less_induct)
  case less
  let ?c = "cycles (cpu (mach s))"
  show ?case
  proof (cases "?c < target")
    case True
    then have "iteration_returns rp target s pos" using less.prems(2) by blast
    then obtain m1 k n s2 where d: "drain (rp_frames rp) (drop pos (rp_log rp)) (mach s) = Some (m1, k)"
      and r: "run_steps_full_g (rp_ctx rp) (rp_dwt rp) (s\<lparr>mach := m1\<rparr>)
        (stop_at rp (pos + k) target - cycles (cpu m1)) = Some (n, s2)" by (auto simp: iteration_returns_def)
    have "\<exists>y. until_loop rp target s2 (pos + k) = Some y" if ne: "cycles (cpu (mach s2)) \<noteq> cycles (cpu m1)"
    proof -
      have st: "until_step rp target (s, pos) (s2, pos + k)" using True d r ne by (rule goes_on)
      note p = until_step_progress [OF st less.prems(1)]
      have le: "cycles (cpu (mach s2)) \<le> target" using p by (simp add: replay_inv_def)
      have "unat (target - cycles (cpu (mach s2))) < unat (target - ?c)"
        using conjunct2 [OF p] le True by (simp add: unat_sub word_less_nat_alt word_le_nat_alt)
      moreover have "\<forall>s' pos'. (until_step rp target)\<^sup>*\<^sup>* (s2, pos + k) (s', pos') \<and> cycles (cpu (mach s')) < target \<longrightarrow>
          iteration_returns rp target s' pos'"
        using less.prems(2) converse_rtranclp_into_rtranclp [of "until_step rp target", OF st] by blast
      ultimately show ?thesis using less.hyps p by blast
    qed
    then show ?thesis using True d r by (subst until_loop.simps) (auto simp: Let_def)
  qed (subst until_loop.simps, simp)
qed

lemma run_until_returns:
  assumes "replay_inv rp target pos s pos"
    "\<forall>s' pos'. (until_step rp target)\<^sup>*\<^sup>* (s, pos) (s', pos') \<and> cycles (cpu (mach s')) < target \<longrightarrow>
     iteration_returns rp target s' pos'"
  shows "\<exists>y. run_until_cycle rp target s pos = Some y"
  using until_loop_returns [OF assms] by (auto simp: run_until_cycle_def)

end
