(* ===== verification/Uart_Fifo.thy ===== *)
theory Uart_Fifo
  imports Machine
begin

text \<open>
  The receive queue of the UART (\<^verbatim>\<open>src/periph/uart.c\<close>), a ring of 64 bytes with free-running
  8-bit cursors, as an implementation of a bounded queue.
\<close>

section \<open>The contract of a bounded queue\<close>

locale bounded_queue =
  fixes put :: "'s \<Rightarrow> 'a \<Rightarrow> 's"
    and get :: "'s \<Rightarrow> 'a option \<times> 's"
    and ok :: "'s \<Rightarrow> bool"
    and abs :: "'s \<Rightarrow> 'a list"
    and cap :: nat
  assumes put_abs: "ok s \<Longrightarrow> length (abs s) < cap \<Longrightarrow> ok (put s x) \<and> abs (put s x) = abs s @ [x]"
    and get_nil: "ok s \<Longrightarrow> abs s = [] \<Longrightarrow> get s = (None, s)"
    and get_abs: "ok s \<Longrightarrow> abs s = x # xs \<Longrightarrow> \<exists>s'. get s = (Some x, s') \<and> ok s' \<and> abs s' = xs"
begin

fun gets :: "nat \<Rightarrow> 's \<Rightarrow> 'a list \<times> 's" where
  "gets 0 s = ([], s)"
| "gets (Suc n) s = (case get s of (None, s') \<Rightarrow> ([], s')
     | (Some x, s') \<Rightarrow> (let (xs, s'') = gets n s' in (x # xs, s'')))"

lemma puts: "ok s \<Longrightarrow> length (abs s) + length xs \<le> cap \<Longrightarrow> ok (foldl put s xs) \<and> abs (foldl put s xs) = abs s @ xs"
proof (induction xs arbitrary: s)
  case (Cons x xs)
  then have "ok (put s x) \<and> abs (put s x) = abs s @ [x]" by (intro put_abs) auto
  then show ?case using Cons.IH [of "put s x"] Cons.prems by simp
qed simp

lemma gets_abs: "ok s \<Longrightarrow> \<exists>s'. gets n s = (take n (abs s), s') \<and> ok s' \<and> abs s' = drop n (abs s)"
proof (induction n arbitrary: s)
  case (Suc n)
  show ?case
  proof (cases "abs s")
    case Nil
    then show ?thesis using get_nil [OF Suc.prems] Suc.prems by simp
  next
    case (Cons x xs)
    then obtain s' where "get s = (Some x, s')" "ok s'" "abs s' = xs" using get_abs [OF Suc.prems] by blast
    then show ?thesis using Suc.IH [of s'] Cons by auto
  qed
qed simp

lemma first_in_first_out:
  assumes "ok s" "length (abs s) + length xs \<le> cap"
  shows "fst (gets (length (abs s) + length xs) (foldl put s xs)) = abs s @ xs"
  using puts [OF assms] gets_abs [of "foldl put s xs" "length (abs s) + length xs"] by auto

end

section \<open>The ring\<close>

definition uart_get :: "uart_t \<Rightarrow> u8 option \<times> uart_t" where
  "uart_get u = (if fst (uart_read u 4) AND 0x20 \<noteq> 0 then (Some (to8 (fst (uart_read u 0))), snd (uart_read u 0))
                 else (None, u))"

definition rx_count :: "uart_t \<Rightarrow> nat" where
  "rx_count u = unat (rx_tail u - rx_head u)"

definition rx_abs :: "uart_t \<Rightarrow> u8 list" where
  "rx_abs u = map (\<lambda>i. rx_q u ((rx_head u + of_nat i) AND 63)) [0..<rx_count u]"

definition rx_ok :: "uart_t \<Rightarrow> bool" where
  "rx_ok u \<longleftrightarrow> replay_mode u \<and> rx_count u \<le> 64"

lemma and63: "unat ((a :: u8) AND 63) = unat a mod 64"
proof -
  have "a AND 63 = take_bit 6 a" by (simp add: take_bit_eq_mask mask_eq_exp_minus_1)
  then have "unat (a AND 63) = take_bit 6 (unat a)" by (simp only: unsigned_take_bit_eq)
  then show ?thesis by (simp add: take_bit_eq_mod)
qed

lemma ring_apart:
  fixes h :: u8
  assumes "i < n" "n < 64"
  shows "(h + of_nat i) AND 63 \<noteq> (h + of_nat n) AND 63"
proof
  have u: "unat ((h + of_nat k) AND 63) = (unat h + k) mod 64" if "k < 64" for k
    using that by (simp add: and63 unat_word_ariths unsigned_of_nat take_bit_nat_eq_self mod_mod_cancel)
  assume "(h + of_nat i) AND 63 = (h + of_nat n) AND 63"
  then have "(unat h + i) mod 64 = (unat h + n) mod 64" using assms u [of i] u [of n] by simp
  then have "64 dvd n - i" using assms
    by (metis add_diff_cancel_left less_imp_le mod_eq_dvd_iff_nat nat_add_left_cancel_le)
  then show False using assms by (auto dest: dvd_imp_le)
qed

lemma rx_count_put:
  assumes "rx_count u < 64"
  shows "rx_count (uart_inject_rx u x) = Suc (rx_count u)"
proof -
  have "rx_count (uart_inject_rx u x) = unat ((rx_tail u - rx_head u) + 1)"
    by (simp add: rx_count_def uart_inject_rx_def algebra_simps)
  then show ?thesis using assms by (simp add: rx_count_def unat_word_ariths)
qed

lemma rx_tail_count: "rx_tail u = rx_head u + of_nat (rx_count u)"
  by (simp add: rx_count_def)

lemma uart_get_Some:
  assumes "replay_mode u" "rx_count u \<noteq> 0"
  shows "uart_get u = (Some (rx_q u (rx_head u AND 63)), u\<lparr>rx_head := rx_head u + 1\<rparr>)"
    "rx_count (u\<lparr>rx_head := rx_head u + 1\<rparr>) = rx_count u - 1"
proof -
  have "rx_head u \<noteq> rx_tail u" using assms(2) by (auto simp: rx_count_def)
  then show "uart_get u = (Some (rx_q u (rx_head u AND 63)), u\<lparr>rx_head := rx_head u + 1\<rparr>)"
    using assms(1) by (simp add: uart_get_def uart_read_def to8_to32)
  have "rx_count (u\<lparr>rx_head := rx_head u + 1\<rparr>) = unat ((rx_tail u - rx_head u) - 1)"
    by (simp add: rx_count_def algebra_simps)
  moreover have "1 \<le> rx_tail u - rx_head u" using assms(2) by (simp add: rx_count_def word_le_nat_alt)
  ultimately show "rx_count (u\<lparr>rx_head := rx_head u + 1\<rparr>) = rx_count u - 1"
    by (simp add: rx_count_def unat_sub)
qed

interpretation rx: bounded_queue uart_inject_rx uart_get rx_ok rx_abs 64
proof
  fix s x
  assume ok: "rx_ok s" and len: "length (rx_abs s) < 64"
  then have c: "rx_count s < 64" by (simp add: rx_abs_def)
  have "rx_abs (uart_inject_rx s x) = rx_abs s @ [x]"
    using ring_apart [of _ "rx_count s" "rx_head s"] c unfolding rx_abs_def rx_count_put [OF c]
    by (simp add: uart_inject_rx_def) (simp add: rx_tail_count)
  then show "rx_ok (uart_inject_rx s x) \<and> rx_abs (uart_inject_rx s x) = rx_abs s @ [x]"
    using ok c rx_count_put [OF c, of x] by (simp add: rx_ok_def uart_inject_rx_def)
next
  fix s assume "rx_ok s" "rx_abs s = []"
  then have "rx_tail s = rx_head s" by (simp add: rx_abs_def rx_count_def unat_eq_0)
  then show "uart_get s = (None, s)" by (simp add: uart_get_def uart_read_def)
next
  fix s x xs assume ok: "rx_ok s" and abs: "rx_abs s = x # xs"
  then have c: "rx_count s \<noteq> 0" by (cases "rx_count s = 0") (simp_all add: rx_abs_def)
  let ?s = "s\<lparr>rx_head := rx_head s + 1\<rparr>"
  have "[0..<rx_count s] = 0 # map Suc [0..<rx_count s - 1]"
    using c by (cases "rx_count s") (simp_all add: upt_conv_Cons map_Suc_upt del: upt_Suc)
  then have "rx_abs s = rx_q s (rx_head s AND 63) #
      map (\<lambda>i. rx_q s ((rx_head s + of_nat (Suc i)) AND 63)) [0..<rx_count s - 1]"
    unfolding rx_abs_def by (simp only: list.map map_map comp_def semiring_1_class.of_nat_0 add_0_right)
  moreover have "rx_abs ?s = map (\<lambda>i. rx_q s ((rx_head s + of_nat (Suc i)) AND 63)) [0..<rx_count s - 1]"
  proof -
    have "rx_count ?s = rx_count s - 1" using ok uart_get_Some(2) [OF _ c] by (simp add: rx_ok_def)
    moreover have "rx_head ?s + of_nat i = rx_head s + of_nat (Suc i)" for i by (simp add: add.commute add.left_commute)
    moreover have "rx_q ?s = rx_q s" by simp
    ultimately show ?thesis by (simp only: rx_abs_def)
  qed
  ultimately have "rx_abs s = rx_q s (rx_head s AND 63) # rx_abs ?s" by (rule trans [OF _ arg_cong2 [where f = Cons, OF refl sym]])
  then show "\<exists>s'. uart_get s = (Some x, s') \<and> rx_ok s' \<and> rx_abs s' = xs"
    using abs ok uart_get_Some [OF _ c] by (auto simp: rx_ok_def)
qed

end
