(* ===== verification/Bits_Laws.thy ===== *)
theory Bits_Laws
  imports Executor
begin

text \<open>
  What the bit-twiddling instructions of executor.c compute: bit fields, leading zeros, bit and
  byte reversal, and the 64-bit products.
\<close>

section \<open>Bit fields\<close>

lemma width_mask_bits: "bit (width_mask w) k \<longleftrightarrow> k < 32 \<and> k < unat w"
proof (cases "32 \<le> w")
  case True
  then have "32 \<le> unat w" by (simp add: word_le_nat_alt)
  moreover have "(0xFFFFFFFF :: u32) = mask 32" by (simp add: mask_eq_exp_minus_1)
  then have "width_mask w = mask 32" using True by (simp add: width_mask_def)
  then have "bit (width_mask w) k \<longleftrightarrow> k < 32" by (simp only: bit_mask_iff) simp
  ultimately show ?thesis by auto
next
  case False
  then have "width_mask w = mask (unat w)" by (simp add: width_mask_def mask_eq_exp_minus_1 push_bit_eq_mult)
  then show ?thesis by (auto simp: bit_mask_iff)
qed

lemma and31: "unat (w AND 0x1F :: u32) = unat w mod 32"
proof -
  have "w AND 0x1F = take_bit 5 w" by (simp add: take_bit_eq_mask mask_eq_exp_minus_1)
  then have "unat (w AND 0x1F) = take_bit 5 (unat w)" by (simp only: unsigned_take_bit_eq)
  then show ?thesis by (simp add: take_bit_eq_mod)
qed

lemma and31_lt: "unat (w AND 0x1F :: u32) < 32" by (simp add: and31)

lemma bfi_bits:
  assumes "imm AND 0x1F \<le> fld imm 8 0x1F"
  shows "bit (bfi d n imm) k = (if unat (imm AND 0x1F) \<le> k \<and> k \<le> unat (fld imm 8 0x1F)
    then bit n (k - unat (imm AND 0x1F)) else bit d k)"
proof -
  let ?l = "imm AND 0x1F" and ?m = "fld imm 8 0x1F"
  have w: "unat (?m - ?l + 1) = Suc (unat ?m - unat ?l)" and m: "unat ?m < 32" and le: "unat ?l \<le> unat ?m"
    using assms and31_lt [of "drop_bit 8 imm"] and31_lt [of imm]
    by (simp_all add: unat_word_ariths unat_sub word_le_nat_alt)
  have "bit (bfi d n imm) k \<longleftrightarrow> (if unat ?l \<le> k \<and> k < 32 \<and> k - unat ?l < Suc (unat ?m - unat ?l)
      then bit n (k - unat ?l) else bit d k)"
    unfolding bfi_def Let_def using impossible_bit [of _ k]
    by (cases "k < 32") (auto simp: bit_or_iff bit_and_iff bit_not_iff bit_push_bit_iff width_mask_bits w impossible_bit)
  then show ?thesis using m le by auto
qed

lemma bfc_bits:
  assumes "imm AND 0x1F \<le> fld imm 8 0x1F"
  shows "bit (bfc d imm) k \<longleftrightarrow> bit d k \<and> \<not> (unat (imm AND 0x1F) \<le> k \<and> k \<le> unat (fld imm 8 0x1F))"
proof -
  have "bfc d imm = bfi d 0 imm" by (simp add: bfc_def bfi_def Let_def)
  then show ?thesis using bfi_bits [OF assms, of d 0 k] by auto
qed

lemma ubfx_bits:
  "bit (ubfx n imm) k \<longleftrightarrow> k \<le> unat (fld imm 8 0x1F) \<and> bit n (unat (imm AND 0x1F) + k)"
proof -
  let ?m = "fld imm 8 0x1F"
  have "unat (?m + 1) = Suc (unat ?m)" using and31_lt [of "drop_bit 8 imm"] by (simp add: unat_word_ariths)
  then show ?thesis
    unfolding ubfx_def Let_def
    using and31_lt [of "drop_bit 8 imm"] by (auto simp: bit_and_iff bit_drop_bit_eq width_mask_bits less_Suc_eq_le)
qed

lemma sbfx_bits:
  assumes "k < 32"
  shows "bit (sbfx n imm) k \<longleftrightarrow> bit n (unat (imm AND 0x1F) + min k (unat (fld imm 8 0x1F)))"
proof -
  let ?l = "unat (imm AND 0x1F)" and ?m = "unat (fld imm 8 0x1F)"
  define sg :: u32 where "sg = push_bit ?m 1"
  define val where "val = ubfx n imm"
  have m: "?m < 32" by (rule and31_lt)
  have val: "bit val j \<longleftrightarrow> j \<le> ?m \<and> bit n (?l + j)" for j unfolding val_def by (rule ubfx_bits)
  have s: "bit sg j \<longleftrightarrow> j = ?m" for j using m by (auto simp: sg_def bit_exp_iff)
  have e: "sbfx n imm = (val XOR sg) - sg" by (simp add: sbfx_def val_def ubfx_def Let_def sg_def)
  show ?thesis
  proof (cases "bit n (?l + ?m)")
    case False
    then have "val XOR sg = val OR sg" by (auto intro!: bit_word_eqI simp: bit_xor_iff bit_or_iff val s)
    also have "\<dots> = val + sg" using False val s by (intro disjunctive_add [symmetric]) auto
    finally have "sbfx n imm = val" using e by simp
    then show ?thesis using val False assms by (auto simp: min_def)
  next
    case True
    let ?r = "val AND NOT sg"
    have "val XOR sg = ?r" using True by (auto intro!: bit_word_eqI simp: bit_xor_iff bit_and_iff bit_not_iff val s)
    then have "sbfx n imm = ?r - sg" using e by simp
    also have "\<dots> = ?r + (NOT (mask ?m))"
    proof -
      have "- sg = NOT (mask ?m)" by (simp add: sg_def mask_eq_exp_minus_1 push_bit_eq_mult not_diff_distrib minus_eq_not_minus_1)
      then show ?thesis by simp
    qed
    also have "\<dots> = ?r OR NOT (mask ?m)"
      by (intro disjunctive_add) (auto simp: bit_and_iff bit_not_iff bit_mask_iff val s)
    finally show ?thesis using True assms m
      by (auto simp: bit_or_iff bit_and_iff bit_not_iff bit_mask_iff val s min_def)
  qed
qed

section \<open>Leading zeros\<close>

lemma clz_loop_spec:
  assumes "v \<noteq> 0" "\<forall>j. j + k < 32 \<longrightarrow> \<not> bit v j"
  shows "\<exists>z. clz_loop k v n = n + of_nat z \<and> z < 32 \<and> bit v (31 - z) \<and> (\<forall>j. 31 - z < j \<longrightarrow> \<not> bit v j)"
  using assms
proof (induction k arbitrary: v n)
  case 0
  then have "v = 0" by (auto intro!: bit_word_eqI simp: impossible_bit)
  then show ?case using 0 by simp
next
  case (Suc k)
  have b: "v AND 0x80000000 = 0 \<longleftrightarrow> \<not> bit v 31"
    by (rule flag_N0)
  show ?case
  proof (cases "bit v 31")
    case True
    then show ?thesis using b by (intro exI [of _ 0]) (auto simp: impossible_bit)
  next
    case False
    define w where "w = push_bit 1 v"
    have bw: "bit w j \<longleftrightarrow> 1 \<le> j \<and> j < 32 \<and> bit v (j - 1)" for j unfolding w_def by (auto simp: bit_push_bit_iff simp del: push_bit_Suc)
    have "w \<noteq> 0"
    proof
      assume z: "w = 0"
      have "\<not> bit v j" if "j < 31" for j using z bw [of "Suc j"] that by simp
      then have "\<not> bit v j" for j using False bit_imp_le_length [of v j] by (cases j "31 :: nat" rule: linorder_cases) auto
      then have "v = 0" by (intro bit_word_eqI) simp
      then show False using Suc.prems(1) by simp
    qed
    moreover have "\<forall>j. j + k < 32 \<longrightarrow> \<not> bit w j" using Suc.prems(2) by (auto simp: bw)
    ultimately obtain z where z: "clz_loop k w (n + 1) = n + 1 + of_nat z" "z < 32" "bit w (31 - z)"
      "\<forall>j. 31 - z < j \<longrightarrow> \<not> bit w j" using Suc.IH by blast
    have zv: "z \<le> 30" "bit v (31 - Suc z)" using z(2,3) by (auto simp: bw)
    moreover have "\<not> bit v j" if "31 - Suc z < j" for j
    proof (cases "j < 31")
      case True
      then show ?thesis using z(4) that zv(1) bw [of "Suc j"] by auto
    next
      case ge: False
      then show ?thesis using False bit_imp_le_length [of v j] by (cases "j = 31") auto
    qed
    ultimately show ?thesis using z(1) False b unfolding w_def by (intro exI [of _ "Suc z"]) (auto simp: add.assoc)
  qed
qed

lemma clz_top:
  assumes "v \<noteq> 0"
  shows "unat (clz v) < 32 \<and> bit v (31 - unat (clz v)) \<and> (\<forall>j. 31 - unat (clz v) < j \<longrightarrow> \<not> bit v j)"
proof -
  obtain z where "clz_loop 32 v 0 = of_nat z" "z < 32" "bit v (31 - z)" "\<forall>j. 31 - z < j \<longrightarrow> \<not> bit v j"
    using clz_loop_spec [OF assms, of 32 0] by auto
  then show ?thesis using assms by (simp add: clz_def unsigned_of_nat take_bit_nat_eq_self)
qed

section \<open>Reversal\<close>

text \<open>One stage exchanges the neighbouring groups of \<open>2 ^ s\<close> bits.\<close>

lemma upto_32: "(n :: nat) < 32 \<longleftrightarrow> n \<in> {0, 1, 2, 3, 4, 5, 6, 7, 8, 9, 10, 11, 12, 13, 14, 15, 16, 17, 18, 19, 20,
    21, 22, 23, 24, 25, 26, 27, 28, 29, 30, 31}"
proof -
  have "[0..<32] = [0, 1, 2, 3, 4, 5, 6, 7, 8, 9, 10, 11, 12, 13, 14, 15, 16, 17, 18, 19, 20,
    21, 22, 23, 24, 25, 26, 27, 28, 29, 30, 31]" by code_simp
  then have "set [0..<32] = {0, 1, 2, 3, 4, 5, 6, 7, 8, 9, 10, 11, 12, 13, 14, 15, 16, 17, 18, 19, 20,
    21, 22, 23, 24, 25, 26, 27, 28, 29, 30, 31}" by (simp only: list.set)
  moreover have "n < 32 \<longleftrightarrow> n \<in> set [0..<32]" by simp
  ultimately show ?thesis by (simp only:)
qed

lemma rbit_bits: "n < 32 \<Longrightarrow> bit (rbit v) n = bit v (31 - n)"
  unfolding upto_32 by (elim insertE emptyE; simp add: rbit_def bit_simps del: push_bit_Suc)

lemma rev_bytes:
  "to8 (rev_word v) = to8 (drop_bit 24 v)" "to8 (drop_bit 8 (rev_word v)) = to8 (drop_bit 16 v)"
  "to8 (drop_bit 16 (rev_word v)) = to8 (drop_bit 8 v)" "to8 (drop_bit 24 (rev_word v)) = to8 v"
  by (simp_all add: u8_eq_iff rev_word_def bit_simps)

lemma rev_word_twice: "rev_word (rev_word v) = v"
proof (rule bit_word_eqI)
  fix n :: nat assume "n < LENGTH(32)"
  show "bit (rev_word (rev_word v)) n = bit v n"
  proof -
    have "n < 32" using \<open>n < LENGTH(32)\<close> by simp
    then show ?thesis unfolding upto_32 by (elim insertE emptyE; simp add: rev_word_def bit_simps)
  qed
qed

section \<open>Products\<close>

lemma put_pair_regs:
  assumes "ird i \<noteq> irs i"
  shows "reg (put_pair m i p) (irs i) = to32 (drop_bit 32 p)" "reg (put_pair m i p) (ird i) = to32 p"
  using assms by (simp_all add: put_pair_def)

lemma umull_value: "unat (to64 (a :: u32) * to64 (b :: u32)) = unat a * unat b"
proof -
  have "unat a \<le> 2 ^ 32 - 1" "unat b \<le> 2 ^ 32 - 1" using unat_lt32 [of a] unat_lt32 [of b] by simp_all
  then have "unat a * unat b \<le> (2 ^ 32 - 1) * (2 ^ 32 - 1)" by (rule mult_le_mono)
  then show ?thesis by (simp add: unat_word_ariths unat_to64)
qed

lemma halves: "unat (to32 (drop_bit 32 (p :: u64))) * 2 ^ 32 + unat (to32 p) = unat p"
proof -
  have "unat (to32 p) = unat p mod 2 ^ 32" by (simp add: unsigned_ucast_eq take_bit_eq_mod)
  moreover have "unat (drop_bit 32 p) = unat p div 2 ^ 32" by (simp add: drop_bit_eq_div unat_div)
  moreover have "unat p div 2 ^ 32 < 2 ^ 32" using unsigned_less [of p, where ?'a = nat] by simp
  ultimately show ?thesis by (simp add: unsigned_ucast_eq take_bit_eq_mod)
qed

end
