(* ===== verification/Cache_Laws.thy ===== *)
theory Cache_Laws
  imports Run_Laws
begin

text \<open>
  The decode cache and the pre-decoded blocks of the JIT against a reference interpreter that
  decodes every instruction anew.  Both agree for code in memory that no store may change.
\<close>

section \<open>Code in ROM\<close>

text \<open>The four bytes at \<open>pc\<close> lie in one flat region that is not writable.\<close>

definition rom_pc :: "machine \<Rightarrow> addr_t \<Rightarrow> bool" where
  "rom_pc m pc \<longleftrightarrow> (case find_region (regions m) pc of None \<Rightarrow> False
     | Some k \<Rightarrow> find_region (regions m) (pc + 2) = Some k \<and> kind (regions m ! k) = REGION_FLAT \<and>
         \<not> writable (regions m ! k) \<and> pc - base (regions m ! k) + 2 \<le> rsize (regions m ! k) \<and>
         pc + 2 - base (regions m ! k) + 2 \<le> rsize (regions m ! k))"

lemma rom_region:
  assumes "same_rom m m'"
  shows "find_region (regions m') a = find_region (regions m) a"
    "k < length (regions m) \<Longrightarrow> \<not> writable (regions m ! k) \<Longrightarrow> regions m' ! k = regions m ! k"
proof -
  let ?g = "\<lambda>r. if writable r then shape r else r"
  have e: "map ?g (regions m') = map ?g (regions m)" using assms by (simp add: same_rom_def rom_of_def)
  have gs: "shape (?g r) = shape r" for r by (simp add: shape_def)
  have "map shape (regions m') = map shape (regions m)"
    using arg_cong [OF e, of "map shape"] by (simp only: map_map comp_def gs)
  then show "find_region (regions m') a = find_region (regions m) a" by (rule find_region_shape)
  assume k: "k < length (regions m)" "\<not> writable (regions m ! k)"
  have len: "length (regions m') = length (regions m)" using e by (metis length_map)
  have "?g (regions m' ! k) = ?g (regions m ! k)" using arg_cong [OF e, of "\<lambda>l. l ! k"] k(1) unfolding len [symmetric]
    by (simp only: nth_map len [symmetric])
  then have g: "?g (regions m' ! k) = regions m ! k" using k(2) by simp
  have "\<not> writable (regions m' ! k)"
  proof
    assume w: "writable (regions m' ! k)"
    then have "writable (?g (regions m' ! k))" by (simp add: shape_def)
    then show False unfolding g using k(2) by blast
  qed
  then show "regions m' ! k = regions m ! k" using g by simp
qed

lemma rom_pc_same: "same_rom m m' \<Longrightarrow> rom_pc m pc \<Longrightarrow> rom_pc m' pc"
  using rom_region [of m m'] find_region_Some [of "regions m" pc]
  by (auto simp: rom_pc_def split: option.splits)

text \<open>What decoding finds in ROM depends on the ROM alone, and changes nothing.\<close>

lemma decode_rom:
  assumes "rom_pc m pc" "same_rom m m'"
  shows "\<exists>sz i. decode m pc i0 = (sz, i, m) \<and> decode m' pc i0 = (sz, i, m')"
proof -
  obtain k where k: "find_region (regions m) pc = Some k" "find_region (regions m) (pc + 2) = Some k"
    "kind (regions m ! k) = REGION_FLAT" "\<not> writable (regions m ! k)"
    "\<not> rsize (regions m ! k) < pc - base (regions m ! k) + 2"
    "\<not> rsize (regions m ! k) < pc + 2 - base (regions m ! k) + 2"
    using assms(1) by (auto simp: rom_pc_def not_less split: option.splits)
  have "k < length (regions m)" using find_region_Some [OF k(1)] by simp
  then have e: "regions m' ! k = regions m ! k" using rom_region(2) [OF assms(2) _ k(4)] by blast
  note f = rom_region(1) [OF assms(2)]
  have r: "\<exists>h. bus_r16 m a = (h, m) \<and> bus_r16 m' a = (h, m')" if "a = pc \<or> a = pc + 2" for a
    using that k bus_read_flat [of m a k 2] bus_read_flat [of m' a k 2] by (auto simp: bus_r16_def e f)
  obtain h1 h2 where "bus_r16 m pc = (h1, m)" "bus_r16 m' pc = (h1, m')"
    "bus_r16 m (pc + 2) = (h2, m)" "bus_r16 m' (pc + 2) = (h2, m')" using r by blast
  then show ?thesis by (simp add: decode_def)
qed

section \<open>The decode cache\<close>

text \<open>Every valid entry for an address in ROM holds what decoding that address gives.\<close>

definition coherent :: "insn_t \<Rightarrow> (u32 \<Rightarrow> dcache_e) \<Rightarrow> machine \<Rightarrow> bool" where
  "coherent i0 d m \<longleftrightarrow> (\<forall>x. dvalid (d x) \<and> rom_pc m (dtag (d x)) \<longrightarrow>
     dins (d x) = fst (snd (decode m (dtag (d x)) i0)))"

lemma coherent_invalidate: "coherent i0 (dcache_invalidate i1) m"
  by (simp add: coherent_def dcache_invalidate_def)

lemma coherent_same:
  assumes "coherent i0 d m" "same_rom m m'"
  shows "coherent i0 d m'"
  unfolding coherent_def
proof (intro allI impI)
  fix x assume x: "dvalid (d x) \<and> rom_pc m' (dtag (d x))"
  have "same_rom m' m" using assms(2) by (simp add: same_rom_def)
  from rom_pc_same [OF this] have "rom_pc m (dtag (d x))" using x by blast
  then show "dins (d x) = fst (snd (decode m' (dtag (d x)) i0))"
    using decode_rom [OF _ assms(2), of "dtag (d x)" i0] assms(1) x by (auto simp: coherent_def)
qed

lemma cache_decode_coherent:
  assumes "coherent i0 d m" "rom_pc m pc"
  shows "\<exists>d'. cache_decode d m pc i0 = (fst (snd (decode m pc i0)), d', m) \<and> coherent i0 d' m"
proof -
  let ?e = "d (dcache_idx pc)"
  obtain sz i where dec: "decode m pc i0 = (sz, i, m)"
    using decode_rom [OF assms(2), of m i0] by (auto simp: same_rom_def)
  show ?thesis
  proof (cases "dvalid ?e \<and> dtag ?e = pc")
    case True
    then show ?thesis using assms dec by (auto simp: cache_decode_def coherent_def)
  next
    case False
    then show ?thesis using assms(1) dec by (auto simp: cache_decode_def coherent_def)
  qed
qed

section \<open>The reference interpreter\<close>

text \<open>One step with no cache and no compiled blocks; the boolean is whether the loop goes on.\<close>

definition step_ref :: "run_ctx_t \<Rightarrow> machine \<Rightarrow> (bool \<times> machine) option" where
  "step_ref ctx m =
     (let (_, i, m) = decode m (reg m REG_PC) (stack_insn ctx)
      in do { (ok, m1) \<leftarrow> execute m i;
              if \<not> ok then Some (False, m1)
              else do { m2 \<leftarrow> check_irqs ctx (tick_one ctx m1); Some (True, m2) } })"

fun run_ref :: "run_ctx_t \<Rightarrow> nat \<Rightarrow> machine \<Rightarrow> (nat \<times> machine) option" where
  "run_ref ctx 0 m = Some (0, m)"
| "run_ref ctx (Suc n) m =
     (if halted (cpu m) then Some (0, m)
      else do { (ok, m1) \<leftarrow> step_ref ctx m;
                if \<not> ok then Some (0, m1)
                else do { (k, m2) \<leftarrow> run_ref ctx n m1; Some (Suc k, m2) } })"

text \<open>The instructions of a run all come from ROM.\<close>

fun rom_trace :: "run_ctx_t \<Rightarrow> nat \<Rightarrow> machine \<Rightarrow> bool" where
  "rom_trace ctx 0 m = True"
| "rom_trace ctx (Suc n) m =
     (halted (cpu m) \<or> rom_pc m (reg m REG_PC) \<and>
      (case step_ref ctx m of Some (True, m1) \<Rightarrow> rom_trace ctx n m1 | _ \<Rightarrow> True))"

lemma step_one_ref:
  assumes "coherent (stack_insn ctx) (dcache s) (mach s)" "rom_pc (mach s) (reg (mach s) REG_PC)"
  shows "case step_ref ctx (mach s) of None \<Rightarrow> step_one ctx s = None
    | Some (ok, m1) \<Rightarrow> \<exists>s1. step_one ctx s = Some (if ok then Went 0 s1 else Stop s1) \<and> mach s1 = m1 \<and>
        jit s1 = jit s \<and> (ok \<longrightarrow> coherent (stack_insn ctx) (dcache s1) m1)"
proof -
  let ?m = "mach s" and ?i0 = "stack_insn ctx"
  obtain sz i where dec: "decode ?m (reg ?m REG_PC) ?i0 = (sz, i, ?m)"
    using decode_rom [OF assms(2), of ?m ?i0] by (auto simp: same_rom_def)
  obtain d' where c: "cache_decode (dcache s) ?m (reg ?m REG_PC) ?i0 = (i, d', ?m)" "coherent ?i0 d' ?m"
    using cache_decode_coherent [OF assms] dec by auto
  have keep: "coherent ?i0 d' m2" if "execute ?m i = Some (ok, m1)" "check_irqs ctx (tick_one ctx m1) = Some m2" for ok m1 m2
  proof -
    have "same_rom ?m m1" using rom.execute_keeps that(1) by blast
    then have "same_rom ?m m2" using rom.check_irqs_keeps [OF that(2)] rom.ticks_R(1) by blast
    then show ?thesis by (rule coherent_same [OF c(2)])
  qed
  show ?thesis
    using keep by (auto simp: step_ref_def step_one_def dec c Let_def split: option.splits bind_splits)
qed

lemma run_loop_ref:
  "jit s = None \<Longrightarrow> coherent (stack_insn ctx) (dcache s) (mach s) \<Longrightarrow> rom_trace ctx n (mach s) \<Longrightarrow>
   map_option (\<lambda>(k, s'). (k, mach s')) (run_loop ctx n s) = run_ref ctx n (mach s)"
proof (induction n arbitrary: s)
  case 0
  then show ?case by (simp add: run_loop.simps)
next
  case (Suc n)
  show ?case
  proof (cases "halted (cpu (mach s))")
    case True
    then show ?thesis by (simp add: run_loop.simps)
  next
    case False
    then have pc: "rom_pc (mach s) (reg (mach s) REG_PC)"
      "\<And>m1. step_ref ctx (mach s) = Some (True, m1) \<Longrightarrow> rom_trace ctx n m1"
      using Suc.prems(3) by auto
    have it: "run_iter ctx (Suc n) s = step_one ctx s" by (simp add: run_iter_def try_chain_def Suc.prems(1))
    note st = step_one_ref [OF Suc.prems(2) pc(1)]
    consider "step_ref ctx (mach s) = None" | m1 where "step_ref ctx (mach s) = Some (False, m1)"
      | m1 where "step_ref ctx (mach s) = Some (True, m1)" by (cases "step_ref ctx (mach s)") auto
    then show ?thesis
    proof cases
      case 1
      then show ?thesis using st False it by (simp add: run_loop.simps)
    next
      case 2
      then show ?thesis using st False it by (auto simp: run_loop.simps)
    next
      case 3
      then obtain s1 where s1: "step_one ctx s = Some (Went 0 s1)" "mach s1 = m1" "jit s1 = None"
        "coherent (stack_insn ctx) (dcache s1) m1" using st Suc.prems(1) by auto
      have r: "run_ref ctx n m1 = map_option (\<lambda>(k, s'). (k, mach s')) (run_loop ctx n s1)"
        using Suc.IH [of s1] s1 pc(2) [OF 3] by simp
      then show ?thesis using s1(1) False it 3
        by (subst run_loop.simps) (auto simp: r split: option.splits)
    qed
  qed
qed

lemma run_steps_ref:
  assumes "jit s = None" "rom_trace ctx (unat k) (mach s)"
  shows "map_option (\<lambda>(n, s'). (n, mach s')) (run_steps_full_gc ctx s k) =
    map_option (\<lambda>(n, m'). (of_nat n, m')) (run_ref ctx (unat k) (mach s))"
proof -
  let ?s = "s\<lparr>dcache := dcache_invalidate (stack_insn ctx)\<rparr>"
  have "map_option (\<lambda>(k, s'). (k, mach s')) (run_loop ctx (unat k) ?s) = run_ref ctx (unat k) (mach s)"
    using run_loop_ref [of ?s ctx "unat k"] assms by (simp add: coherent_invalidate)
  then show ?thesis
    by (cases "run_loop ctx (unat k) ?s") (auto simp: run_steps_full_gc_def dest: sym)
qed

section \<open>Pre-decoded blocks\<close>

text \<open>\<open>n\<close> instructions, each decoded where the PC is; the number is how many were executed.\<close>

fun exec_ref :: "insn_t \<Rightarrow> nat \<Rightarrow> machine \<Rightarrow> (nat \<times> machine) option" where
  "exec_ref i0 0 m = Some (0, m)"
| "exec_ref i0 (Suc n) m =
     (if halted (cpu m) then Some (0, m)
      else let (_, i, m) = decode m (reg m REG_PC) i0
           in do { (ok, m1) \<leftarrow> execute m (i\<lparr>ipc := reg m REG_PC\<rparr>);
                   if \<not> ok then Some (0, m1)
                   else do { (k, m2) \<leftarrow> exec_ref i0 n m1; Some (Suc k, m2) } })"

text \<open>
  A run of \<open>n\<close> instructions is straight when each is in ROM and the ones before the last fall
  through to the next address.
\<close>

fun straight :: "insn_t \<Rightarrow> nat \<Rightarrow> addr_t \<Rightarrow> machine \<Rightarrow> bool" where
  "straight i0 0 cur m = True"
| "straight i0 (Suc n) cur m =
     (rom_pc m cur \<and>
      (let (_, i, _) = decode m cur i0
       in case execute m (i\<lparr>ipc := cur\<rparr>) of
            Some (True, m1) \<Rightarrow> is_terminator (iop i) \<or> n = 0 \<or> halted (cpu m1) \<or>
              (reg m1 REG_PC = cur + to32 (isize i) \<and> straight i0 n (cur + to32 (isize i)) m1)
          | _ \<Rightarrow> True))"

lemma set_reg_same: "reg m n = v \<Longrightarrow> set_reg m n v = m"
proof -
  assume "reg m n = v"
  then have "(r_of (cpu m))(n := v) = r_of (cpu m)" by auto
  then show ?thesis by (cases m; cases "cpu m") simp
qed

lemma halted_ref: "halted (cpu m) \<Longrightarrow> interp_block is m = Some (0, m)" "halted (cpu m) \<Longrightarrow> exec_ref i0 n m = Some (0, m)"
  by (cases "is"; simp) (cases n; simp)

lemma interp_block_ref:
  "straight i0 n cur m \<Longrightarrow> reg m REG_PC = cur \<Longrightarrow> same_rom m m0 \<Longrightarrow>
   interp_block (fst (compile_loop n m0 cur i0)) m = exec_ref i0 (length (fst (compile_loop n m0 cur i0))) m"
proof (induction n arbitrary: cur m)
  case (Suc n)
  have rom: "rom_pc m cur" using Suc.prems(1) by simp
  obtain sz i where dec: "decode m cur i0 = (sz, i, m)" "decode m0 cur i0 = (sz, i, m0)"
    using decode_rom [OF rom Suc.prems(3), of i0] by blast
  let ?i = "i\<lparr>ipc := cur\<rparr>" and ?nxt = "cur + to32 (isize i)"
  define rest where "rest = (if is_terminator (iop i) then [] else fst (compile_loop n m0 ?nxt i0))"
  have c: "fst (compile_loop (Suc n) m0 cur i0) = ?i # rest"
    by (simp add: dec Let_def case_prod_unfold rest_def)
  have pc: "set_reg m REG_PC cur = m" by (rule set_reg_same [OF Suc.prems(2)])
  show ?case
  proof (cases "halted (cpu m)")
    case True
    then show ?thesis by (simp only: halted_ref)
  next
    case False
    consider "execute m ?i = None" | m1 where "execute m ?i = Some (False, m1)" | m1 where "execute m ?i = Some (True, m1)"
      by (cases "execute m ?i") auto
    then show ?thesis
    proof cases
      case (3 m1)
      have rest: "interp_block rest m1 = exec_ref i0 (length rest) m1" if nt: "\<not> is_terminator (iop i)"
      proof (cases "n = 0 \<or> halted (cpu m1)")
        case True
        then show ?thesis using nt by (auto simp: rest_def halted_ref)
      next
        case False
        have "same_rom m m1" using rom.execute_keeps [OF 3] .
        then have "same_rom m1 m0" using Suc.prems(3) by (simp add: same_rom_def)
        moreover have "reg m1 REG_PC = ?nxt" "straight i0 n ?nxt m1"
          using Suc.prems(1) dec(1) 3 nt False by simp_all
        ultimately show ?thesis using Suc.IH nt by (simp add: rest_def)
      qed
      show ?thesis unfolding c using False pc dec(1) Suc.prems(2) 3 rest
        by (cases "is_terminator (iop i)") (simp_all add: rest_def)
    qed (unfold c, use False pc dec(1) Suc.prems(2) in simp_all)
  qed
qed simp

end
