(* ===== verification/Stack_Laws.thy ===== *)
theory Stack_Laws
  imports Executor Exc_Laws
begin

text \<open>
  The block transfers of executor.c in flat memory: PUSH and POP, as stores and loads of word
  sequences.
\<close>

lemma filter_split: "n \<le> m \<Longrightarrow> List.filter p [0..<m] = List.filter p [0..<n] @ List.filter p [n..<m]"
  by (metis filter_append le_add_diff_inverse upt_add_eq_append zero_le)

text \<open>The words a store of a register list writes.\<close>

definition stored :: "(cpu_t \<Rightarrow> nat \<Rightarrow> u32) \<Rightarrow> u32 \<Rightarrow> nat list \<Rightarrow> cpu_t \<Rightarrow> u32 list" where
  "stored val l ks c = map (val c) (List.filter (bit l) ks)"

lemma wr_flat: "st_word m a v = Some m' \<Longrightarrow> wr m a 4 v k = k m'"
  by (simp add: wr_def st_word_Some)

lemma rd_flat: "flat_read_ok m a \<Longrightarrow> ld_word m a = Some v \<Longrightarrow> rd m a 4 k = k v m"
  using flat_read [of m a] by (auto simp: rd_def)

lemma flat_ok_read: "flat_ok m a \<Longrightarrow> flat_read_ok m a"
  by (auto simp: flat_ok_def flat_read_ok_def Let_def split: option.splits)

lemma stm_flat:
  "flat_word.st_seq m a (stored val l ks (cpu m)) = Some m' \<Longrightarrow>
   \<forall>k < length (stored val l ks (cpu m)). flat_ok m (a + 4 * of_nat k) \<Longrightarrow>
   stm_loop val l ks m a rest = rest m' (a + 4 * of_nat (length (stored val l ks (cpu m))))"
proof (induction ks arbitrary: m a)
  case (Cons k ks)
  show ?case
  proof (cases "bit l k")
    case False
    then show ?thesis using Cons by (simp add: stored_def)
  next
    case True
    let ?v = "val (cpu m) k" and ?vs = "stored val l ks (cpu m)"
    have st: "stored val l (k # ks) (cpu m) = ?v # ?vs" using True by (simp add: stored_def)
    have a: "flat_ok m a" using Cons.prems(2) unfolding st by force
    obtain m1 where m1: "st_word m a ?v = Some m1" "flat_word.st_seq m1 (a + 4) ?vs = Some m'"
      using Cons.prems(1) unfolding st by (auto split: bind_splits)
    have c: "cpu m1 = cpu m" using st_word_frame [OF a m1(1)] by (metis machine.select_convs(1) machine.surjective machine.update_convs(2))
    have ok: "flat_ok m1 (a + 4 + 4 * of_nat j)" if "j < length ?vs" for j
    proof -
      have "flat_ok m (a + 4 * of_nat (Suc j))" using that Cons.prems(2) unfolding st by (metis Suc_less_eq length_Cons)
      then show ?thesis using flat_word.st_ok [OF a m1(1)] by (simp add: algebra_simps)
    qed
    have "stm_loop val l ks m1 (a + 4) rest = rest m' (a + 4 + 4 * of_nat (length ?vs))"
      using Cons.IH [of m1 "a + 4"] m1(2) ok by (simp add: c)
    then show ?thesis using True wr_flat [OF m1(1)] unfolding st by (simp add: algebra_simps)
  qed
qed (simp add: stored_def)

text \<open>The registers after loading the values \<open>f\<close> for the numbers in a list; 15 is left out.\<close>

definition loaded :: "nat list \<Rightarrow> (nat \<Rightarrow> u32) \<Rightarrow> machine \<Rightarrow> machine" where
  "loaded ks f m = cpu_update (r_of_update (\<lambda>r n. if unat n \<in> set ks \<and> unat n \<noteq> 15 then f (unat n) else r n)) m"

lemma r_of_ext: "f (r_of (cpu m)) = g (r_of (cpu m)) \<Longrightarrow>
    cpu_update (r_of_update f) m = cpu_update (r_of_update g) m"
  by (cases m; cases "cpu m") simp

lemma loaded_nil: "loaded [] f m = m"
  by (simp add: loaded_def)

lemma loaded_cons:
  assumes "k < 16" "distinct (k # ks)"
  shows "loaded ks f (if k = 15 then m else set_reg m (of_nat k) (f k)) = loaded (k # ks) f m"
proof -
  have k: "unat (of_nat k :: u8) = k" using assms(1) by (simp add: unsigned_of_nat take_bit_nat_eq_self)
  have e: "n = of_nat k \<longleftrightarrow> unat n = k" for n :: u8 using k by (metis word_unat_eq_iff)
  show ?thesis
  proof (cases "k = 15")
    case True
    then show ?thesis using assms(2) by (auto simp: loaded_def intro!: r_of_ext)
  next
    case False
    have "loaded ks f (set_reg m (of_nat k) (f k)) =
        cpu_update (r_of_update (\<lambda>r n. if unat n \<in> set ks \<and> unat n \<noteq> 15 then f (unat n) else (r(of_nat k := f k)) n)) m"
      by (simp add: loaded_def comp_def)
    also have "\<dots> = loaded (k # ks) f m"
      unfolding loaded_def using False assms(2) by (intro r_of_ext) (auto simp: fun_eq_iff e)
    finally show ?thesis using False by simp
  qed
qed

lemma loaded_regions [simp]: "regions (loaded ks f m) = regions m"
  by (simp add: loaded_def)

lemma ldm_list_flat:
  "distinct ks \<Longrightarrow> \<forall>k\<in>set ks. k < 16 \<Longrightarrow>
   \<forall>j < length (List.filter (bit l) ks). flat_read_ok m (a + 4 * of_nat j) \<and>
     ld_word m (a + 4 * of_nat j) = Some (f (List.filter (bit l) ks ! j)) \<Longrightarrow>
   ldm_loop l ks m a pcv rest = rest (loaded (List.filter (bit l) ks) f m)
     (a + 4 * of_nat (length (List.filter (bit l) ks)))
     (if 15 \<in> set (List.filter (bit l) ks) then Some (f 15) else pcv)"
proof (induction ks arbitrary: m a pcv)
  case (Cons k ks)
  show ?case
  proof (cases "bit l k")
    case False
    then show ?thesis using Cons by simp
  next
    case True
    let ?ks = "List.filter (bit l) ks" and ?m = "if k = 15 then m else set_reg m (of_nat k) (f k)"
    have hd: "flat_read_ok m a" "ld_word m a = Some (f k)" using Cons.prems(3) True by force+
    have tl: "flat_read_ok ?m (a + 4 + 4 * of_nat j) \<and> ld_word ?m (a + 4 + 4 * of_nat j) = Some (f (?ks ! j))"
      if "j < length ?ks" for j
    proof -
      have "flat_read_ok m (a + 4 * of_nat (Suc j)) \<and> ld_word m (a + 4 * of_nat (Suc j)) = Some (f (?ks ! j))"
        using Cons.prems(3) True that by (metis Suc_less_eq filter.simps(2) length_Cons nth_Cons_Suc)
      moreover have e: "regions m = regions ?m" by simp
      moreover have "a + 4 * of_nat (Suc j) = a + 4 + 4 * of_nat j" by (simp add: algebra_simps)
      ultimately show ?thesis using flat_read_regions [OF e, of "a + 4 + 4 * of_nat j"] by metis
    qed
    have lc: "loaded ?ks f ?m = loaded (k # ?ks) f m" using Cons.prems(1,2) by (intro loaded_cons) auto
    have "ldm_loop l (k # ks) m a pcv rest = ldm_loop l ks ?m (a + 4) (if k = 15 then Some (f k) else pcv) rest"
      using True rd_flat [OF hd] by simp
    also have "\<dots> = rest (loaded ?ks f ?m) (a + 4 + 4 * of_nat (length ?ks))
        (if 15 \<in> set ?ks then Some (f 15) else if k = 15 then Some (f k) else pcv)"
      by (rule Cons.IH) (use Cons.prems(1,2) tl in auto)
    finally show ?thesis using True unfolding lc by (simp add: algebra_simps)
  qed
qed (simp add: loaded_nil)

section \<open>PUSH and POP\<close>

definition pushed :: "insn_t \<Rightarrow> nat list" where
  "pushed i = List.filter (bit (ireg_list i)) [0..<15]"

definition popped :: "insn_t \<Rightarrow> nat list" where
  "popped i = List.filter (bit (ireg_list i)) [0..<16]"

lemma pushed_bound: "length (pushed i) \<le> 15"
  using length_filter_le [of "bit (ireg_list i)" "[0..<15]"] by (simp add: pushed_def)

lemma push_flat:
  fixes m :: machine and i :: insn_t
  defines "sp \<equiv> reg m REG_SP - 4 * of_nat (length (pushed i))"
  assumes op: "iop i = OP_PUSH" and sp13: "\<not> bit (ireg_list i) 13"
    and ok: "\<forall>k < length (pushed i). flat_ok m (sp + 4 * of_nat k)"
  shows "\<exists>m1. exec_stack m i np = Break np m1 \<and> cpu m1 = cpu (set_reg m REG_SP sp) \<and>
    (\<forall>b. flat_ok m1 b = flat_ok m b) \<and>
    (\<forall>k < length (pushed i). ld_word m1 (sp + 4 * of_nat k) = Some (reg m (of_nat (pushed i ! k))))"
proof -
  define val :: "cpu_t \<Rightarrow> nat \<Rightarrow> u32" where "val = (\<lambda>c k. if k = 14 then r_of c REG_LR else r_of c (of_nat k))"
  let ?m = "set_reg m REG_SP sp"
  let ?vs = "stored val (ireg_list i) [0..<15] (cpu ?m)"
  have vs: "?vs = map (\<lambda>k. reg m (of_nat k)) (pushed i)"
  proof -
    have "val (cpu ?m) k = reg m (of_nat k)" if "k \<in> set (pushed i)" for k
    proof -
      have k: "k < 15" "k \<noteq> 13" using that sp13 by (auto simp: pushed_def intro: ccontr)
      have "unat (of_nat k :: u8) = k" using k by (simp add: unsigned_of_nat take_bit_nat_eq_self)
      then have "(of_nat k :: u8) \<noteq> 13" using k(2) by auto
      then show ?thesis by (simp add: val_def)
    qed
    then show ?thesis by (simp add: stored_def pushed_def)
  qed
  have okm: "\<forall>k < length ?vs. flat_ok ?m (sp + 4 * of_nat k)"
    using ok unfolding vs by (auto simp: flat_ok_shape [of ?m m])
  have "length ?vs < 2 ^ 30" using pushed_bound [of i] unfolding vs by simp
  then obtain m1 where m1: "flat_word.st_seq ?m sp ?vs = Some m1" "\<forall>b. flat_ok m1 b = flat_ok ?m b"
    "\<forall>k<length ?vs. ld_word m1 (sp + 4 * of_nat k) = Some (?vs ! k)"
    using flat_word.st_seq_laws [OF okm] by blast
  have "sp = reg m REG_SP - reg_count (ireg_list i) 15 * 4"
    by (simp add: sp_def reg_count_def pushed_def mult.commute)
  then have "exec_stack m i np = stm_loop val (ireg_list i) [0..<15] ?m sp (\<lambda>m a. Break np m)"
    using op by (simp add: exec_stack_def val_def Let_def)
  also have "\<dots> = Break np m1" using stm_flat [OF m1(1) okm] .
  finally have "exec_stack m i np = Break np m1" .
  moreover have "cpu m1 = cpu ?m" using st_seq_frame [OF m1(1) okm]
    by (metis machine.select_convs(1) machine.surjective machine.update_convs(2))
  moreover have "flat_ok m1 b = flat_ok m b" for b using m1(2) flat_ok_shape [of ?m m b] by simp
  ultimately show ?thesis using m1(3) unfolding vs by (intro exI [of _ m1]) auto
qed

lemma no_case:
  assumes "iop i = OP_PUSH \<or> iop i = OP_POP"
  shows "exec_dp1 m i np = NoCase" "exec_dp2 m i np = NoCase" "exec_branch m i np = NoCase"
    "exec_ldst1 m i np = NoCase" "exec_ldst2 m i np = NoCase" "exec_ext m i np = NoCase"
  using assms
  by (elim disjE; simp add: exec_dp1_def Let_def exec_dp2_def exec_branch_def exec_ldst1_def
     exec_ldst2_def exec_ext_def)+

lemma orelse_done: "x \<noteq> NoCase \<Longrightarrow> orelse x y = x"
  by (cases x) simp_all

lemma exec_switch_stack:
  assumes "iop i = OP_PUSH \<or> iop i = OP_POP" "exec_stack m i np \<noteq> NoCase"
  shows "exec_switch m i np = exec_stack m i np"
  using orelse_done [OF assms(2)] by (simp add: exec_switch_def no_case [OF assms(1)])

lemma execute_break:
  assumes "exec_switch m i (reg m REG_PC + to32 (isize i)) = Break np m'" "\<not> cpu_in_it (cpu m)"
  shows "execute m i = Some (True, cpu_update (\<lambda>c. retire c np) m')"
  using assms by (simp add: execute_def exec_finish_def Let_def)

lemma pop_flat:
  fixes m :: machine and j :: insn_t
  defines "n \<equiv> length (popped j)" and "sp \<equiv> reg m REG_SP"
  assumes op: "iop j = OP_POP" and no13: "\<not> bit (ireg_list j) 13"
    and ok: "\<forall>k < n. flat_read_ok m (sp + 4 * of_nat k) \<and> ld_word m (sp + 4 * of_nat k) = Some (f (popped j ! k))"
    and ret: "bit (ireg_list j) 15 \<longrightarrow> \<not> is_exc_return m (f 15)"
  shows "exec_stack m j np = Break (if bit (ireg_list j) 15 then f 15 AND NOT 1 else np)
    (set_reg (loaded (popped j) f m) REG_SP (sp + 4 * of_nat n))"
proof -
  have "ldm_loop (ireg_list j) [0..<16] m sp None rest = rest (loaded (popped j) f m) (sp + 4 * of_nat n)
      (if bit (ireg_list j) 15 then Some (f 15) else None)" for rest
    using ldm_list_flat [of "[0..<16]" "ireg_list j" m sp f None rest] ok by (simp add: popped_def n_def)
  moreover have "is_exc_return (set_reg (loaded (popped j) f m) REG_SP v) t = is_exc_return m t" for v t
    by (simp add: loaded_def)
  ultimately show ?thesis using op ret by (cases "bit (ireg_list j) 15") (auto simp: exec_stack_def Let_def sp_def)
qed

definition pop_of :: "insn_t \<Rightarrow> insn_t \<Rightarrow> bool" where
  "pop_of i j \<longleftrightarrow> iop i = OP_PUSH \<and> iop j = OP_POP \<and>
     ireg_list i AND 0x40FF = ireg_list i \<and>
     ireg_list j = (ireg_list i AND 0xFF) OR (if bit (ireg_list i) 14 then 0x8000 else 0)"

lemma pop_of_bits:
  assumes "pop_of i j" "k < 16"
  shows "bit (ireg_list j) k = (if k = 15 then bit (ireg_list i) 14 else k < 8 \<and> bit (ireg_list i) k)"
    "bit (ireg_list i) k \<Longrightarrow> k < 8 \<or> k = 14"
proof -
  have e: "bit (0x40FF :: u32) k \<longleftrightarrow> k < 8 \<or> k = 14" "bit (0xFF :: u32) k \<longleftrightarrow> k < 8"
    "bit (0x8000 :: u32) k \<longleftrightarrow> k = 15"
  proof -
    have "k = 0 \<or> k = 1 \<or> k = 2 \<or> k = 3 \<or> k = 4 \<or> k = 5 \<or> k = 6 \<or> k = 7 \<or> k = 8 \<or> k = 9 \<or>
      k = 10 \<or> k = 11 \<or> k = 12 \<or> k = 13 \<or> k = 14 \<or> k = 15" using assms(2) by presburger
    then show "bit (0x40FF :: u32) k \<longleftrightarrow> k < 8 \<or> k = 14" "bit (0xFF :: u32) k \<longleftrightarrow> k < 8"
      "bit (0x8000 :: u32) k \<longleftrightarrow> k = 15" by (elim disjE; simp)+
  qed
  have l: "ireg_list j = (ireg_list i AND 0xFF) OR (if bit (ireg_list i) 14 then 0x8000 else 0)"
     "ireg_list i AND 0x40FF = ireg_list i"
    using assms(1) unfolding pop_of_def by (elim conjE; simp only:)+
  have "bit (ireg_list i) k \<Longrightarrow> bit (0x40FF :: u32) k" using arg_cong [OF l(2), of "\<lambda>w. bit w k"] bit_and_iff by blast
  then show "bit (ireg_list i) k \<Longrightarrow> k < 8 \<or> k = 14" using e(1) by blast
  then show "bit (ireg_list j) k = (if k = 15 then bit (ireg_list i) 14 else k < 8 \<and> bit (ireg_list i) k)"
    unfolding l(1) bit_or_iff bit_and_iff e using e(3) by (cases "bit (ireg_list i) 14") auto
qed

lemma filter_none: "(\<And>k. a \<le> k \<Longrightarrow> k < b \<Longrightarrow> \<not> p k) \<Longrightarrow> List.filter p [a..<b] = []"
  by (simp add: filter_empty_conv)

lemma filter_tail:
  assumes "\<And>k. 8 \<le> k \<Longrightarrow> k < n \<Longrightarrow> \<not> p k" "8 \<le> n" "n' = Suc n"
  shows "List.filter p [0..<n'] = List.filter p [0..<8] @ (if p n then [n] else [])"
  using filter_none [of 8 n p, OF assms(1)] filter_split [OF assms(2), of p] assms(2,3) by simp

lemma popped_pushed:
  assumes "pop_of i j"
  shows "popped j = map (\<lambda>k. if k = 14 then 15 else k) (pushed i)"
proof -
  have b: "bit (ireg_list j) k = (if k = 15 then bit (ireg_list i) 14 else k < 8 \<and> bit (ireg_list i) k)"
    "bit (ireg_list i) k \<Longrightarrow> k < 8 \<or> k = 14" if "k < 16" for k using pop_of_bits [OF assms that] by blast+
  have low: "List.filter (bit (ireg_list j)) [0..<8] = List.filter (bit (ireg_list i)) [0..<8]"
    using b(1) by (intro filter_cong refl) simp
  have "\<not> bit (ireg_list i) k" if "8 \<le> k" "k < 14" for k using b(2) [of k] that by linarith
  from filter_tail [of 14 "bit (ireg_list i)" 15, OF this]
  have "pushed i = List.filter (bit (ireg_list i)) [0..<8] @ (if bit (ireg_list i) 14 then [14] else [])"
    by (simp only: pushed_def) simp
  moreover have "\<not> bit (ireg_list j) k" if "8 \<le> k" "k < 15" for k using b(1) [of k] that by simp
  from filter_tail [of 15 "bit (ireg_list j)" 16, OF this]
  have "popped j = List.filter (bit (ireg_list i)) [0..<8] @ (if bit (ireg_list j) 15 then [15] else [])"
    unfolding low [symmetric] by (simp only: popped_def) simp
  then have "popped j = List.filter (bit (ireg_list i)) [0..<8] @ (if bit (ireg_list i) 14 then [15] else [])"
    using b(1) [of 15] by (simp only: if_True numeral_less_iff semiring_norm simp_thms)
  moreover have "map (\<lambda>k. if k = 14 then 15 else k) (List.filter (bit (ireg_list i)) [0..<8])
      = List.filter (bit (ireg_list i)) [0..<8]"
    by (rule map_idI) auto
  ultimately show ?thesis by simp
qed

definition kept_stack :: "machine \<Rightarrow> machine \<Rightarrow> nat \<Rightarrow> bool" where
  "kept_stack m1 m2 n \<longleftrightarrow> reg m2 REG_SP = reg m1 REG_SP \<and> \<not> cpu_in_it (cpu m2) \<and> (\<forall>k<n.
     flat_ok m2 (reg m1 REG_SP + 4 * of_nat k) \<and>
     ld_word m2 (reg m1 REG_SP + 4 * of_nat k) = ld_word m1 (reg m1 REG_SP + 4 * of_nat k))"

lemma push_pop:
  fixes m :: machine and i j :: insn_t
  defines "sp \<equiv> reg m REG_SP - 4 * of_nat (length (pushed i))" and "l \<equiv> ireg_list i"
  assumes pp: "pop_of i j" and it: "\<not> cpu_in_it (cpu m)"
    and ok: "\<forall>k < length (pushed i). flat_ok m (sp + 4 * of_nat k)"
  shows "\<exists>m1. execute m i = Some (True, m1) \<and> reg m1 REG_SP = sp \<and>
    (\<forall>k < length (pushed i). ld_word m1 (sp + 4 * of_nat k) = Some (reg m (of_nat (pushed i ! k)))) \<and>
    (\<forall>m2. kept_stack m1 m2 (length (pushed i)) \<and> (bit l 14 \<longrightarrow> \<not> is_exc_return m2 (reg m REG_LR)) \<longrightarrow>
      (\<exists>m3. execute m2 j = Some (True, m3) \<and> (\<forall>k<8. bit l k \<longrightarrow> reg m3 (of_nat k) = reg m (of_nat k)) \<and>
        (\<forall>k<13. \<not> bit l k \<longrightarrow> reg m3 (of_nat k) = reg m2 (of_nat k)) \<and> reg m3 REG_LR = reg m2 REG_LR \<and>
        reg m3 REG_SP = reg m REG_SP \<and>
        reg m3 REG_PC = (if bit l 14 then reg m REG_LR AND NOT 1 else reg m2 REG_PC + to32 (isize j))))"
proof -
  let ?n = "length (pushed i)" and ?np = "reg m REG_PC + to32 (isize i)"
  have op: "iop i = OP_PUSH" "iop j = OP_POP" using pp by (simp_all add: pop_of_def)
  have b13: "\<not> bit (ireg_list i) 13" using pop_of_bits(2) [OF pp, of 13] by auto
  obtain m1 where m1: "exec_stack m i ?np = Break ?np m1" "cpu m1 = cpu (set_reg m REG_SP sp)"
    "\<forall>k < ?n. ld_word m1 (sp + 4 * of_nat k) = Some (reg m (of_nat (pushed i ! k)))"
    "\<forall>b. flat_ok m1 b = flat_ok m b"
    using push_flat [OF op(1) b13 ok [unfolded sp_def]] unfolding sp_def by blast
  have "exec_switch m i ?np = Break ?np m1" using exec_switch_stack [of i m ?np] m1(1) op by simp
  let ?m1 = "cpu_update (\<lambda>c. retire c ?np) m1"
  have ex1: "execute m i = Some (True, ?m1)" by (rule execute_break) fact+
  have ok1: "flat_ok ?m1 b = flat_ok m b" for b using m1(4) flat_ok_shape [of ?m1 m1 b] by simp
  have ld1: "ld_word ?m1 b = ld_word m1 b" if "flat_ok m b" for b
    using flat_read_regions(2) [of ?m1 m1 b] flat_ok_read [of ?m1 b] that ok1 by simp
  have sp1: "reg ?m1 REG_SP = sp" using m1(2) by (simp add: retire_def)
  have ret: "\<exists>m3. execute m2 j = Some (True, m3) \<and> (\<forall>k<8. bit l k \<longrightarrow> reg m3 (of_nat k) = reg m (of_nat k)) \<and>
        (\<forall>k<13. \<not> bit l k \<longrightarrow> reg m3 (of_nat k) = reg m2 (of_nat k)) \<and> reg m3 REG_LR = reg m2 REG_LR \<and>
        reg m3 REG_SP = reg m REG_SP \<and>
        reg m3 REG_PC = (if bit l 14 then reg m REG_LR AND NOT 1 else reg m2 REG_PC + to32 (isize j))"
    if k2: "kept_stack ?m1 m2 ?n" and er: "bit l 14 \<longrightarrow> \<not> is_exc_return m2 (reg m REG_LR)" for m2
  proof -
    define f where "f = (\<lambda>k. if k = 15 then reg m REG_LR else reg m (of_nat k))"
    let ?np2 = "reg m2 REG_PC + to32 (isize j)"
    have sp2: "reg m2 REG_SP = sp" and it2: "\<not> cpu_in_it (cpu m2)" using k2 sp1 by (simp_all add: kept_stack_def)
    have len: "length (popped j) = ?n" using popped_pushed [OF pp] by simp
    have j15: "bit (ireg_list j) 15 = bit l 14" using pop_of_bits(1) [OF pp, of 15] by (simp add: l_def)
    have fj: "f (popped j ! k) = reg m (of_nat (pushed i ! k))" if "k < ?n" for k
    proof -
      have "pushed i ! k \<in> set (pushed i)" using that by simp
      then have "pushed i ! k < 15" by (simp add: pushed_def)
      then show ?thesis using that by (simp add: popped_pushed [OF pp] f_def)
    qed
    have rd: "\<forall>k < length (popped j). flat_read_ok m2 (reg m2 REG_SP + 4 * of_nat k) \<and>
        ld_word m2 (reg m2 REG_SP + 4 * of_nat k) = Some (f (popped j ! k))"
      using k2 ok m1(3) ld1 fj sp1 unfolding len sp2 by (auto simp: kept_stack_def intro: flat_ok_read)
    have f15: "f 15 = reg m REG_LR" by (simp add: f_def)
    let ?m3 = "set_reg (loaded (popped j) f m2) REG_SP (reg m2 REG_SP + 4 * of_nat (length (popped j)))"
    let ?np3 = "if bit (ireg_list j) 15 then f 15 AND NOT 1 else ?np2"
    have no13: "\<not> bit (ireg_list j) 13" using pop_of_bits(1) [OF pp, of 13] by simp
    have "bit (ireg_list j) 15 \<longrightarrow> \<not> is_exc_return m2 (f 15)" using er unfolding f15 j15 .
    from pop_flat [OF op(2) no13 rd this] have "exec_stack m2 j ?np2 = Break ?np3 ?m3" .
    then have "exec_switch m2 j ?np2 = Break ?np3 ?m3"
      using exec_switch_stack [of j m2 ?np2] op by simp
    from execute_break [OF this it2] have ex2: "execute m2 j = Some (True, cpu_update (\<lambda>c. retire c ?np3) ?m3)" .
    have low: "unat (of_nat k :: u8) = k" "(of_nat k :: u8) \<noteq> 13" "(of_nat k :: u8) \<noteq> 15" if "k < 13" for k
    proof -
      show u: "unat (of_nat k :: u8) = k" using that by (simp add: unsigned_of_nat take_bit_nat_eq_self)
      show "(of_nat k :: u8) \<noteq> 13" "(of_nat k :: u8) \<noteq> 15" using that by (auto dest: arg_cong [of _ _ unat] simp: u)
    qed
    have inp: "k \<in> set (popped j) \<longleftrightarrow> k < 8 \<and> bit l k" if "k < 15" for k
      using pop_of_bits(1) [OF pp, of k] that by (auto simp: popped_def l_def)
    have rk: "reg (cpu_update (\<lambda>c. retire c ?np3) ?m3) (of_nat k) = (if k < 8 \<and> bit l k then reg m (of_nat k) else reg m2 (of_nat k))"
      if "k < 13" for k
      using low [OF that] inp [of k] that by (simp add: retire_def loaded_def f_def)
    have sp3: "reg m2 REG_SP + 4 * of_nat (length (popped j)) = reg m REG_SP"
      unfolding sp2 len by (simp add: sp_def)
    have sp3': "reg (cpu_update (\<lambda>c. retire c ?np3) ?m3) REG_SP = reg m REG_SP" using sp3 by (simp add: retire_def)
    have pc3: "reg (cpu_update (\<lambda>c. retire c ?np3) ?m3) REG_PC = ?np3" by (simp add: retire_def)
    have lr3: "reg (cpu_update (\<lambda>c. retire c ?np3) ?m3) REG_LR = reg m2 REG_LR"
      using inp [of 14] by (simp add: retire_def loaded_def)
    show ?thesis
      using ex2 rk sp3' pc3 lr3 unfolding f15 j15 by (intro exI conjI) (assumption | simp)+
  qed
  show ?thesis
    using ex1 sp1 m1(3) ld1 ok ret by (intro exI [of _ ?m1]) auto
qed

end
