(* ===== verification/Board_Laws.thy ===== *)
theory Board_Laws
  imports Board Bus_Laws
begin

text \<open>
  The board of board.c: which profiles exist, what the address map holds, and how an image
  that is flashed is found by the CPU.
\<close>


lemma put_bytes_outside:
  "\<forall>i < length bs. x \<noteq> off + of_nat i \<Longrightarrow> put_bytes f off bs x = f x"
proof (induction bs arbitrary: f off)
  case (Cons b bs)
  have "\<forall>i < length bs. x \<noteq> off + 1 + of_nat i" 
  proof (intro allI impI)
    fix i assume "i < length bs"
    then have "x \<noteq> off + of_nat (Suc i)" using Cons.prems by (metis Suc_less_eq length_Cons)
    then show "x \<noteq> off + 1 + of_nat i" by (simp add: algebra_simps)
  qed
  moreover have "x \<noteq> off" using Cons.prems by force
  ultimately show ?case using Cons.IH [of "off + 1" "f(off := b)"] by (simp del: fun_upd_apply) simp
qed simp

lemma of_nat_u32_eq: "i < 2 ^ 32 \<Longrightarrow> j < 2 ^ 32 \<Longrightarrow> (of_nat i :: u32) = of_nat j \<longleftrightarrow> i = j"
  by (auto simp: word_unat_eq_iff unsigned_of_nat take_bit_nat_eq_self)

lemma put_bytes_nth:
  "i < length bs \<Longrightarrow> length bs \<le> 2 ^ 32 \<Longrightarrow> put_bytes f off bs (off + of_nat i) = bs ! i"
proof (induction bs arbitrary: f off i)
  case (Cons b bs)
  show ?case
  proof (cases i)
    case 0
    have "\<forall>j < length bs. off \<noteq> off + 1 + of_nat j"
    proof (intro allI impI)
      fix j assume "j < length bs"
      then have "(of_nat (Suc j) :: u32) \<noteq> of_nat 0" using Cons.prems by (subst of_nat_u32_eq) auto
      then show "off \<noteq> off + 1 + of_nat j" by (simp add: algebra_simps)
    qed
    from put_bytes_outside [OF this] show ?thesis using 0 by simp
  next
    case (Suc j)
    have "off + of_nat i = off + 1 + of_nat j" using Suc by (simp add: algebra_simps)
    have "put_bytes f off (b # bs) (off + of_nat i) = put_bytes (f(off := b)) (off + 1) bs (off + 1 + of_nat j)"
      by (simp only: put_bytes.simps \<open>off + of_nat i = off + 1 + of_nat j\<close>)
    also have "\<dots> = bs ! j" using Cons.prems Suc by (intro Cons.IH) auto
    finally show ?thesis using Suc by simp
  qed
qed simp

section \<open>The profiles\<close>

lemma known_profile:
  assumes "board_profile_find nm = Some p"
  shows "flash_base p = 0 \<and> flash_size p \<in> {0x20000, 0x80000, 0x100000} \<and>
    sram_base p = 0x20000000 \<and> prof_sram_size p \<in> {0x5000, 0x20000, 0x40000}"
proof -
  have "p \<in> set BOARDS" using assms by (auto simp: board_profile_find_def find_Some_iff)
  then show ?thesis unfolding BOARDS_def set_simps by (elim insertE emptyE) simp_all
qed

lemma board_create_names:
  "board_create h nm \<noteq> None \<longleftrightarrow> nm \<in> {''stm32f103'', ''stm32f407'', ''generic-m4''}"
proof -
  have "board_create h nm \<noteq> None \<longleftrightarrow> board_profile_find nm \<noteq> None"
    by (cases "board_profile_find nm") (simp_all add: board_create_known, simp add: board_create_def)
  also have "\<dots> \<longleftrightarrow> nm \<in> {''stm32f103'', ''stm32f407'', ''generic-m4''}"
    by (auto simp: board_profile_find_def BOARDS_def)
  finally show ?thesis .
qed

lemma created:
  assumes "board_create h nm = Some b"
  shows "board_profile_find nm = Some (b_prof b) \<and> regions (b_mach b) =
    flat_region ''flash'' 0 (flash_size (b_prof b)) False #
    flat_region ''sram'' 0x20000000 (prof_sram_size (b_prof b)) True # peripheral_map \<and>
    cpu (b_mach b) = cpu_reset (prof_core (b_prof b)) \<and> b_jit b = None \<and> b_tt b = None"
proof -
  obtain p where p: "board_profile_find nm = Some p"
    using assms by (auto simp: board_create_def split: option.splits)
  note c = board_create_known [OF p, of h]
  then have "b_prof b = p" using assms by auto
  then show ?thesis using c assms p known_profile [OF p] by (auto simp: attach_all_regions)
qed

text \<open>The MPU registers lie in the window of the SCB, which was added first.\<close>

lemma mpu_shadowed:
  assumes "board_create h nm = Some b" "0xE000ED90 \<le> a" "a \<le> 0xE000EDEF"
  shows "find_region (regions (b_mach b)) a = Some 4 \<and> kind (regions (b_mach b) ! 4) = REGION_MMIO DEV_SCB"
proof -
  have k: "flash_size (b_prof b) \<in> {0x20000, 0x80000, 0x100000}"
    "prof_sram_size (b_prof b) \<in> {0x5000, 0x20000, 0x40000}"
    using created [OF assms(1)] known_profile [of nm] by blast+
  have lt: "\<not> a < n" if "n \<le> 0xE000ED90" for n using that assms(2) by (auto simp: not_less intro: order_trans)
  have "\<not> a < flash_size (b_prof b)" "\<not> a < 0x20000000 + prof_sram_size (b_prof b)"
    using k by (auto intro!: lt)
  moreover have "a < 0xE000EE00" using assms(3) by (auto intro: le_less_trans)
  moreover have "0xE000ED00 \<le> a" by (rule order_trans [OF _ assms(2)]) simp
  ultimately show ?thesis
    using created [OF assms(1)] by (simp add: peripheral_map_def lt)
qed

section \<open>Flashing\<close>

text \<open>What a read of a flashed image finds.\<close>

lemma flashed_read:
  assumes "regions m = r # rs" "base r = 0" "kind r = REGION_FLAT" "buf r = put_bytes f 0 data"
    "length data \<le> unat (rsize r)" "i + unat sz \<le> length data" "0 < sz" "length data < 2 ^ 32"
  shows "bus_read m (of_nat i) sz = (Some (get_le (put_bytes f 0 data) (of_nat i) (unat sz)), m)"
proof -
  have i: "unat (of_nat i :: u32) = i" "0 < unat sz"
    using assms(6-8) by (simp_all add: unsigned_of_nat take_bit_nat_eq_self unat_gt_0)
  then have "(of_nat i :: u32) < rsize r" using assms(5,6) by (simp add: word_less_nat_alt)
  moreover have "unat (of_nat i + sz) = i + unat sz" using i assms(6,8) by (simp add: unat_word_ariths)
  then have "\<not> rsize r < of_nat i + sz" using assms(5,6) by (simp add: word_less_nat_alt not_less)
  ultimately have "find_region (regions m) (of_nat i) = Some 0" using assms(1,2) by simp
  from bus_read_flat [OF this] show ?thesis
    using assms(1-4) \<open>\<not> rsize r < of_nat i + sz\<close> by simp
qed

lemma flashed_word:
  assumes "i + 4 \<le> length data" "length data < 2 ^ 32"
  shows "get_le (put_bytes f 0 data) (of_nat i) 4 = le_word (data ! i) (data ! (i + 1)) (data ! (i + 2)) (data ! (i + 3))"
proof -
  have "put_bytes f 0 data (of_nat j) = data ! j" if "j < length data" for j
    using put_bytes_nth [OF that, of f 0] assms(2) by simp
  from this [of i] this [of "i + 1"] this [of "i + 2"] this [of "i + 3"] show ?thesis
    using assms(1) by (simp add: get_le_4 le_word_def algebra_simps)
qed

lemma flash_boots:
  assumes "board_create h nm = Some b" "8 \<le> length data" "length data \<le> unat (flash_size (b_prof b))"
  shows "\<exists>b'. board_flash b data = (True, b') \<and>
    (\<forall>i < length data. bus_read (b_mach b') (of_nat i) 1 = (Some (to32 (data ! i)), b_mach b')) \<and>
    reg (b_mach b') REG_SP = le_word (data ! 0) (data ! 1) (data ! 2) (data ! 3) \<and>
    msp (cpu (b_mach b')) = reg (b_mach b') REG_SP \<and>
    reg (b_mach b') REG_PC = le_word (data ! 4) (data ! 5) (data ! 6) (data ! 7) AND NOT 1 \<and>
    \<not> halted (cpu (b_mach b'))"
proof -
  let ?S = "flash_size (b_prof b)"
  define rs where "rs = flat_region ''sram'' 0x20000000 (prof_sram_size (b_prof b)) True # peripheral_map"
  define r where "r = (flat_region ''flash'' 0 ?S False)\<lparr>buf := put_bytes (\<lambda>_. 0) 0 data\<rparr>"
  have c: "regions (b_mach b) = flat_region ''flash'' 0 ?S False # rs" "flash_base (b_prof b) = 0"
    "?S \<in> {0x20000, 0x80000, 0x100000}"
    using created [OF assms(1)] known_profile [of nm] by (auto simp: rs_def)
  have len: "length data < 2 ^ 32" using assms(3) unat_lt32 [of ?S] by (rule le_less_trans)
  have n: "unat (of_nat (length data) :: u32) = length data" using len by (simp add: unsigned_of_nat take_bit_nat_eq_self)
  have S: "0 < ?S" "\<not> ?S < of_nat (length data)" using c(3) assms(3) n by (auto simp: word_less_nat_alt)
  let ?m = "(b_mach b)\<lparr>regions := r # rs\<rparr>"
  have load: "bus_load_blob (b_mach b) 0 data = (True, ?m)"
    using S by (simp add: bus_load_blob_def c(1) r_def Let_def)
  have r: "base r = 0" "kind r = REGION_FLAT" "buf r = put_bytes (\<lambda>_. 0) 0 data" "rsize r = ?S"
    by (simp_all add: r_def)
  have rd: "bus_read m (of_nat i) sz = (Some (get_le (put_bytes (\<lambda>_. 0) 0 data) (of_nat i) (unat sz)), m)"
    if "regions m = r # rs" "i + unat sz \<le> length data" "0 < sz" for m i sz
    using flashed_read [OF that(1) r(1-3) _ that(2,3) len] assms(3) r(4) by simp
  let ?sp = "le_word (data ! 0) (data ! 1) (data ! 2) (data ! 3)"
  let ?e = "le_word (data ! 4) (data ! 5) (data ! 6) (data ! 7) AND NOT 1"
  have two: "data ! Suc (Suc 0) = data ! 2" by (simp add: numeral_2_eq_2)
  have w: "bus_r32 m 0 = (?sp, m)" "bus_r32 m 4 = (le_word (data ! 4) (data ! 5) (data ! 6) (data ! 7), m)"
    if "regions m = r # rs" for m
    using rd [OF that, of 0 4] rd [OF that, of 4 4] flashed_word [of 0 data] flashed_word [of 4 data] assms(2) len
    by (simp_all add: bus_r32_def two)
  let ?m2 = "cpu_update (halted_update (\<lambda>_. False))
      (set_reg (set_reg (cpu_update (msp_update (\<lambda>_. ?sp)) ?m) REG_SP ?sp) REG_PC (if ?e \<noteq> 0 then ?e else 0))"
  have "data \<noteq> []" using assms(2) by auto
  then have f: "board_flash b data = (True, b\<lparr>b_mach := ?m2\<rparr>)"
    using load w by (simp add: board_flash_def c(2) Let_def)
  have "bus_read ?m2 (of_nat i) 1 = (Some (to32 (data ! i)), ?m2)" if "i < length data" for i
    using rd [of ?m2 i 1] that put_bytes_nth [OF that, of "\<lambda>_. 0" 0] len by simp
  then show ?thesis using f by (intro exI [of _ "b\<lparr>b_mach := ?m2\<rparr>"]) simp
qed

end
