(* ===== verification/Irq_Laws.thy ===== *)
theory Irq_Laws
  imports Run_Laws Exc_Laws
begin

text \<open>
  Interrupt delivery between instructions (\<^verbatim>\<open>check_irqs\<close> of run.c): an interrupt that may be
  taken is taken, one whose frame cannot be stacked is lost, and the batch that the chained
  dispatch accounts for never runs past a wrap of SysTick.
\<close>

section \<open>Delivery\<close>

definition open_to_irqs :: "cpu_t \<Rightarrow> bool" where
  "open_to_irqs c \<longleftrightarrow> mode c = MODE_THREAD \<and> primask c AND 1 = 0 \<and> basepri c = 0"

definition irq_exc :: "u32 \<Rightarrow> u8" where
  "irq_exc irq = to8 (EXC_IRQ0 + irq)"

lemma irq_taken:
  assumes op: "open_to_irqs (cpu m)" and none: "\<not> irq_pending (d_st m)" "\<not> pendsv_pending (d_scb m)"
    and nv: "with_nvic ctx" "nvic_pick (d_nvic m) = Some (Some irq)" "irq < 240"
    and mem: "frame_ok m (reg m REG_SP - 32)" "flat_read_ok m (4 * to32 (irq_exc irq))"
  shows "\<exists>m' v. check_irqs ctx m = Some m' \<and> ld_word m' (4 * to32 (irq_exc irq)) = Some v \<and>
    reg m' REG_PC = v AND NOT 1 \<and> mode (cpu m') = MODE_HANDLER \<and> ipsr (cpu m') = to32 (irq_exc irq) \<and>
    line (nv_active (d_nvic m')) irq \<and> \<not> line (nv_pending (d_nvic m')) irq"
proof -
  let ?n = "nvic_set_active (nvic_clear_pending (d_nvic m) irq) irq"
  let ?m = "m\<lparr>d_nvic := ?n\<rparr>"
  have c: "check_irqs ctx m = enter_ignored ?m (irq_exc irq)"
    using op none nv(1,2) by (simp add: check_irqs_def open_to_irqs_def irq_exc_def Let_def)
  have fr: "frame_ok ?m (reg ?m REG_SP - 32)" using frame_regions(1) [OF mem(1), of ?m] by simp
  have vec: "flat_read_ok ?m (4 * to32 (irq_exc irq))" using mem(2) flat_read_regions(1) [of ?m m] by simp
  obtain m1 v where m1: "exc_enter ?m (irq_exc irq) = Some (True, m1)" "ld_word m1 (4 * to32 (irq_exc irq)) = Some v"
    "reg m1 REG_PC = v AND NOT 1" "d_nvic m1 = d_nvic ?m"
    using exc_enter_returns [OF fr vec] by blast
  have "mode (cpu m1) = MODE_HANDLER" "ipsr (cpu m1) = to32 (irq_exc irq)"
    using exc_enter_flat [OF fr refl m1(1)] by blast+
  moreover have "line (nv_active ?n) irq \<and> \<not> line (nv_pending ?n) irq"
    using nv(3) by (simp add: nvic_set_active_def nvic_clear_pending_def line_set line_clear Let_def)
  ultimately show ?thesis using m1 c by (auto simp: enter_ignored_def)
qed

text \<open>
  A store to memory that is not there, not writable or runs over the end of its region is
  refused.  When that happens to a word of the frame, the words before it stay on the stack and
  the processor is as it was, but for the stack pointer copied to its bank.
\<close>

definition store_refused :: "machine \<Rightarrow> addr_t \<Rightarrow> bool" where
  "store_refused m a \<longleftrightarrow> (case find_region (regions m) a of
     None \<Rightarrow> True
   | Some k \<Rightarrow> \<not> writable (regions m ! k) \<or> rsize (regions m ! k) < a - base (regions m ! k) + 4)"

definition frame_refused :: "machine \<Rightarrow> addr_t \<Rightarrow> bool" where
  "frame_refused m p \<longleftrightarrow> (\<exists>n < 8. (\<forall>i < n. flat_ok m (p + 4 * of_nat i)) \<and> store_refused m (p + 4 * of_nat n))"

lemma store_refused_shape:
  assumes "map shape (regions m) = map shape (regions m')"
  shows "store_refused m a \<longleftrightarrow> store_refused m' a"
proof (cases "find_region (regions m') a")
  case None
  then show ?thesis using find_region_shape [OF assms, of a] by (simp add: store_refused_def)
next
  case (Some k)
  have l: "length (regions m) = length (regions m')" using assms by (metis length_map)
  have k: "k < length (regions m')" using find_region_Some [OF Some] by blast
  have "shape (regions m ! k) = shape (regions m' ! k)" using assms k l by (metis nth_map)
  from shape_fields [OF this] show ?thesis
    using Some find_region_shape [OF assms, of a] by (simp add: store_refused_def)
qed

lemma write_refused: "store_refused m a \<Longrightarrow> bus_write m a 4 v = Some (False, m)"
  by (subst bus_write.simps) (auto simp: store_refused_def Let_def split: option.splits)

fun push_row :: "machine \<Rightarrow> addr_t \<Rightarrow> (cpu_t \<Rightarrow> u32) list \<Rightarrow> (machine \<Rightarrow> (bool \<times> machine) option)
    \<Rightarrow> (bool \<times> machine) option" where
  "push_row m p [] k = k m"
| "push_row m p (v # vs) k = push_w m p v (\<lambda>m. push_row m (p + 4) vs k)"

lemma push_frame_row: "push_frame m p x k = push_row m p [\<lambda>c. r_of c 0, \<lambda>c. r_of c 1, \<lambda>c. r_of c 2, \<lambda>c. r_of c 3,
    \<lambda>c. r_of c 12, \<lambda>c. r_of c REG_LR, \<lambda>c. r_of c REG_PC, \<lambda>c. x] k"
  by (simp add: push_frame_def ac_simps)

definition only_memory :: "machine \<Rightarrow> machine \<Rightarrow> bool" where
  "only_memory m m' \<longleftrightarrow> cpu m' = cpu m \<and> d_st m' = d_st m \<and> d_scb m' = d_scb m \<and> d_nvic m' = d_nvic m"

lemma push_row_refused:
  "n < length vs \<Longrightarrow> \<forall>i < n. flat_ok m (p + 4 * of_nat i) \<Longrightarrow> store_refused m (p + 4 * of_nat n) \<Longrightarrow>
   \<exists>m'. push_row m p vs k = Some (False, m') \<and> only_memory m m'"
proof (induction n arbitrary: m p vs)
  case 0
  then obtain v ws where "vs = v # ws" by (cases vs) auto
  then show ?case using 0(3) by (simp add: push_w_def write_refused only_memory_def)
next
  case (Suc n)
  then obtain v ws where vs: "vs = v # ws" "n < length ws" by (cases vs) auto
  have ok: "flat_ok m p" using Suc.prems(2) by (drule_tac spec [of _ 0]) simp
  obtain j where j: "find_region (regions m) p = Some j" "j < length (regions m)" "kind (regions m ! j) = REGION_FLAT"
    "writable (regions m ! j)" "\<not> rsize (regions m ! j) < p - base (regions m ! j) + 4" using flat_okE [OF ok] .
  let ?m = "put_flat m j (p - base (regions m ! j)) 4 (v (cpu m))"
  have w: "bus_write m p 4 (v (cpu m)) = Some (True, ?m)" using bus_write_flat [OF j(1,3,4,5)] .
  have sh: "map shape (regions ?m) = map shape (regions m)" using j(2) by simp
  have at: "p + 4 + 4 * of_nat i = p + 4 * of_nat (Suc i)" for i :: nat by (simp add: algebra_simps)
  have "\<forall>i < n. flat_ok ?m (p + 4 + 4 * of_nat i)"
    using Suc.prems(2) flat_ok_shape [OF sh] unfolding at by (auto simp del: of_nat_Suc)
  moreover have "store_refused ?m (p + 4 + 4 * of_nat n)"
    using Suc.prems(3) store_refused_shape [OF sh] unfolding at by (simp del: of_nat_Suc)
  ultimately obtain m' where "push_row ?m (p + 4) ws k = Some (False, m')" "only_memory ?m m'"
    using Suc.IH [OF vs(2), of ?m "p + 4"] by blast
  then show ?case using w vs(1) by (auto simp: push_w_def only_memory_def put_flat_def)
qed

lemma exc_enter_refused:
  assumes "frame_refused m (reg m REG_SP - 32)"
  shows "\<exists>m'. exc_enter m exc = Some (False, m') \<and> only_memory (sync_sp m) m'"
proof -
  let ?p = "reg m REG_SP - 32"
  have sp: "(if on_psp (cpu m) then psp (cpu (sync_sp m)) else msp (cpu (sync_sp m))) - 32 = ?p" by simp
  obtain n where n: "n < 8" "\<forall>i < n. flat_ok m (?p + 4 * of_nat i)" "store_refused m (?p + 4 * of_nat n)"
    using assms by (auto simp: frame_refused_def)
  have sh: "map shape (regions (sync_sp m)) = map shape (regions m)" by simp
  have "\<forall>i < n. flat_ok (sync_sp m) (?p + 4 * of_nat i)" "store_refused (sync_sp m) (?p + 4 * of_nat n)"
    using n flat_ok_shape [OF sh] store_refused_shape [OF sh] by blast+
  then show ?thesis unfolding exc_enter_def Let_def sp push_frame_row using n(1) by (intro push_row_refused) simp_all
qed

text \<open>The interrupt is lost: its pending bit is gone and the interrupted code goes on.\<close>

definition not_entered :: "machine \<Rightarrow> machine \<Rightarrow> bool" where
  "not_entered m m' \<longleftrightarrow> mode (cpu m') = MODE_THREAD \<and> r_of (cpu m') = r_of (cpu m) \<and> ipsr (cpu m') = ipsr (cpu m) \<and>
     cfsr (cpu m') = cfsr (cpu m) \<and> hfsr (cpu m') = hfsr (cpu m) \<and> halted (cpu m') = halted (cpu m)"

lemma enter_ignored_refused:
  assumes "frame_refused m (reg m REG_SP - 32)" "mode (cpu m) = MODE_THREAD"
  shows "\<exists>m'. enter_ignored m exc = Some m' \<and> not_entered m m' \<and> d_st m' = d_st m \<and> d_scb m' = d_scb m \<and> d_nvic m' = d_nvic m"
proof -
  obtain m' where m': "exc_enter m exc = Some (False, m')" "only_memory (sync_sp m) m'"
    using exc_enter_refused [OF assms(1)] by blast
  have "not_entered m m'" using m'(2) assms(2) by (simp add: not_entered_def only_memory_def sync_sp_def)
  moreover have "d_st m' = d_st m \<and> d_scb m' = d_scb m \<and> d_nvic m' = d_nvic m"
    using m'(2) by (simp add: only_memory_def sync_sp_def)
  ultimately show ?thesis using m'(1) by (simp add: enter_ignored_def)
qed

lemma irq_lost:
  assumes op: "open_to_irqs (cpu m)" and bad: "frame_refused m (reg m REG_SP - 32)"
  shows "(with_st ctx \<and> irq_pending (d_st m) \<longrightarrow>
      (\<exists>m'. check_irqs ctx m = Some m' \<and> \<not> irq_pending (d_st m') \<and> not_entered m m')) \<and>
    (\<not> (with_st ctx \<and> irq_pending (d_st m)) \<and> with_scb ctx \<and> pendsv_pending (d_scb m) \<longrightarrow>
      (\<exists>m'. check_irqs ctx m = Some m' \<and> \<not> pendsv_pending (d_scb m') \<and> not_entered m m')) \<and>
    (\<not> (with_st ctx \<and> irq_pending (d_st m)) \<and> \<not> (with_scb ctx \<and> pendsv_pending (d_scb m)) \<and> with_nvic ctx \<and>
       nvic_pick (d_nvic m) = Some (Some irq) \<and> irq < 240 \<longrightarrow>
      (\<exists>m'. check_irqs ctx m = Some m' \<and> \<not> line (nv_pending (d_nvic m')) irq \<and> line (nv_active (d_nvic m')) irq \<and>
        not_entered m m'))"
proof -
  have th: "mode (cpu m) = MODE_THREAD" using op by (simp add: open_to_irqs_def)
  have lost: "\<exists>m'. enter_ignored k exc = Some m' \<and> not_entered m m' \<and> d_st m' = d_st k \<and> d_scb m' = d_scb k \<and> d_nvic m' = d_nvic k"
    if k: "cpu k = cpu m" "regions k = regions m" for k exc
  proof -
    have sh: "map shape (regions k) = map shape (regions m)" by (simp add: k)
    have "frame_refused k (reg k REG_SP - 32)"
      using bad flat_ok_shape [OF sh] store_refused_shape [OF sh] unfolding frame_refused_def k by blast
    from enter_ignored_refused [OF this] show ?thesis using th k by (simp add: not_entered_def)
  qed
  let ?st = "m\<lparr>d_st := (d_st m)\<lparr>irq_pending := False\<rparr>\<rparr>" and ?psv = "m\<lparr>d_scb := (d_scb m)\<lparr>pendsv_pending := False\<rparr>\<rparr>"
    and ?nv = "m\<lparr>d_nvic := nvic_set_active (nvic_clear_pending (d_nvic m) irq) irq\<rparr>"
  have "\<exists>m'. check_irqs ctx m = Some m' \<and> \<not> irq_pending (d_st m') \<and> not_entered m m'" if "with_st ctx \<and> irq_pending (d_st m)"
    using lost [of ?st EXC_SYSTICK] op that by (auto simp: check_irqs_def open_to_irqs_def)
  moreover have "\<exists>m'. check_irqs ctx m = Some m' \<and> \<not> pendsv_pending (d_scb m') \<and> not_entered m m'"
    if "\<not> (with_st ctx \<and> irq_pending (d_st m)) \<and> with_scb ctx \<and> pendsv_pending (d_scb m)"
    using lost [of ?psv EXC_PENDSV] op that by (auto simp: check_irqs_def open_to_irqs_def)
  moreover have "\<exists>m'. check_irqs ctx m = Some m' \<and> \<not> line (nv_pending (d_nvic m')) irq \<and> line (nv_active (d_nvic m')) irq \<and>
      not_entered m m'"
    if h: "\<not> (with_st ctx \<and> irq_pending (d_st m))" "\<not> (with_scb ctx \<and> pendsv_pending (d_scb m))" "with_nvic ctx"
      "nvic_pick (d_nvic m) = Some (Some irq)" "irq < 240"
  proof -
    have "check_irqs ctx m = enter_ignored ?nv (to8 (EXC_IRQ0 + irq))"
      using op h(1-4) by (auto simp: check_irqs_def open_to_irqs_def Let_def)
    moreover obtain m' where "enter_ignored ?nv (to8 (EXC_IRQ0 + irq)) = Some m'" "not_entered m m'" "d_nvic m' = d_nvic ?nv"
      using lost [of ?nv "to8 (EXC_IRQ0 + irq)"] by auto
    moreover have "line (nv_active (d_nvic ?nv)) irq" "\<not> line (nv_pending (d_nvic ?nv)) irq"
      using h(5) by (simp_all add: nvic_set_active_def nvic_clear_pending_def line_set line_clear Let_def)
    ultimately show ?thesis by (intro exI [of _ m']) simp
  qed
  ultimately show ?thesis by blast
qed

section \<open>Escalation\<close>

lemma fault_in_handler:
  assumes h: "mode (cpu m) = MODE_HANDLER" and mem: "frame_ok m (reg m REG_SP - 32)" "flat_read_ok m 12"
  shows "\<exists>m'. raise_fault m fault a st = Some m' \<and> ipsr (cpu m') = 3 \<and> mode (cpu m') = MODE_HANDLER"
proof -
  obtain c where c: "raise_fault m fault a st = map_option snd (exc_enter (m\<lparr>cpu := c\<rparr>) EXC_HARD_FAULT)"
    "r_of c = r_of (cpu m)"
  proof -
    define c0 where "c0 = (if fault = EXC_MEM_FAULT then
                 (let c = (cpu m)\<lparr>cfsr := cfsr (cpu m) OR (st AND 0xFF)\<rparr>
                  in if st AND 0x80 \<noteq> 0 then c\<lparr>mmfar := a\<rparr> else c)
               else if fault = EXC_BUS_FAULT then
                 (let c = (cpu m)\<lparr>cfsr := cfsr (cpu m) OR push_bit 8 (st AND 0xFF)\<rparr>
                  in if st AND 0x80 \<noteq> 0 then c\<lparr>bfar := a\<rparr> else c)
               else if fault = EXC_USAGE_FAULT then
                 (cpu m)\<lparr>cfsr := cfsr (cpu m) OR push_bit 16 (st AND 0xFFFF)\<rparr>
               else cpu m)"
    have r: "r_of c0 = r_of (cpu m)" "mode c0 = MODE_HANDLER" using h by (simp_all add: c0_def Let_def)
    have "raise_fault m fault a st = map_option snd (exc_enter (m\<lparr>cpu := (if mode c0 = MODE_HANDLER
        then c0\<lparr>hfsr := hfsr c0 OR push_bit 30 1\<rparr> else c0)\<rparr>) (if mode c0 = MODE_HANDLER then EXC_HARD_FAULT else fault))"
      unfolding raise_fault_def c0_def Let_def ..
    then show thesis using r that [of "c0\<lparr>hfsr := hfsr c0 OR push_bit 30 1\<rparr>"] by simp
  qed
  let ?m = "m\<lparr>cpu := c\<rparr>"
  have fr: "frame_ok ?m (reg ?m REG_SP - 32)" using frame_regions(1) [OF mem(1), of ?m] c(2) by simp
  have vec: "flat_read_ok ?m (4 * to32 EXC_HARD_FAULT)" using mem(2) flat_read_regions(1) [of ?m m] by simp
  obtain m1 where "exc_enter ?m EXC_HARD_FAULT = Some (True, m1)" using exc_enter_returns [OF fr vec] by blast
  then show ?thesis using exc_enter_flat [OF fr refl] c(1) by fastforce
qed

section \<open>Batches of the timer\<close>

text \<open>
  A chain of \<open>k\<close> steps that left the timer alone: accounting for its steps at once afterwards is
  ticking once per step, and no tick before the last makes the interrupt pending.
\<close>

lemma chain_before_wrap:
  assumes ok: "run_ok s" and t: "try_chain ctx s left = Some (k, s1)" "with_st ctx"
    and on: "csr (d_st (mach s)) AND 1 \<noteq> 0" "csr (d_st (mach s)) AND 2 \<noteq> 0" "rvr (d_st (mach s)) \<noteq> 0"
    and same: "d_st (mach s1) = d_st (mach s)"
  shows "(\<forall>j < k. irq_pending (d_st (tick_batch ctx j (mach s1))) = irq_pending (d_st (mach s))) \<and>
    (0 < k \<longrightarrow> d_st (tick_batch ctx k (mach s1)) = ((\<lambda>t. systick_tick t 1) ^^ k) (d_st (mach s)))"
proof (cases "0 < k")
  case True
  let ?t = "d_st (mach s)"
  let ?c = "if cvr ?t = 0 then rvr ?t else cvr ?t"
  obtain g where g: "jit s = Some g" using t(1) True by (auto simp: try_chain_def split: option.splits)
  then obtain g1 m1 where c: "jit_run_chained (host ctx) (stack_insn ctx) g (mach s)
        (chain_budget ctx (mach s) left) (stop_flag ctx) = Some (k, g1, m1)"
    using t(1) by (auto simp: try_chain_def split: bind_splits)
  have "jit_ok g" using ok(1) g by (simp add: run_ok_def)
  then have "k \<le> chain_budget ctx (mach s) left" using jit_run_chained_ok [OF _ c] by blast
  also have "\<dots> \<le> unat ?c"
    using budget_timer [OF on] t(2) by (simp add: chain_budget_def)
  finally have kc: "k \<le> unat ?c" .
  have b: "d_st (tick_batch ctx j (mach s1)) = systick_tick ?t (of_nat j)" for j
    using t(2) same by (simp add: tick_batch_def Let_def)
  have "irq_pending (systick_tick ?t (of_nat j)) = irq_pending ?t" if "j < k" for j
  proof -
    have jc: "j < unat ?c" using that kc by simp
    moreover have "unat ?c < 2 ^ 32" by (rule unat_lt32)
    ultimately have "unat (of_nat j :: u32) = j" by (simp add: unsigned_of_nat take_bit_nat_eq_self)
    then have "\<not> ?c \<le> of_nat j" using jc by (simp add: word_le_nat_alt)
    then show ?thesis using systick_tick_closed [OF on(1,3), of "of_nat j"] by simp
  qed
  moreover have "k < 2 ^ 32" using kc unat_lt32 [of ?c] by simp
  ultimately show ?thesis using True b systick.tick_singles [of k ?t] by simp
qed simp

end
