(* ===== verification/Eth_Laws.thy ===== *)
theory Eth_Laws
  imports Bus_Laws Exceptions
begin

text \<open>
  The Ethernet loopback of eth.c: when the write to TX_LEN returns, and the checksum of the
  reply it builds.
\<close>

section \<open>Writes that return\<close>

definition at_eth :: "machine \<Rightarrow> addr_t \<Rightarrow> bool" where
  "at_eth m a \<longleftrightarrow> (case find_region (regions m) a of None \<Rightarrow> False
     | Some k \<Rightarrow> kind (regions m ! k) = REGION_MMIO DEV_ETH)"

lemma at_eth_regions: "regions m' = regions m \<Longrightarrow> at_eth m' a = at_eth m a"
  by (simp add: at_eth_def split: option.split)

lemma dev_write_regions: "regions (dev_write m d off v) = regions m"
  by (cases "(m, d, off, v)" rule: dev_write.cases)
    (auto simp: uart_write_def uart_capture_def emit_stdout_def Let_def case_prod_unfold split: option.splits uart_sink.splits)

lemma write_beside_eth:
  assumes "\<not> at_eth m a"
  shows "\<exists>ok m'. bus_write m a sz v = Some (ok, m') \<and> map shape (regions m') = map shape (regions m)"
proof (cases "find_region (regions m) a")
  case None
  then have "bus_write m a sz v = Some (False, m)" by (subst bus_write.simps) simp
  then show ?thesis by blast
next
  case (Some k)
  then have "k < length (regions m)" using find_region_Some by blast
  then show ?thesis using assms Some
    by (subst bus_write.simps) (auto simp: at_eth_def Let_def dev_write_regions split: region_kind_t.splits)
qed

lemma at_eth_shape: "map shape (regions m') = map shape (regions m) \<Longrightarrow> at_eth m' a = at_eth m a"
proof -
  assume e: "map shape (regions m') = map shape (regions m)"
  note f = find_region_shape [OF e, of a]
  show ?thesis
  proof (cases "find_region (regions m) a")
    case (Some k)
    then have "k < length (regions m)" using find_region_Some by blast
    moreover have "length (regions m') = length (regions m)" using e by (metis length_map)
    ultimately have "shape (regions m' ! k) = shape (regions m ! k)" using e by (metis nth_map)
    from shape_fields [OF this] show ?thesis using f Some by (simp add: at_eth_def)
  qed (use f in \<open>simp add: at_eth_def\<close>)
qed

lemma copy_returns:
  "\<forall>i<n. \<not> at_eth m (dst + of_nat i) \<Longrightarrow> \<exists>m'. copy_loop bus_write m src dst n = Some m'"
proof (induction n arbitrary: m src dst)
  case (Suc n)
  obtain v m1 where r: "bus_read m src 1 = (v, m1)" by fastforce
  have s1: "at_eth m1 a = at_eth m a" for a using bus_read_frame [of m src 1] r by (intro at_eth_regions) simp
  have "\<not> at_eth m1 dst" using Suc.prems s1 by force
  then obtain ok m2 where w: "bus_write m1 dst 1 (case v of Some x \<Rightarrow> x | None \<Rightarrow> 0) = Some (ok, m2)"
    "map shape (regions m2) = map shape (regions m1)" using write_beside_eth by blast
  have "\<not> at_eth m2 (dst + 1 + of_nat i)" if "i < n" for i
  proof -
    have "\<not> at_eth m (dst + of_nat (Suc i))" using Suc.prems that by blast
    then show ?thesis using at_eth_shape [OF w(2)] s1 by (simp add: algebra_simps)
  qed
  then show ?case using Suc.IH r w(1) by (simp add: Let_def)
qed simp

lemma store_returns:
  "\<forall>i<length bs. \<not> at_eth m (dst + of_nat i) \<Longrightarrow> \<exists>m'. store_bytes bus_write m dst bs = Some m'"
proof (induction bs arbitrary: m dst)
  case (Cons b bs)
  have "\<not> at_eth m dst" using Cons.prems by force
  then obtain ok m1 where w: "bus_write m dst 1 (to32 b) = Some (ok, m1)"
    "map shape (regions m1) = map shape (regions m)" using write_beside_eth by blast
  have "\<not> at_eth m1 (dst + 1 + of_nat i)" if "i < length bs" for i
  proof -
    have "\<not> at_eth m (dst + of_nat (Suc i))" using Cons.prems that by (metis Suc_less_eq length_Cons)
    then show ?thesis using at_eth_shape [OF w(2)] by (simp add: algebra_simps)
  qed
  then show ?case using Cons.IH w(1) by simp
qed simp

lemma read_frame_spec: "length (fst (read_frame m src n)) = n \<and> regions (snd (read_frame m src n)) = regions m"
proof (induction n arbitrary: m src)
  case (Suc n)
  show ?case using Suc.IH bus_read_frame [of m src 1] by (simp add: Let_def case_prod_unfold)
qed simp

lemma swap_range_length [simp]: "length (swap_range i j n b) = length b"
proof -
  have "length (fold (\<lambda>k. swap_bytes (i + k) (j + k)) ks b) = length b" for ks
    by (induction ks arbitrary: b) (simp_all add: swap_bytes_def)
  then show ?thesis by (simp add: swap_range_def)
qed

lemma echo_frame_length: "length (echo_frame b) = length b"
  by (simp add: echo_frame_def Let_def)

text \<open>The reply is written beside the Ethernet registers: then every write returns.\<close>

lemma bus_write_returns:
  assumes "at_eth m a \<longrightarrow> (\<forall>i < unat v. \<not> at_eth m (rx_addr (d_eth m) + of_nat i))"
  shows "\<exists>ok m'. bus_write m a sz v = Some (ok, m')"
proof (cases "at_eth m a")
  case True
  then obtain k where k: "find_region (regions m) a = Some k" "kind (regions m ! k) = REGION_MMIO DEV_ETH"
    by (auto simp: at_eth_def split: option.splits)
  have safe: "\<forall>i < unat v. \<not> at_eth m (rx_addr (d_eth m) + of_nat i)" using assms True by blast
  have "\<exists>m'. eth_write bus_write m off v = Some m'" for off
  proof -
    let ?m = "m\<lparr>d_eth := (d_eth m)\<lparr>tx_len := v\<rparr>\<rparr>"
    have s: "at_eth ?m b = at_eth m b" for b by (rule at_eth_regions) simp
    have "\<exists>m1. make_echo_reply bus_write ?m (tx_addr (d_eth m)) (rx_addr (d_eth m)) v = Some m1"
    proof (cases "v < 14 + 20 + 8")
      case True
      then show ?thesis using copy_returns [of "unat v" ?m] safe s by (simp add: make_echo_reply_def)
    next
      case False
      define n where "n = (if v < 1600 then v else 1600)"
      obtain b m1 where r: "read_frame ?m (tx_addr (d_eth m)) (unat n) = (b, m1)" by fastforce
      have len: "length b = unat n" "regions m1 = regions m"
        using read_frame_spec [of ?m "tx_addr (d_eth m)" "unat n"] r by simp_all
      have "unat n \<le> unat v" by (auto simp: n_def word_le_nat_alt word_less_nat_alt)
      then have "\<forall>i < length (echo_frame b). \<not> at_eth m1 (rx_addr (d_eth m) + of_nat i)"
        using safe at_eth_regions [OF len(2)] by (simp add: echo_frame_length len(1))
      then show ?thesis using store_returns False r by (simp add: make_echo_reply_def n_def [symmetric])
    qed
    then show ?thesis by (auto simp: eth_write_def Let_def)
  qed
  then obtain m' where "eth_write bus_write m (a - base (regions m ! k)) v = Some m'" by blast
  then show ?thesis using k by (subst bus_write.simps) (auto simp: Let_def)
qed (use write_beside_eth in blast)

section \<open>The ICMP checksum\<close>

text \<open>
  \<open>fold_carry\<close> keeps the sum modulo \<open>0xFFFF\<close>, lands in 16 bits and is 0 for 0 only.
\<close>

lemma fold_carry_mod:
  "unat (fold_carry s) mod 0xFFFF = unat s mod 0xFFFF \<and> unat (fold_carry s) < 2 ^ 16 \<and>
   (fold_carry s = 0 \<longleftrightarrow> s = 0)"
proof (induction s rule: fold_carry.induct)
  case (1 s)
  show ?case
  proof (cases "drop_bit 16 s = 0")
    case True
    then have "unat s div 2 ^ 16 = 0" by (metis drop_bit_eq_div unat_drop_bit_eq unat_0)
    then have "unat s < 2 ^ 16" by simp
    then show ?thesis using True by (simp add: fold_carry.simps [of s])
  next
    case False
    let ?s = "(s AND 0xFFFF) + drop_bit 16 s"
    have u: "unat ?s = unat s mod 2 ^ 16 + unat s div 2 ^ 16" by (rule fold_carry_step)
    have m: "unat ?s mod 0xFFFF = unat s mod 0xFFFF"
    proof -
      have "unat s = 2 ^ 16 * (unat s div 2 ^ 16) + unat s mod 2 ^ 16" by simp
      also have "\<dots> = 0xFFFF * (unat s div 2 ^ 16) + unat ?s" unfolding u by simp
      finally show ?thesis by (metis mod_mult_self4 add.commute)
    qed
    have "unat (drop_bit 16 s) \<noteq> 0" using False by (metis unat_eq_0)
    then have "unat s div 2 ^ 16 \<noteq> 0" by (metis drop_bit_eq_div unat_drop_bit_eq)
    then have "unat ?s \<noteq> 0" "unat s \<noteq> 0" unfolding u by auto
    then have "?s \<noteq> 0" "s \<noteq> 0" by (auto simp only: unat_0)
    then show ?thesis using 1 [OF False] m False by (simp add: fold_carry.simps [of s])
  qed
qed

lemma unat_sum_words: "length xs \<le> 2 * k \<Longrightarrow> k < 2 ^ 16 \<Longrightarrow> unat (sum_words xs) \<le> k * 0xFFFF"
proof (induction xs arbitrary: k rule: sum_words.induct)
  case (1 a b xs)
  then obtain j where j: "k = Suc j" by (cases k) auto
  let ?w = "push_bit 8 (to32 a) OR to32 b"
  have "take_bit 16 ?w = ?w" by (rule bit_word_eqI) (auto simp: bit_simps dest: bit_imp_le_length)
  from arg_cong [OF this, of unat] have "take_bit 16 (unat ?w) = unat ?w" by (simp only: unsigned_take_bit_eq)
  then have "unat ?w < 2 ^ 16" using take_bit_nat_less_exp [of 16 "unat ?w"] by simp
  moreover have "unat (sum_words xs) \<le> j * 0xFFFF" using 1 j by simp
  moreover have "j * 0xFFFF < 2 ^ 32 - 2 ^ 16" using 1(3) j by simp
  ultimately show ?case using j by (simp add: unat_word_ariths)
qed simp_all

lemma sum_words_put:
  fixes c :: u32
  assumes "2 < length xs" "xs ! 2 = 0" "xs ! 3 = 0" "3 < length xs" "unat c < 2 ^ 16"
  shows "sum_words (xs[2 := to8 (drop_bit 8 c), 3 := to8 c]) = sum_words xs + c"
proof -
  obtain a b d e ys where xs: "xs = a # b # d # e # ys"
    using assms(4) by (metis Suc_le_length_iff Suc_leI numeral_3_eq_3)
  have z: "d = 0" "e = 0" using assms(2,3) by (simp_all add: xs)
  have "take_bit 16 (unat c) = unat c" using assms(5) by (simp add: take_bit_nat_eq_self)
  then have "take_bit 16 c = c" by (metis unsigned_take_bit_eq word_unat_eq_iff)
  then have b: "bit c n \<Longrightarrow> n < 16" for n by (metis bit_take_bit_iff)
  have "push_bit 8 (to32 (to8 (drop_bit 8 c))) OR to32 (to8 c) = c"
    by (rule bit_word_eqI) (auto simp: bit_simps dest: b)
  then show ?thesis by (simp add: xs z numeral_eq_Suc algebra_simps)
qed

text \<open>The ones' complement sum of the ICMP part of a reply, checksum included, is all ones.\<close>

lemma echo_checksum:
  assumes "38 \<le> length b" "length b \<le> 1600"
  shows "fold_carry (sum_words (drop 34 (echo_frame b))) = 0xFFFF"
proof -
  define b1 where "b1 = (swap_range 26 30 4 (swap_range 0 6 6 b))[34 := 0, 36 := 0, 37 := 0]"
  define S where "S = sum_words (drop 34 b1)"
  define F where "F = fold_carry S"
  have len: "length b1 = length b" by (simp add: b1_def)
  have S: "unat S \<le> 800 * 0xFFFF" using unat_sum_words [of "drop 34 b1" 800] assms len by (simp add: S_def)
  have F: "unat F mod 0xFFFF = unat S mod 0xFFFF" "unat F < 2 ^ 16" "F = 0 \<longleftrightarrow> S = 0"
    using fold_carry_mod [of S] unfolding F_def by blast+
  define C where "C = NOT F AND 0xFFFF"
  have C: "unat C + unat F = 0xFFFF"
  proof -
    have m: "(0xFFFF :: u32) = mask 16" by (simp add: mask_eq_exp_minus_1)
    have "take_bit 16 (unat F) = unat F" using F(2) by (simp add: take_bit_nat_eq_self)
    then have "take_bit 16 F = F" by (metis unsigned_take_bit_eq word_unat_eq_iff)
    then have b: "bit F n \<Longrightarrow> n < 16" for n by (metis bit_take_bit_iff)
    have "C + F = C OR F" by (rule disjunctive_add) (auto simp: C_def bit_simps)
    also have "\<dots> = mask 16" unfolding C_def m by (rule bit_word_eqI) (auto simp: bit_simps dest: b)
    finally have "unat (C + F) = 0xFFFF" by (simp add: mask_eq_exp_minus_1)
    moreover have "C \<le> 0xFFFF" unfolding C_def by (rule word_and_le1)
    then have "unat C + unat F < 2 ^ 32" using F(2) by (simp add: word_le_nat_alt)
    ultimately show ?thesis by (simp add: unat_word_ariths)
  qed
  have "drop 34 (echo_frame b) = (drop 34 b1)[2 := to8 (drop_bit 8 C), 3 := to8 C]"
    by (simp add: echo_frame_def Let_def b1_def C_def F_def S_def drop_update_swap)
  moreover have "drop 34 b1 ! 2 = 0" "drop 34 b1 ! 3 = 0" "3 < length (drop 34 b1)"
    using assms(1) len by (simp_all add: b1_def)
  ultimately have e: "sum_words (drop 34 (echo_frame b)) = S + C"
    using sum_words_put [of "drop 34 b1" C] C by (simp add: S_def)
  have u: "unat (S + C) = unat S + unat C" using S C by (simp add: unat_word_ariths)
  have "unat S mod 0xFFFF = unat F mod 0xFFFF" using F(1) by simp
  then have "(unat S + unat C) mod 0xFFFF = (unat F + unat C) mod 0xFFFF" by (rule mod_add_cong) simp
  then have z: "unat (S + C) mod 0xFFFF = 0" using C u by (simp add: add.commute)
  have "S + C \<noteq> 0"
  proof
    assume "S + C = 0"
    then have "unat S + unat C = 0" using u by simp
    then have "S = 0" "unat C = 0" by (simp_all add: unat_eq_0)
    then show False using C F(3) by simp
  qed
  then have "unat (fold_carry (S + C)) mod 0xFFFF = 0" "unat (fold_carry (S + C)) < 2 ^ 16"
    "unat (fold_carry (S + C)) \<noteq> 0" using fold_carry_mod [of "S + C"] z by (auto simp: unat_eq_0)
  then have "unat (fold_carry (S + C)) = 0xFFFF" by (auto simp: mod_eq_0_iff_dvd elim!: dvdE)
  then show ?thesis unfolding e by (simp add: word_unat_eq_iff)
qed

text \<open>
  The checksum as RFC 1071 has it, independent of the loop of the code: the bytes at even
  positions count 256-fold, so a message of odd length is padded with a zero byte, and the ones'
  complement sum of the 16-bit words is all ones exactly if their sum is a positive multiple of
  \<open>0xFFFF\<close>.
\<close>

definition internet_sum :: "u8 list \<Rightarrow> nat" where
  "internet_sum xs = (\<Sum>i < length xs. unat (xs ! i) * (if even i then 256 else 1))"

definition checksum_ok :: "u8 list \<Rightarrow> bool" where
  "checksum_ok xs \<longleftrightarrow> 0 < internet_sum xs \<and> internet_sum xs mod 0xFFFF = 0"

lemma internet_sum_pair: "internet_sum (a # b # xs) = 256 * unat a + unat b + internet_sum xs"
  by (simp add: internet_sum_def sum.lessThan_Suc_shift del: sum.lessThan_Suc)

lemma unat_pair: "unat (push_bit 8 (to32 (a :: u8)) OR to32 (b :: u8)) = 256 * unat a + unat b"
proof -
  have "push_bit 8 (to32 a) OR to32 b = push_bit 8 (to32 a) + to32 b"
    by (rule disjunctive_add [symmetric]) (auto simp: bit_simps dest: bit_imp_le_length)
  moreover have "unat a < 256" "unat b < 256" using unsigned_less [of a] unsigned_less [of b] by simp_all
  moreover have "push_bit 8 (to32 a) = to32 a * 256" by (simp add: push_bit_eq_mult)
  ultimately show ?thesis by (simp add: unat_word_ariths unsigned_ucast_eq take_bit_nat_eq_self)
qed

lemma sum_words_internet:
  "length xs \<le> 2000 \<Longrightarrow> internet_sum xs = unat (sum_words xs) + (if odd (length xs) then 256 * unat (last xs) else 0)"
proof (induction xs rule: sum_words.induct)
  case (1 a b xs)
  have "unat (sum_words xs) \<le> 1000 * 0xFFFF" using 1(2) by (intro unat_sum_words) simp_all
  moreover have "unat a < 256" "unat b < 256" using unsigned_less [of a] unsigned_less [of b] by simp_all
  ultimately have "unat (sum_words (a # b # xs)) = 256 * unat a + unat b + unat (sum_words xs)"
    unfolding sum_words.simps by (simp add: unat_word_ariths unat_pair)
  moreover have "odd (length xs) \<longrightarrow> xs \<noteq> []" by auto
  ultimately show ?case using 1 internet_sum_pair [of a b xs] by auto
qed (simp_all add: internet_sum_def)

lemma swap_range_nth: "\<forall>k < n. i + k < p \<and> j + k < p \<Longrightarrow> swap_range i j n b ! p = b ! p"
proof -
  assume a: "\<forall>k < n. i + k < p \<and> j + k < p"
  have "\<forall>k \<in> set ks. i + k < p \<and> j + k < p \<Longrightarrow> fold (\<lambda>k. swap_bytes (i + k) (j + k)) ks b ! p = b ! p" for ks
    by (induction ks arbitrary: b) (simp_all add: swap_bytes_def)
  then show ?thesis using a by (simp add: swap_range_def)
qed

lemma echo_frame_tail: "37 < p \<Longrightarrow> echo_frame b ! p = b ! p"
  by (simp add: echo_frame_def Let_def swap_range_nth)

text \<open>
  The reply carries a valid checksum except where its length is odd and its last byte is not
  zero: the loop leaves that byte out.
\<close>

lemma echo_checksum_ok:
  assumes "42 \<le> length b" "length b \<le> 1600"
  shows "checksum_ok (drop 34 (echo_frame b)) \<longleftrightarrow> even (length b) \<or> last b = 0"
proof -
  let ?x = "drop 34 (echo_frame b)"
  have len: "length ?x = length b - 34" by (simp add: echo_frame_length)
  have f: "fold_carry (sum_words ?x) = 0xFFFF" using echo_checksum assms by simp
  have "unat (sum_words ?x) mod 0xFFFF = 0" using fold_carry_mod [of "sum_words ?x"] f by simp
  moreover have "sum_words ?x \<noteq> 0" using fold_carry_mod [of "sum_words ?x"] f by simp
  then have "0 < unat (sum_words ?x)" by (simp add: unat_gt_0)
  moreover have "last ?x = last b"
  proof -
    have "b \<noteq> []" "echo_frame b \<noteq> []" using assms echo_frame_length [of b] by auto
    then have "last (echo_frame b) = last b"
      using assms by (simp add: last_conv_nth echo_frame_length echo_frame_tail)
    then show ?thesis using assms by (simp add: echo_frame_length)
  qed
  moreover have "even (length ?x) \<longleftrightarrow> even (length b)" using assms(1) len by (simp add: even_diff_nat)
  moreover have "length ?x \<le> 2000" using assms len by simp
  note s = sum_words_internet [OF this]
  moreover have "(unat (sum_words ?x) + 256 * unat (last b)) mod 0xFFFF = 0 \<longleftrightarrow> last b = 0"
  proof -
    have l: "256 * unat (last b) < 0xFFFF" using unsigned_less [of "last b", where ?'a = nat] by simp
    have "(unat (sum_words ?x) + 256 * unat (last b)) mod 0xFFFF = 256 * unat (last b)"
      using calculation(1) l by (simp add: mod_add_eq [symmetric])
    then show ?thesis by (simp add: unat_eq_0)
  qed
  ultimately show ?thesis by (auto simp: checksum_ok_def)
qed

end
