(* ===== verification/Map_Laws.thy ===== *)
theory Map_Laws
  imports Bus_Laws
begin

text \<open>
  The words of a memory as a map from aligned addresses: a sequence of stores does to the
  memory what the sequence of updates does to the map.
\<close>

definition aligned :: "addr_t \<Rightarrow> bool" where
  "aligned a \<longleftrightarrow> unat a mod 4 = 0"

lemma aligned_apart:
  assumes "aligned a" "aligned b" "a \<noteq> b"
  shows "4 \<le> a - b"
proof -
  have "unat (a - b) mod 4 = 0"
  proof (cases "b \<le> a")
    case True
    then have "unat (a - b) = unat a - unat b" by (simp add: unat_sub)
    moreover have "4 dvd unat a - unat b" using assms(1,2) by (simp add: aligned_def mod_eq_0_iff_dvd dvd_diff_nat)
    ultimately show ?thesis by simp
  next
    case False
    moreover have b: "unat b < 2 ^ 32" by (rule unat_lt32)
    ultimately have "unat (a - b) = 2 ^ 32 - unat b + unat a"
      by (simp add: unat_sub_if' not_le word_less_nat_alt)
    moreover note b
    moreover have "z = 4294967296 - y + x \<Longrightarrow> y < 4294967296 \<Longrightarrow> x mod 4 = 0 \<Longrightarrow> y mod 4 = 0 \<Longrightarrow> z mod 4 = 0"
      for x y z :: nat by presburger
    ultimately show ?thesis using assms(1,2) by (simp add: aligned_def)
  qed
  moreover have "unat (a - b) \<noteq> 0" using assms(3) by (simp add: unat_eq_0)
  ultimately show ?thesis by (simp add: word_le_nat_alt mod_eq_0_iff_dvd) (meson dvd_imp_le neq0_conv)
qed

context word_store
begin

fun stores :: "'m \<Rightarrow> (addr_t \<times> u32) list \<Rightarrow> 'm option" where
  "stores m [] = Some m"
| "stores m ((a, v) # ws) = do { m' \<leftarrow> st m a v; stores m' ws }"

definition words :: "'m \<Rightarrow> addr_t \<Rightarrow> u32 option" where
  "words m a = (if ok m a \<and> aligned a then ld m a else None)"

lemma words_st:
  assumes "ok m a" "aligned a" "st m a v = Some m'"
  shows "words m' = (words m)(a \<mapsto> v)"
proof
  fix b
  show "words m' b = ((words m)(a \<mapsto> v)) b"
    using ld_same [OF assms(1,3)] ld_other [OF assms(1,3), of b] st_ok [OF assms(1,3)]
      aligned_apart [of a b] aligned_apart [of b a] assms(1,2)
    by (auto simp: words_def)
qed

lemma stores_words:
  "\<forall>(a, v) \<in> set ws. ok m a \<and> aligned a \<Longrightarrow>
   \<exists>m'. stores m ws = Some m' \<and> words m' = foldl (\<lambda>f (a, v). f(a \<mapsto> v)) (words m) ws"
proof (induction ws arbitrary: m)
  case (Cons w ws)
  obtain a v where w: "w = (a, v)" by fastforce
  then have a: "ok m a" "aligned a" using Cons.prems by simp_all
  then obtain m1 where m1: "st m a v = Some m1" using st_some by blast
  have "\<forall>(a, v) \<in> set ws. ok m1 a \<and> aligned a" using Cons.prems st_ok [OF a(1) m1] by auto
  then show ?case using Cons.IH [of m1] m1 words_st [OF a m1] w by simp
qed simp

end

end
