(* ===== verification/Decoder_Laws.thy ===== *)
theory Decoder_Laws
  imports Decoder
begin

text \<open>
  Every instruction that decoder.c produces names registers that exist: the register numbers
  are below 16, whatever the caller's record held, so that the executor indexes its register
  file within bounds.
\<close>

definition insn_ok :: "addr_t \<Rightarrow> u8 \<Rightarrow> insn_t \<Rightarrow> bool" where
  "insn_ok pc sz i \<longleftrightarrow> ird i < 16 \<and> irn i < 16 \<and> irm i < 16 \<and> irs i < 16 \<and> icond i < 16 \<and>
     ipc i = pc \<and> isize i = sz"

lemma reg_field [simp]:
  fixes x :: u32 and y :: u16
  shows "m < 16 \<Longrightarrow> to8 (x AND m) < 16" "n < 16 \<Longrightarrow> to8 (y AND n) < 16"
proof -
  have "unat (to8 v) \<le> unat v" "unat (to8 w) \<le> unat w" for v :: u32 and w :: u16
    by (simp_all add: unsigned_ucast_eq take_bit_eq_mod)
  moreover have "m < 16 \<Longrightarrow> x AND m < 16" "n < 16 \<Longrightarrow> y AND n < 16"
    using word_and_le1 [of x m] word_and_le1 [of y n] by (auto intro: le_less_trans)
  ultimately show "m < 16 \<Longrightarrow> to8 (x AND m) < 16" "n < 16 \<Longrightarrow> to8 (y AND n) < 16"
    by (auto simp: word_less_nat_alt intro: le_less_trans)
qed

lemma rdn_lt16 [simp]: "push_bit 3 (to8 (w AND 1)) OR to8 (v AND 7) < (16 :: u8)"
  for w v :: u16
proof -
  have "push_bit 3 (to8 (w AND 1)) OR to8 (v AND 7) = take_bit 4 (push_bit 3 (to8 (w AND 1)) OR to8 (v AND 7))"
  proof -
    have "v AND 7 = take_bit 3 v" by (simp add: take_bit_eq_mask mask_eq_exp_minus_1)
    then show ?thesis by (auto intro!: bit_word_eqI simp: bit_simps bit_1_iff)
  qed
  also have "\<dots> < 16"
    by (simp add: word_less_nat_alt take_bit_eq_mod unat_mod)
  finally show ?thesis .
qed

lemma decode_thumb16_regs: "insn_ok pc 2 (decode_thumb16 w pc i0)"
proof -
  have b: "insn_ok pc 2 o' \<Longrightarrow> insn_ok pc 2 (decode_t16_branch w o')" for o'
    by (simp add: decode_t16_branch_def insn_ok_def Let_def)
  have m: "insn_ok pc 2 o' \<Longrightarrow> insn_ok pc 2 (decode_t16_misc w o')" for o'
    unfolding decode_t16_misc_def using b [of o'] by (simp add: insn_ok_def Let_def)
  have l: "insn_ok pc 2 o' \<Longrightarrow> insn_ok pc 2 (decode_t16_ldst w o')" for o'
    unfolding decode_t16_ldst_def using m [of o'] by (simp add: insn_ok_def)
  show ?thesis unfolding decode_thumb16_def Let_def
    using l [of "(set_undef i0 (to32 w) pc)\<lparr>iraw := to32 w\<rparr>"] by (simp add: insn_ok_def set_undef_def)
qed

lemma decode_thumb32_regs: "insn_ok pc 4 (decode_thumb32 h0 h1 pc i0)"
proof -
  let ?w0 = "to32 h0" and ?w1 = "to32 h1"
  have s: "insn_ok pc 4 o' \<Longrightarrow> insn_ok pc 4 (decode_t32_sys w0 w1 o')" for w0 w1 o'
    by (simp add: decode_t32_sys_def insn_ok_def)
  have d: "insn_ok pc 4 o' \<Longrightarrow> insn_ok pc 4 (decode_vfp_dp w0 w1 o')" for w0 w1 o'
    by (simp add: decode_vfp_dp_def insn_ok_def Let_def)
  have v: "insn_ok pc 4 o' \<Longrightarrow> insn_ok pc 4 (decode_t32_vfp w0 w1 o')" for w0 w1 o'
    unfolding decode_t32_vfp_def using d [of o'] s [of o'] by (simp add: insn_ok_def Let_def)
  have f: "insn_ok pc 4 o' \<Longrightarrow> insn_ok pc 4 (decode_t32_bitfield w0 w1 o')" for w0 w1 o'
    unfolding decode_t32_bitfield_def using v [of o'] by (simp add: insn_ok_def Let_def)
  have m: "insn_ok pc 4 o' \<Longrightarrow> insn_ok pc 4 (decode_t32_mul w0 w1 o')" for w0 w1 o'
    unfolding decode_t32_mul_def using f [of o'] by (simp add: insn_ok_def Let_def)
  have r: "insn_ok pc 4 o' \<Longrightarrow> insn_ok pc 4 (decode_t32_reg w0 w1 o')" for w0 w1 o'
    unfolding decode_t32_reg_def using m [of o'] by (simp add: insn_ok_def Let_def)
  have l: "insn_ok pc 4 o' \<Longrightarrow> insn_ok pc 4 (decode_t32_ldst w0 w1 o')" for w0 w1 o'
    unfolding decode_t32_ldst_def using r [of o'] by (simp add: insn_ok_def Let_def)
  have i: "insn_ok pc 4 o' \<Longrightarrow> insn_ok pc 4 (decode_t32_imm w0 w1 o')" for w0 w1 o'
    unfolding decode_t32_imm_def using l [of o'] by (simp add: insn_ok_def Let_def)
  define o' where "o' = (set_undef i0 (push_bit 16 ?w0 OR ?w1) pc)\<lparr>isize := 4, iraw := push_bit 16 ?w0 OR ?w1\<rparr>"
  have "insn_ok pc 4 o'" by (simp add: o'_def set_undef_def insn_ok_def)
  then show ?thesis unfolding decode_thumb32_def Let_def o'_def [symmetric]
    using i [of o'] by (simp add: insn_ok_def)
qed

lemma decode_insn_ok: "case decode m pc i0 of (sz, i, m') \<Rightarrow> (sz = 2 \<or> sz = 4) \<and> insn_ok pc sz i"
  using decode_thumb16_regs decode_thumb32_regs by (simp add: decode_def Let_def case_prod_unfold)

end
