(* ===== verification/X86_Laws.thy ===== *)
theory X86_Laws
  imports Codegen
begin

text \<open>
  Running emitted code.  \<open>runs h code s s'\<close> says that the bytes \<open>code\<close>, in front of any other,
  take the state \<open>s\<close> to \<open>s'\<close>; it composes by appending code.  Every emitter has its step here.
\<close>

named_theorems x86_steps \<open>what the code of an emitter does\<close>

section \<open>Decoding what was emitted\<close>

lemma imm32_w32 [simp]: "imm32 (emit_w32 v @ bs) = Some (v, bs)"
proof -
  have "le32 (to8 v) (to8 (drop_bit 8 v)) (to8 (drop_bit 16 v)) (to8 (drop_bit 24 v)) = v" (is "?l = v")
  proof (rule bit_word_eqI)
    fix n assume "n < LENGTH(32)"
    then consider "n < 8" | "8 \<le> n" "n < 16" | "16 \<le> n" "n < 24" | "24 \<le> n" "n < 32" by fastforce
    then show "bit ?l n = bit v n" by cases (auto simp add: bit_simps le32_def)
  qed
  then show ?thesis by (simp add: emit_w32_def)
qed

lemma emit_w64_halves: "emit_w64 v = emit_w32 (to32 v) @ emit_w32 (to32 (drop_bit 32 v))"
proof -
  have low: "to8 (drop_bit k (to32 w)) = to8 (drop_bit k w)" if "k \<le> 24" for k and w :: u64
    by (rule bit_word_eqI) (use that in \<open>auto simp: bit_simps\<close>)
  from low [of 0] have "to8 (to32 w) = to8 w" for w :: u64 by simp
  then show ?thesis
    by (simp add: emit_w64_def emit_w32_def upt_rec low drop_bit_drop_bit)
qed

lemma imm64_w64 [simp]: "imm64 (emit_w64 v @ bs) = Some (v, bs)"
proof -
  have "to64 (to32 v) OR push_bit 32 (to64 (to32 (drop_bit 32 v))) = v" (is "?l = v")
  proof (rule bit_word_eqI)
    fix n assume "n < LENGTH(64)"
    then show "bit ?l n = bit v n" by (cases "n < 32") (auto simp: bit_simps)
  qed
  then show ?thesis by (simp add: imm64_def emit_w64_halves)
qed

section \<open>Composition\<close>

lemma x86_run_step:
  "x86_decode bs = Some (i, r) \<Longrightarrow> x86_step h i s = Some s' \<Longrightarrow> x86_run h bs s = x86_run h r s'"
  by (subst x86_run.simps) (auto split: x86.split)

definition runs :: "x86_host \<Rightarrow> u8 list \<Rightarrow> xstate \<Rightarrow> xstate \<Rightarrow> bool" where
  "runs h code s s' \<longleftrightarrow> (\<forall>bs. x86_run h (code @ bs) s = x86_run h bs s')"

lemma runs_append: "runs h a s s1 \<Longrightarrow> runs h b s1 s2 \<Longrightarrow> runs h (a @ b) s s2"
  by (simp add: runs_def)

lemmas decode_simps = x86_decode_def decode_op_def decode_0f_def decode_alu_def alu_of_def wd_of_def rex_r_def rex_b_def
  breg_def

section \<open>The frame of a thunk\<close>

text \<open>Inside a thunk R15 and R14 hold the two pointers and the frame has eight slots.\<close>

definition framed :: "x86_host \<Rightarrow> xstate \<Rightarrow> bool" where
  "framed h s \<longleftrightarrow> gp s 15 = at_cpu h \<and> gp s 14 = at_bus h \<and> length (stk s) = 8"

lemma u8_lt16: "(r :: u8) < 16 \<Longrightarrow> r \<in> {0, 1, 2, 3, 4, 5, 6, 7, 8, 9, 10, 11, 12, 13, 14, 15}"
proof -
  assume "r < 16"
  then have "unat r < 16" by (simp add: word_less_nat_alt)
  moreover have "r = of_nat (unat r)" by simp
  ultimately have "r \<in> of_nat ` {..<16}" by (metis image_eqI lessThan_iff)
  then show ?thesis by (auto simp: numeral_eq_Suc lessThan_Suc)
qed

lemma reg_off:
  "r < 16 \<Longrightarrow> (scast (to32 (r :: u8) * 4) :: u64) < 64 \<and>
    (scast (to32 r * 4) :: u64) AND 3 = 0 \<and> to8 (drop_bit 2 (scast (to32 r * 4) :: u64)) = r"
  by (drule u8_lt16) auto

lemma load_reg: "gp s 15 = at_cpu h \<Longrightarrow> r < 16 \<Longrightarrow> load32 h s (ea s 15 (to32 r * 4)) = Some (reg (mem s) r)"
  using reg_off [of r] by (simp add: load32_def ea_def Let_def)

lemma store_reg: "gp s 15 = at_cpu h \<Longrightarrow> r < 16 \<Longrightarrow>
  store32 h s (ea s 15 (to32 r * 4)) v = Some (s\<lparr>mem := set_reg (mem s) r v\<rparr>)"
  using reg_off [of r] by (simp add: store32_def ea_def Let_def)

lemma gp_set_gp [simp]: "gp (set_gp r v s) = (gp s)(r := v)" "mem (set_gp r v s) = mem s" "stk (set_gp r v s) = stk s"
  "zfl (set_gp r v s) = zfl s" "sfl (set_gp r v s) = sfl s" "cfl (set_gp r v s) = cfl s" "ofl (set_gp r v s) = ofl s"
  by (simp_all add: set_gp_def)

lemma alu_flags_simps [simp]: "gp (alu_flags op a b s) = gp s" "mem (alu_flags op a b s) = mem s" "stk (alu_flags op a b s) = stk s"
  "zfl (alu_flags op a b s) = (alu op a b = 0)" "sfl (alu_flags op a b s) = top_bit (alu op a b)"
  "cfl (alu_flags op a b s) = alu_carry op a b" "ofl (alu_flags op a b s) = alu_overflow op a b"
  by (simp_all add: alu_flags_def)

lemma shift_flags_simps [simp]: "gp (shift_flags h r b s) = gp s" "mem (shift_flags h r b s) = mem s" "stk (shift_flags h r b s) = stk s"
  by (simp_all add: shift_flags_def)

lemma to32_to64 [simp]: "to32 (to64 (v :: u32)) = v"
  by (rule bit_word_eqI) (simp add: bit_simps)

lemma to64_to32_to8 [simp]: "to64 (to32 (v :: u8)) = to64 v"
  by (rule bit_word_eqI) (auto simp: bit_simps dest: bit_imp_le_length)

lemma to32_to64_to8 [simp]: "to32 (to64 (v :: u8)) = to32 v"
  by (rule bit_word_eqI) (simp add: bit_simps)

lemma put_lo_simps [simp]: "to8 (put_lo x v) = v"
  unfolding put_lo_def
proof (rule bit_word_eqI)
  fix n assume "n < LENGTH(8)"
  then have "n \<in> {0, 1, 2, 3, 4, 5, 6, 7}" by auto
  then show "bit (to8 ((x AND NOT 0xFF) OR to64 v)) n = bit v n" by (auto simp: bit_simps)
qed

lemma put_hi_simps [simp]: "to8 (drop_bit 8 (put_hi x v)) = v"
  unfolding put_hi_def
proof (rule bit_word_eqI)
  fix n assume "n < LENGTH(8)"
  then have "n \<in> {0, 1, 2, 3, 4, 5, 6, 7}" by auto
  then show "bit (to8 (drop_bit 8 ((x AND NOT 0xFF00) OR push_bit 8 (to64 v)))) n = bit v n" by (auto simp: bit_simps)
qed

section \<open>The emitters\<close>

lemma run_ld_eax [x86_steps]: "gp s 15 = at_cpu h \<Longrightarrow> r < 16 \<Longrightarrow> x86_run h (ld_eax r @ bs) s =
    x86_run h bs (set_gp 0 (to64 (reg (mem s) r)) s)"
  by (rule x86_run_step [where i = "Mov W32 (Rg 0) (Mem 15 (to32 r * 4))"]) (simp_all add: ld_eax_def decode_simps load_reg)

lemma run_ld_ecx [x86_steps]: "gp s 15 = at_cpu h \<Longrightarrow> r < 16 \<Longrightarrow> x86_run h (ld_ecx r @ bs) s =
    x86_run h bs (set_gp 1 (to64 (reg (mem s) r)) s)"
  by (rule x86_run_step [where i = "Mov W32 (Rg 1) (Mem 15 (to32 r * 4))"]) (simp_all add: ld_ecx_def decode_simps load_reg)

lemma run_mov_r9d_reg [x86_steps]: "gp s 15 = at_cpu h \<Longrightarrow> r < 16 \<Longrightarrow> x86_run h (mov_r9d_reg r @ bs) s =
    x86_run h bs (set_gp 9 (to64 (reg (mem s) r)) s)"
  by (rule x86_run_step [where i = "Mov W32 (Rg 9) (Mem 15 (to32 r * 4))"]) (simp_all add: mov_r9d_reg_def decode_simps load_reg)

lemma run_st_eax [x86_steps]: "gp s 15 = at_cpu h \<Longrightarrow> r < 16 \<Longrightarrow> x86_run h (st_eax r @ bs) s =
    x86_run h bs (s\<lparr>mem := set_reg (mem s) r (to32 (gp s 0))\<rparr>)"
  by (rule x86_run_step [where i = "Mov W32 (Mem 15 (to32 r * 4)) (Rg 0)"]) (simp_all add: st_eax_def decode_simps store_reg)

lemma run_st_ecx [x86_steps]: "gp s 15 = at_cpu h \<Longrightarrow> r < 16 \<Longrightarrow> x86_run h (st_ecx r @ bs) s =
    x86_run h bs (s\<lparr>mem := set_reg (mem s) r (to32 (gp s 1))\<rparr>)"
  by (rule x86_run_step [where i = "Mov W32 (Mem 15 (to32 r * 4)) (Rg 1)"]) (simp_all add: st_ecx_def decode_simps store_reg)

lemma run_st_pc [x86_steps]: "gp s 15 = at_cpu h \<Longrightarrow> x86_run h (st_pc v @ bs) s =
    x86_run h bs (s\<lparr>mem := set_reg (mem s) 15 v\<rparr>)"
  by (rule x86_run_step [where i = "MovI W32 (Mem 15 60) (to64 v)"]) (simp_all add: st_pc_def decode_simps store32_def ea_def Let_def)

lemma run_mov_eax_imm [x86_steps]: "x86_run h (mov_eax_imm v @ bs) s =
    x86_run h bs (set_gp 0 (to64 v) s)"
  by (rule x86_run_step [where i = "MovI W32 (Rg 0) (to64 v)"]) (simp_all add: mov_eax_imm_def decode_simps )

lemma run_mov_r8d_imm [x86_steps]: "x86_run h (mov_r8d_imm v @ bs) s =
    x86_run h bs (set_gp 8 (to64 v) s)"
  by (rule x86_run_step [where i = "MovI W32 (Rg 8) (to64 v)"]) (simp_all add: mov_r8d_imm_def decode_simps )

lemma run_mov_rax_imm64 [x86_steps]: "x86_run h (mov_rax_imm64 v @ bs) s =
    x86_run h bs (set_gp 0 v s)"
  by (rule x86_run_step [where i = "MovI W64 (Rg 0) v"]) (simp_all add: mov_rax_imm64_def decode_simps )

lemma run_mov_r10_imm64 [x86_steps]: "x86_run h (mov_r10_imm64 v @ bs) s =
    x86_run h bs (set_gp 10 v s)"
  by (rule x86_run_step [where i = "MovI W64 (Rg 10) v"]) (simp_all add: mov_r10_imm64_def decode_simps )

lemma run_op_add_ec [x86_steps]: "x86_run h (op_add_ec @ bs) s =
    x86_run h bs (set_gp 0 (to64 (alu X_ADD (to32 (gp s 0)) (to32 (gp s 1)))) (alu_flags X_ADD (to32 (gp s 0)) (to32 (gp s 1)) s))"
  by (rule x86_run_step [where i = "Alu W32 X_ADD (Rg 0) (Rg 1)"]) (simp_all add: op_add_ec_def decode_simps alu_step_def Let_def discards_def)

lemma run_op_sub_ec [x86_steps]: "x86_run h (op_sub_ec @ bs) s =
    x86_run h bs (set_gp 0 (to64 (alu X_SUB (to32 (gp s 0)) (to32 (gp s 1)))) (alu_flags X_SUB (to32 (gp s 0)) (to32 (gp s 1)) s))"
  by (rule x86_run_step [where i = "Alu W32 X_SUB (Rg 0) (Rg 1)"]) (simp_all add: op_sub_ec_def decode_simps alu_step_def Let_def discards_def)

lemma run_op_and_ec [x86_steps]: "x86_run h (op_and_ec @ bs) s =
    x86_run h bs (set_gp 0 (to64 (alu X_AND (to32 (gp s 0)) (to32 (gp s 1)))) (alu_flags X_AND (to32 (gp s 0)) (to32 (gp s 1)) s))"
  by (rule x86_run_step [where i = "Alu W32 X_AND (Rg 0) (Rg 1)"]) (simp_all add: op_and_ec_def decode_simps alu_step_def Let_def discards_def)

lemma run_op_or_ec [x86_steps]: "x86_run h (op_or_ec @ bs) s =
    x86_run h bs (set_gp 0 (to64 (alu X_OR (to32 (gp s 0)) (to32 (gp s 1)))) (alu_flags X_OR (to32 (gp s 0)) (to32 (gp s 1)) s))"
  by (rule x86_run_step [where i = "Alu W32 X_OR (Rg 0) (Rg 1)"]) (simp_all add: op_or_ec_def decode_simps alu_step_def Let_def discards_def)

lemma run_op_xor_ec [x86_steps]: "x86_run h (op_xor_ec @ bs) s =
    x86_run h bs (set_gp 0 (to64 (alu X_XOR (to32 (gp s 0)) (to32 (gp s 1)))) (alu_flags X_XOR (to32 (gp s 0)) (to32 (gp s 1)) s))"
  by (rule x86_run_step [where i = "Alu W32 X_XOR (Rg 0) (Rg 1)"]) (simp_all add: op_xor_ec_def decode_simps alu_step_def Let_def discards_def)

lemma run_add_imm [x86_steps]: "x86_run h (add_imm v @ bs) s =
    x86_run h bs (set_gp 0 (to64 (alu X_ADD (to32 (gp s 0)) (v))) (alu_flags X_ADD (to32 (gp s 0)) (v) s))"
  by (rule x86_run_step [where i = "AluI W32 X_ADD (Rg 0) v"]) (simp_all add: add_imm_def decode_simps alu_step_def Let_def discards_def)

lemma run_sub_imm [x86_steps]: "x86_run h (sub_imm v @ bs) s =
    x86_run h bs (set_gp 0 (to64 (alu X_SUB (to32 (gp s 0)) (v))) (alu_flags X_SUB (to32 (gp s 0)) (v) s))"
  by (rule x86_run_step [where i = "AluI W32 X_SUB (Rg 0) v"]) (simp_all add: sub_imm_def decode_simps alu_step_def Let_def discards_def)

lemma run_add_edx_imm [x86_steps]: "x86_run h (add_edx_imm v @ bs) s =
    x86_run h bs (set_gp 2 (to64 (alu X_ADD (to32 (gp s 2)) (v))) (alu_flags X_ADD (to32 (gp s 2)) (v) s))"
  by (rule x86_run_step [where i = "AluI W32 X_ADD (Rg 2) v"]) (simp_all add: add_edx_imm_def decode_simps alu_step_def Let_def discards_def)

lemma run_and_r9d_imm [x86_steps]: "x86_run h (and_r9d_imm v @ bs) s =
    x86_run h bs (set_gp 9 (to64 (alu X_AND (to32 (gp s 9)) (v))) (alu_flags X_AND (to32 (gp s 9)) (v) s))"
  by (rule x86_run_step [where i = "AluI W32 X_AND (Rg 9) v"]) (simp_all add: and_r9d_imm_def decode_simps alu_step_def Let_def discards_def)

lemma run_and_r10d_imm [x86_steps]: "x86_run h (and_r10d_imm v @ bs) s =
    x86_run h bs (set_gp 10 (to64 (alu X_AND (to32 (gp s 10)) (v))) (alu_flags X_AND (to32 (gp s 10)) (v) s))"
  by (rule x86_run_step [where i = "AluI W32 X_AND (Rg 10) v"]) (simp_all add: and_r10d_imm_def decode_simps alu_step_def Let_def discards_def)

lemma run_xor_r10d_imm [x86_steps]: "x86_run h (xor_r10d_imm v @ bs) s =
    x86_run h bs (set_gp 10 (to64 (alu X_XOR (to32 (gp s 10)) (v))) (alu_flags X_XOR (to32 (gp s 10)) (v) s))"
  by (rule x86_run_step [where i = "AluI W32 X_XOR (Rg 10) v"]) (simp_all add: xor_r10d_imm_def decode_simps alu_step_def Let_def discards_def)

lemma run_and_ecx_imm32 [x86_steps]: "x86_run h (and_ecx_imm32 v @ bs) s =
    x86_run h bs (set_gp 1 (to64 (alu X_AND (to32 (gp s 1)) (v))) (alu_flags X_AND (to32 (gp s 1)) (v) s))"
  by (rule x86_run_step [where i = "AluI W32 X_AND (Rg 1) v"]) (simp_all add: and_ecx_imm32_def decode_simps alu_step_def Let_def discards_def)

lemma run_or_esi_r10d [x86_steps]: "x86_run h (or_esi_r10d @ bs) s =
    x86_run h bs (set_gp 6 (to64 (alu X_OR (to32 (gp s 6)) (to32 (gp s 10)))) (alu_flags X_OR (to32 (gp s 6)) (to32 (gp s 10)) s))"
  by (rule x86_run_step [where i = "Alu W32 X_OR (Rg 6) (Rg 10)"]) (simp_all add: or_esi_r10d_def decode_simps alu_step_def Let_def discards_def)

lemma run_or_r10d_esi [x86_steps]: "x86_run h (or_r10d_esi @ bs) s =
    x86_run h bs (set_gp 10 (to64 (alu X_OR (to32 (gp s 10)) (to32 (gp s 6)))) (alu_flags X_OR (to32 (gp s 10)) (to32 (gp s 6)) s))"
  by (rule x86_run_step [where i = "Alu W32 X_OR (Rg 10) (Rg 6)"]) (simp_all add: or_r10d_esi_def decode_simps alu_step_def Let_def discards_def)

lemma run_emit_clear_fail [x86_steps]: "x86_run h (emit_clear_fail @ bs) s =
    x86_run h bs (set_gp 3 (to64 (alu X_XOR (to32 (gp s 3)) (to32 (gp s 3)))) (alu_flags X_XOR (to32 (gp s 3)) (to32 (gp s 3)) s))"
  by (rule x86_run_step [where i = "Alu W32 X_XOR (Rg 3) (Rg 3)"]) (simp_all add: emit_clear_fail_def decode_simps alu_step_def Let_def discards_def)

lemma run_mov_edx_eax [x86_steps]: "x86_run h (mov_edx_eax @ bs) s =
    x86_run h bs (set_gp 2 (to64 (to32 (gp s 0))) s)"
  by (rule x86_run_step [where i = "Mov W32 (Rg 2) (Rg 0)"]) (simp_all add: mov_edx_eax_def decode_simps )

lemma run_mov_esi_edx [x86_steps]: "x86_run h (mov_esi_edx @ bs) s =
    x86_run h bs (set_gp 6 (to64 (to32 (gp s 2))) s)"
  by (rule x86_run_step [where i = "Mov W32 (Rg 6) (Rg 2)"]) (simp_all add: mov_esi_edx_def decode_simps )

lemma run_mov_r10d_edx [x86_steps]: "x86_run h (mov_r10d_edx @ bs) s =
    x86_run h bs (set_gp 10 (to64 (to32 (gp s 2))) s)"
  by (rule x86_run_step [where i = "Mov W32 (Rg 10) (Rg 2)"]) (simp_all add: mov_r10d_edx_def decode_simps )

lemma run_mov_r11d_eax [x86_steps]: "x86_run h (mov_r11d_eax @ bs) s =
    x86_run h bs (set_gp 11 (to64 (to32 (gp s 0))) s)"
  by (rule x86_run_step [where i = "Mov W32 (Rg 11) (Rg 0)"]) (simp_all add: mov_r11d_eax_def decode_simps )

lemma run_mov_r11d_eax_zero_ext [x86_steps]: "x86_run h (mov_r11d_eax_zero_ext @ bs) s =
    x86_run h bs (set_gp 11 (to64 (to32 (gp s 0))) s)"
  by (rule x86_run_step [where i = "Mov W32 (Rg 11) (Rg 0)"]) (simp_all add: mov_r11d_eax_zero_ext_def decode_simps )

lemma run_mov_eax_r11d [x86_steps]: "x86_run h (mov_eax_r11d @ bs) s =
    x86_run h bs (set_gp 0 (to64 (to32 (gp s 11))) s)"
  by (rule x86_run_step [where i = "Mov W32 (Rg 0) (Rg 11)"]) (simp_all add: mov_eax_r11d_def decode_simps )

lemma run_mov_rcx_r14 [x86_steps]: "x86_run h (mov_rcx_r14 @ bs) s =
    x86_run h bs (set_gp 1 (gp s 14) s)"
  by (rule x86_run_step [where i = "Mov W64 (Rg 1) (Rg 14)"]) (simp_all add: mov_rcx_r14_def decode_simps )

lemma run_shr_esi [x86_steps]: "n \<noteq> 0 \<Longrightarrow> unat n < 32 \<Longrightarrow> x86_run h (shr_esi n @ bs) s =
    x86_run h bs (set_gp 6 (to64 (drop_bit (unat n) (to32 (gp s 6)))) (shift_flags h (drop_bit (unat n) (to32 (gp s 6))) (bit (to32 (gp s 6)) (unat n - 1)) s))"
  by (rule x86_run_step [where i = "ShrI W32 (Rg 6) n"]) (simp_all add: shr_esi_def decode_simps Let_def unat_eq_0)

lemma run_shr_r10d [x86_steps]: "n \<noteq> 0 \<Longrightarrow> unat n < 32 \<Longrightarrow> x86_run h (shr_r10d n @ bs) s =
    x86_run h bs (set_gp 10 (to64 (drop_bit (unat n) (to32 (gp s 10)))) (shift_flags h (drop_bit (unat n) (to32 (gp s 10))) (bit (to32 (gp s 10)) (unat n - 1)) s))"
  by (rule x86_run_step [where i = "ShrI W32 (Rg 10) n"]) (simp_all add: shr_r10d_def decode_simps Let_def unat_eq_0)

lemma run_shl_esi [x86_steps]: "n \<noteq> 0 \<Longrightarrow> unat n < 32 \<Longrightarrow> x86_run h (shl_esi n @ bs) s =
    x86_run h bs (set_gp 6 (to64 (push_bit (unat n) (to32 (gp s 6)))) (shift_flags h (push_bit (unat n) (to32 (gp s 6))) (bit (to32 (gp s 6)) (32 - unat n)) s))"
  by (rule x86_run_step [where i = "ShlI W32 (Rg 6) n"]) (simp_all add: shl_esi_def decode_simps Let_def unat_eq_0)

lemma run_shl_r10d [x86_steps]: "n \<noteq> 0 \<Longrightarrow> unat n < 32 \<Longrightarrow> x86_run h (shl_r10d n @ bs) s =
    x86_run h bs (set_gp 10 (to64 (push_bit (unat n) (to32 (gp s 10)))) (shift_flags h (push_bit (unat n) (to32 (gp s 10))) (bit (to32 (gp s 10)) (32 - unat n)) s))"
  by (rule x86_run_step [where i = "ShlI W32 (Rg 10) n"]) (simp_all add: shl_r10d_def decode_simps Let_def unat_eq_0)

lemma run_movzx_edx_ah [x86_steps]: "x86_run h (movzx_edx_ah @ bs) s =
    x86_run h bs (set_gp 2 (to64 (to8 (drop_bit 8 (gp s 0)))) s)"
  by (rule x86_run_step [where i = "Movzx 2 (RgH 0)"]) (simp_all add: movzx_edx_ah_def decode_simps )

lemma run_movzx_r10d_cl [x86_steps]: "x86_run h (movzx_r10d_cl @ bs) s =
    x86_run h bs (set_gp 10 (to64 (to8 (gp s 1))) s)"
  by (rule x86_run_step [where i = "Movzx 10 (Rg 1)"]) (simp_all add: movzx_r10d_cl_def decode_simps )

lemma run_ld_r10d_apsr [x86_steps]: "gp s 15 = at_cpu h \<Longrightarrow> x86_run h (ld_r10d_apsr @ bs) s =
    x86_run h bs (set_gp 10 (to64 (apsr (cpu (mem s)))) s)"
  by (rule x86_run_step [where i = "Mov W32 (Rg 10) (Mem 15 72)"]) (simp_all add: ld_r10d_apsr_def decode_simps load32_def ea_def Let_def)

lemma run_st_r10d_apsr [x86_steps]: "gp s 15 = at_cpu h \<Longrightarrow> x86_run h (st_r10d_apsr @ bs) s =
    x86_run h bs (s\<lparr>mem := cpu_update (apsr_update (\<lambda>_. to32 (gp s 10))) (mem s)\<rparr>)"
  by (rule x86_run_step [where i = "Mov W32 (Mem 15 72) (Rg 10)"]) (simp_all add: st_r10d_apsr_def decode_simps store32_def ea_def Let_def)

lemma run_add_r11_r10 [x86_steps]: "x86_run h (add_r11_r10 @ bs) s =
    x86_run h bs (set_gp 11 (gp s 11 + gp s 10) (alu_flags X_ADD (gp s 11) (gp s 10) s))"
  by (rule x86_run_step [where i = "Alu W64 X_ADD (Rg 11) (Rg 10)"]) (simp_all add: add_r11_r10_def decode_simps alu_step_def Let_def discards_def)

lemma run_sub_r11_imm32 [x86_steps]: "x86_run h (sub_r11_imm32 v @ bs) s =
    x86_run h bs (set_gp 11 (gp s 11 - scast v) (alu_flags X_SUB (gp s 11) (scast v) s))"
  by (rule x86_run_step [where i = "AluI W64 X_SUB (Rg 11) v"]) (simp_all add: sub_r11_imm32_def decode_simps alu_step_def Let_def discards_def)

lemma run_lea_r9_rsp0 [x86_steps]: "x86_run h (lea_r9_rsp0 @ bs) s =
    x86_run h bs (set_gp 9 (rsp h s) s)"
  by (rule x86_run_step [where i = "Lea 9 (Mem 4 0)"]) (simp_all add: lea_r9_rsp0_def decode_simps )

lemma run_mov_ecx_rsp0 [x86_steps]: "stk s = w # ws \<Longrightarrow> x86_run h (mov_ecx_rsp0 @ bs) s =
    x86_run h bs (set_gp 1 (to64 (to32 w)) s)"
  by (rule x86_run_step [where i = "Mov W32 (Rg 1) (Mem 4 0)"]) (simp_all add: mov_ecx_rsp0_def decode_simps )

lemma run_cmp_eax_imm32 [x86_steps]: "x86_run h (cmp_eax_imm32 v @ bs) s =
    x86_run h bs (alu_flags X_CMP (to32 (gp s 0)) v s)"
  by (rule x86_run_step [where i = "AluI W32 X_CMP (Rg 0) v"]) (simp_all add: cmp_eax_imm32_def decode_simps alu_step_def Let_def discards_def)

lemma run_or_bl_1 [x86_steps]: "x86_run h (or_bl_1 @ bs) s =
    x86_run h bs (set_gp 3 (put_lo (gp s 3) (to8 (gp s 3) OR 1)) (alu_flags X_OR (to8 (gp s 3)) 1 s))"
  by (rule x86_run_step [where i = "AluI W8 X_OR (Rg 3) 1"]) (simp_all add: or_bl_1_def decode_simps alu_step_def Let_def discards_def)

definition ah_flags :: "x86_host \<Rightarrow> xstate \<Rightarrow> u8" where
  "ah_flags h s = push_bit 7 (b2w (sfl s)) OR push_bit 6 (b2w (zfl s)) OR (af_pf h s AND 0x14) OR 2 OR b2w (cfl s)"

lemma run_lahf [x86_steps]: "x86_run h (0x9F # bs) s =
    x86_run h bs (set_gp 0 (put_hi (gp s 0) (ah_flags h s)) s)"
  by (rule x86_run_step [where i = Lahf]) (simp_all add: decode_simps ah_flags_def)

lemma run_seto_cl [x86_steps]: "x86_run h (0x0F # 0x90 # 0xC1 # bs) s =
    x86_run h bs (set_gp 1 (put_lo (gp s 1) (b2w (ofl s))) s)"
  by (rule x86_run_step [where i = "Seto (Rg 1)"]) (simp_all add: decode_simps word_le_nat_alt)

lemma run_test_eax [x86_steps]: "x86_run h (0x85 # 0xC0 # bs) s =
    x86_run h bs (alu_flags X_TEST (to32 (gp s 0)) (to32 (gp s 0)) s)"
  by (rule x86_run_step [where i = "Alu W32 X_TEST (Rg 0) (Rg 0)"])
    (simp_all add: decode_simps alu_step_def Let_def discards_def)

lemma run_sub_rsp_16 [x86_steps]: "x86_run h (sub_rsp_16 @ bs) s =
    x86_run h bs ((alu_flags X_SUB (rsp h s) 16 s)\<lparr>stk := map (below h s) [0..<2] @ stk s\<rparr>)"
  by (rule x86_run_step [where i = "AluI W64 X_SUB (Rg 4) 16"])
    (simp_all add: sub_rsp_16_def decode_simps rsp_step_def Let_def)

lemma run_add_rsp_16 [x86_steps]: "2 \<le> length (stk s) \<Longrightarrow> x86_run h (add_rsp_16 @ bs) s =
    x86_run h bs ((alu_flags X_ADD (rsp h s) 16 s)\<lparr>stk := drop 2 (stk s)\<rparr>)"
  by (rule x86_run_step [where i = "AluI W64 X_ADD (Rg 4) 16"])
    (simp_all add: add_rsp_16_def decode_simps rsp_step_def Let_def)

lemma run_call_rax: "call_bus h s (gp s 0) = Some s' \<Longrightarrow> x86_run h (call_rax @ bs) s = x86_run h bs s'"
  by (rule x86_run_step [where i = "CallR 0"]) (simp_all add: call_rax_def decode_simps)

section \<open>Jumps\<close>

lemma unat_to32_u8 [simp]: "unat (to32 (n :: u8)) = unat n"
proof -
  have "unat n < 2 ^ 8" using unsigned_less [of n] by simp
  then show ?thesis by (simp add: unsigned_ucast_eq take_bit_nat_eq_self)
qed

lemma run_jcc_rel8 [x86_steps]:
  assumes "\<not> bit n 7"
  shows "x86_run h (jcc_rel8 0x72 n @ bs) s = x86_run h (if cfl s then drop (unat n) bs else bs) s"
    "x86_run h (jcc_rel8 0x74 n @ bs) s = x86_run h (if zfl s then drop (unat n) bs else bs) s"
    "x86_run h (jcc_rel8 0x75 n @ bs) s = x86_run h (if \<not> zfl s then drop (unat n) bs else bs) s"
    "x86_run h (jcc_rel8 0x77 n @ bs) s = x86_run h (if \<not> (cfl s \<or> zfl s) then drop (unat n) bs else bs) s"
  using assms
  by (subst x86_run.simps, simp add: jcc_rel8_def decode_simps rel8_def jcc_def Let_def)+

lemma run_jmp_short [x86_steps]: "\<not> bit n 7 \<Longrightarrow> x86_run h (jmp_short n @ bs) s = x86_run h (drop (unat n) bs) s"
  by (subst x86_run.simps) (simp add: jmp_short_def decode_simps rel8_def)

lemma run_jcc_rel32 [x86_steps]:
  assumes "\<not> bit n 31"
  shows "x86_run h (emit_jcc_rel32 0x84 n @ bs) s = x86_run h (if zfl s then drop (unat n) bs else bs) s"
    "x86_run h (emit_jcc_rel32 0x85 n @ bs) s = x86_run h (if \<not> zfl s then drop (unat n) bs else bs) s"
  using assms
  by (subst x86_run.simps, simp add: emit_jcc_rel32_def decode_simps rel32_def jcc_def Let_def)+

lemma run_jmp_rel32 [x86_steps]: "\<not> bit n 31 \<Longrightarrow> x86_run h (0xE9 # emit_w32 n @ bs) s = x86_run h (drop (unat n) bs) s"
  by (subst x86_run.simps) (simp add: decode_simps rel32_def)

lemma run_test_al [x86_steps]: "x86_run h (0x84 # 0xC0 # bs) s = x86_run h bs (alu_flags X_TEST (to8 (gp s 0)) (to8 (gp s 0)) s)"
  by (rule x86_run_step [where i = "Alu W8 X_TEST (Rg 0) (Rg 0)"])
    (simp_all add: decode_simps alu_step_def Let_def discards_def)

text \<open>\<^verbatim>\<open>test al, al; jnz\<close>: the jump is taken when the call returned true.\<close>

lemma run_test_al_jnz [x86_steps]:
  assumes "\<not> bit n 7"
  shows "x86_run h (test_al_jnz n @ bs) s =
    x86_run h (if to8 (gp s 0) \<noteq> 0 then drop (unat n) bs else bs) (alu_flags X_TEST (to8 (gp s 0)) (to8 (gp s 0)) s)"
proof -
  have "test_al_jnz n @ bs = 0x84 # 0xC0 # jcc_rel8 0x75 n @ bs" by (simp add: test_al_jnz_def jcc_rel8_def)
  then show ?thesis by (simp only: run_test_al run_jcc_rel8(3) [OF assms] alu_flags_simps alu.simps and.idem)
qed

lemma length_code [simp]: "length (emit_w32 v) = 4" "length or_bl_1 = 3" "length (jmp_short n) = 2" "length (st_ecx r) = 7"
    "length (st_pc v) = 11" "length (ld_eax r) = 7" "length (ld_ecx r) = 7"
  by (simp_all add: emit_w32_def or_bl_1_def jmp_short_def st_ecx_def st_pc_def ld_eax_def ld_ecx_def)

section \<open>Flags\<close>

lemma ah_bits: "bit (ah_flags h s) 7 = sfl s" "bit (ah_flags h s) 6 = zfl s" "bit (ah_flags h s) 0 = cfl s"
  by (simp_all add: ah_flags_def bit_simps b2w_def)

lemma u32_cases: "n < LENGTH(32) \<Longrightarrow> n < 28 \<or> n = 28 \<or> n = 29 \<or> n = 30 \<or> n = 31"
  by (simp; linarith)

lemma low28: "(w :: u32) AND 0x0FFFFFFF = take_bit 28 w"
  by (simp add: take_bit_eq_mask mask_eq_exp_minus_1)

lemma flags_eqI:
  fixes w w' :: u32
  assumes "w AND 0x0FFFFFFF = w' AND 0x0FFFFFFF" "bit w 31 = bit w' 31" "bit w 30 = bit w' 30"
    "bit w 29 = bit w' 29" "bit w 28 = bit w' 28"
  shows "w = w'"
proof (rule bit_word_eqI)
  fix k assume "k < LENGTH(32)"
  from u32_cases [OF this] show "bit w k = bit w' k"
  proof (elim disjE)
    assume k: "k < 28"
    have "bit (take_bit 28 w) k = bit (take_bit 28 w') k" using assms(1) by (simp only: low28)
    then show ?thesis using k by (simp add: bit_simps)
  qed (simp_all add: assms)
qed

text \<open>The words that the two versions of the flag code leave in R10.\<close>

definition nzcv_word :: "u32 \<Rightarrow> u8 \<Rightarrow> bool \<Rightarrow> bool \<Rightarrow> u32" where
  "nzcv_word f e sub v =
     (f AND 0x0FFFFFFF) OR
     (((push_bit 31 (drop_bit 7 (to32 e)) OR push_bit 30 (drop_bit 6 (to32 e)) AND 0x40000000) OR
      (if sub then push_bit 29 (to32 e) AND 0x20000000 XOR 0x20000000 else push_bit 29 (to32 e) AND 0x20000000)) OR
      push_bit 28 (to32 (b2w v :: u8)))"

lemma nzcv_word_bits:
  "nzcv_word f e sub v AND 0x0FFFFFFF = f AND 0x0FFFFFFF" "bit (nzcv_word f e sub v) 31 = bit e 7"
  "bit (nzcv_word f e sub v) 30 = bit e 6" "bit (nzcv_word f e sub v) 29 = (bit e 0 \<noteq> sub)"
  "bit (nzcv_word f e sub v) 28 = v"
  by (simp_all add: nzcv_word_def low28 take_bit_or take_bit_and take_bit_push_bit)
    (simp_all add: bit_simps b2w_def)

definition after_flags :: "x86_host \<Rightarrow> (u8 \<Rightarrow> u32 \<Rightarrow> u32) \<Rightarrow> u8 list \<Rightarrow> xstate \<Rightarrow> xstate \<Rightarrow> bool" where
  "after_flags h f code s s' \<longleftrightarrow> runs h code s s' \<and>
    (\<exists>e. bit e 7 = sfl s \<and> bit e 6 = zfl s \<and> bit e 0 = cfl s \<and> mem s' = cpu_update (apsr_update (\<lambda>_. f e (apsr (cpu (mem s))))) (mem s)) \<and>
    gp s' 0 = to64 (to32 (gp s 0)) \<and> stk s' = stk s \<and> (\<forall>r \<in> {3,5,7,12,13,14,15}. gp s' r = gp s r)"

lemma after_flagsI:
  assumes "\<And>bs. x86_run h (code @ bs) s = x86_run h bs s'"
    "mem s' = cpu_update (apsr_update (\<lambda>_. f (ah_flags h t) (apsr (cpu (mem s))))) (mem s)" "sfl t = sfl s" "zfl t = zfl s" "cfl t = cfl s"
    "gp s' 0 = to64 (to32 (gp s 0)) \<and> stk s' = stk s \<and> (\<forall>r \<in> {3,5,7,12,13,14,15}. gp s' r = gp s r)"
  shows "\<exists>s'. after_flags h f code s s'"
  unfolding after_flags_def runs_def
  using assms by (intro exI [of _ s'] conjI exI [of _ "ah_flags h t"]) (auto simp: ah_bits)

lemma flags_add_run:
  assumes "gp s 15 = at_cpu h"
  shows "\<exists>s'. after_flags h (\<lambda>e f. nzcv_word f e False (ofl s)) (emit_flags_nzcv False) s s'"
  by (rule after_flagsI [where t = "set_gp 11 (to64 (to32 (gp s 0))) s"],
      simp add: emit_flags_nzcv_def emit_lahf_seto_cl_def x86_steps assms)
    (simp_all add: nzcv_word_def)

lemma flags_sub_run:
  assumes "gp s 15 = at_cpu h"
  shows "\<exists>s'. after_flags h (\<lambda>e f. nzcv_word f e True (ofl s)) (emit_flags_nzcv True) s s'"
  by (rule after_flagsI [where t = "set_gp 11 (to64 (to32 (gp s 0))) s"],
      simp add: emit_flags_nzcv_def emit_lahf_seto_cl_def x86_steps assms)
    (simp_all add: nzcv_word_def)

definition nz_word :: "u32 \<Rightarrow> u8 \<Rightarrow> u32" where
  "nz_word f e = (f AND 0x3FFFFFFF) OR (push_bit 31 (drop_bit 7 (to32 e)) OR push_bit 30 (drop_bit 6 (to32 e)) AND 0x40000000)"

lemma flags_nz_run:
  assumes "gp s 15 = at_cpu h"
  shows "\<exists>s'. after_flags h (\<lambda>e f. nz_word f e) emit_flags_nz s s'"
  by (rule after_flagsI [where t = "set_gp 11 (to64 (to32 (gp s 0))) s"],
      simp add: emit_flags_nz_def x86_steps assms)
    (simp_all add: nz_word_def)
text \<open>These words are the flags that the setters of cpu.c compute.\<close>

lemma top_bit32 [simp]: "top_bit (w :: u32) = bit w 31"
  by (simp add: top_bit_def)

lemma sint_neg_bit: "sint (r :: u32) < 0 \<longleftrightarrow> bit r 31"
  using uint_lt32 [of r] by (auto simp add: sint_unat32 bit31_ge)

lemma add_word:
  assumes "bit e 7 = bit (a + b) 31" "bit e 6 = (a + b = 0)" "bit e 0 = alu_carry X_ADD a b"
  shows "apsr_update (\<lambda>_. nzcv_word (apsr c) e False (alu_overflow X_ADD a b)) c = cpu_set_flags_nzcv_add c a b (a + b) False"
proof -
  let ?f = "apsr (cpu_set_flags_nzcv_add c a b (a + b) False)"
  note l = add_flags [of c a b False, simplified]
  have "unat (a + b) = (unat a + unat b) mod 2 ^ 32" using unat_add3 [of a b False] by simp
  then have carry: "a + b < a \<longleftrightarrow> 2 ^ 32 \<le> unat a + unat b"
    using unat_lt32 [of a] unat_lt32 [of b] by (auto simp: word_less_nat_alt mod_if)
  have over: "bit ?f 28 = alu_overflow X_ADD a b"
    by (auto simp: cpu_set_flags_nzcv_add_def Let_def flag_bits alu_overflow_def)
  have "nzcv_word (apsr c) e False (alu_overflow X_ADD a b) = ?f"
    by (rule flags_eqI; simp only: nzcv_word_bits l assms)
      (use over l in \<open>simp_all add: sint_neg_bit alu_carry_def carry\<close>)
  then show ?thesis by (simp add: cpu_set_flags_nzcv_add_def Let_def)
qed

lemma sub_word:
  assumes "bit e 7 = bit (a - b) 31" "bit e 6 = (a - b = 0)" "bit e 0 = (a < b)"
  shows "apsr_update (\<lambda>_. nzcv_word (apsr c) e True (alu_overflow X_SUB a b)) c = cpu_set_flags_nzcv_sub c a b (a - b)"
proof -
  let ?f = "apsr (cpu_set_flags_nzcv_sub c a b (a - b))"
  have over: "bit ?f 28 = alu_overflow X_SUB a b"
    by (auto simp: cpu_set_flags_nzcv_sub_def Let_def flag_bits alu_overflow_def)
  have "nzcv_word (apsr c) e True (alu_overflow X_SUB a b) = ?f"
    by (rule flags_eqI; simp only: nzcv_word_bits sub_flags [of c a b] assms)
      (use over sub_flags(4) [of c a b] in \<open>auto simp add: sint_neg_bit\<close>)
  then show ?thesis by (simp add: cpu_set_flags_nzcv_sub_def Let_def)
qed

lemma nz_word:
  assumes "bit e 7 = bit r 31" "bit e 6 = (r = 0)"
  shows "apsr_update (\<lambda>_. nz_word (apsr c) e) c = cpu_set_flags_nz c r"
proof -
  let ?f = "apsr (cpu_set_flags_nz c r)"
  have "nz_word (apsr c) e = ?f"
  proof (rule bit_word_eqI)
    fix k assume "k < LENGTH(32)"
    then have k: "k < 30 \<or> k = 30 \<or> k = 31" by simp linarith
    have m: "(w :: u32) AND 0x3FFFFFFF = take_bit 30 w" for w by (simp add: take_bit_eq_mask mask_eq_exp_minus_1)
    have low: "take_bit 30 (nz_word (apsr c) e) = take_bit 30 ?f"
      using nz_flags(3) [of c r] unfolding m nz_word_def
      by (simp add: take_bit_or take_bit_and take_bit_push_bit)
    show "bit (nz_word (apsr c) e) k = bit ?f k"
      using k
    proof (elim disjE)
      assume "k < 30"
      then show ?thesis using arg_cong [OF low, of "\<lambda>w. bit w k"] by (simp add: bit_simps)
    qed (simp_all add: nz_flags sint_neg_bit nz_word_def m bit_simps assms)
  qed
  then show ?thesis by (simp add: cpu_set_flags_nz_def Let_def)
qed
end
