(* ===== verification/Blind.thy ===== *)
theory Blind
  imports Bus_Laws
begin

text \<open>
  Changes of the processor that the bus does not see.  The devices read and write only the
  fault registers of \<open>cpu_t\<close>, so a load or store commutes with any change that leaves those
  alone.  The locale states what such a change \<open>f\<close> promises; \<open>warp\<close>, the change of the
  program counter and of the cycle count that tells a thunk from the interpreter, provides it.
\<close>

locale bus_blind =
  fixes f :: "cpu_t \<Rightarrow> cpu_t"
  assumes f_reads: "cfsr (f c) = cfsr c" "hfsr (f c) = hfsr c" "mmfar (f c) = mmfar c" "bfar (f c) = bfar c"
    and f_writes: "f (c\<lparr>cfsr := x\<rparr>) = (f c)\<lparr>cfsr := x\<rparr>" "f (c\<lparr>hfsr := x\<rparr>) = (f c)\<lparr>hfsr := x\<rparr>"
begin

abbreviation up :: "machine \<Rightarrow> machine" where "up \<equiv> cpu_update f"

lemma scb_cpu_up: "scb_cpu (up m) = map_option f (scb_cpu m)"
  by (simp add: scb_cpu_def)

lemma scb_read_up: "scb_read s (map_option f c) off = scb_read s c off"
  by (cases c) (simp_all add: scb_read_def f_reads)

lemma scb_write_up: "scb_write s (map_option f c) off v = apsnd (map_option f) (scb_write s c off v)"
  by (cases c) (simp_all add: scb_write_def Let_def f_reads f_writes)

lemma dev_read_up: "dev_read (up m) d off = apsnd up (dev_read m d off)"
  by (cases d) (simp_all add: scb_cpu_up scb_read_up split: prod.splits)

lemma scb_cpu_none: "scb_cpu m = None \<Longrightarrow> snd (scb_write s (scb_cpu m) off v) = None"
  by (simp add: scb_write_def Let_def)

lemma set_cpu: "m\<lparr>cpu := f (cpu m)\<rparr> = up m"
  by (cases m) simp

lemma dev_write_up: "dev_write (up m) d off v = up (dev_write m d off v)"
proof (cases d)
  case DEV_SCB
  obtain s c where w: "scb_write (d_scb m) (scb_cpu m) off v = (s, c)" by (cases "scb_write (d_scb m) (scb_cpu m) off v")
  then show ?thesis
    using DEV_SCB by (cases c) (simp_all add: scb_cpu_up scb_write_up set_cpu)
qed (auto simp: uart_write_def uart_capture_def emit_stdout_def split: option.splits uart_sink.splits)

lemma put_flat_up: "put_flat (up m) k off sz v = up (put_flat m k off sz v)"
  by (simp add: put_flat_def)

lemma bus_read_up: "bus_read (up m) a sz = apsnd up (bus_read m a sz)"
  by (auto simp: bus_read_def Let_def dev_read_up split: option.splits region_kind_t.splits prod.splits)

text \<open>A write, through the Ethernet loopback too.\<close>

definition follows :: "write_fn \<Rightarrow> bool" where
  "follows w \<longleftrightarrow> (\<forall>m a sz v ok m'. w m a sz v = Some (ok, m') \<longrightarrow> bus_write (up m) a sz v = Some (ok, up m'))"

lemma copy_loop_up: "follows w \<Longrightarrow> copy_loop w m src dst n = Some m' \<Longrightarrow> copy_loop bus_write (up m) src dst n = Some (up m')"
proof (induction n arbitrary: m src dst)
  case (Suc n)
  obtain v m1 where r: "bus_read m src 1 = (v, m1)" by (cases "bus_read m src 1")
  then obtain ok m2 where w: "w m1 dst 1 (case v of Some x \<Rightarrow> x | None \<Rightarrow> 0) = Some (ok, m2)"
    and l: "copy_loop w m2 (src + 1) (dst + 1) n = Some m'"
    using Suc.prems(2) by (auto simp: Let_def split: bind_splits)
  have "bus_write (up m1) dst 1 (case v of Some x \<Rightarrow> x | None \<Rightarrow> 0) = Some (ok, up m2)"
    using Suc.prems(1) w by (auto simp: follows_def)
  then show ?case using Suc.IH [OF Suc.prems(1) l] r by (simp add: bus_read_up)
qed simp

lemma store_bytes_up: "follows w \<Longrightarrow> store_bytes w m dst bs = Some m' \<Longrightarrow> store_bytes bus_write (up m) dst bs = Some (up m')"
proof (induction bs arbitrary: m dst)
  case (Cons b bs)
  then obtain ok m1 where w: "w m dst 1 (to32 b) = Some (ok, m1)"
    and l: "store_bytes w m1 (dst + 1) bs = Some m'" by (auto split: bind_splits)
  have "bus_write (up m) dst 1 (to32 b) = Some (ok, up m1)" using Cons.prems(1) w by (auto simp: follows_def)
  then show ?case using Cons.IH [OF Cons.prems(1) l] by simp
qed simp

lemma read_frame_up: "read_frame (up m) src n = apsnd up (read_frame m src n)"
  by (induction n arbitrary: m src) (simp_all add: bus_read_up Let_def case_prod_unfold)

lemma up_eth: "up (m\<lparr>d_eth := e\<rparr>) = (up m)\<lparr>d_eth := e\<rparr>"
  by (cases m) simp

lemma eth_write_up:
  assumes "follows w" "eth_write w m off v = Some m'"
  shows "eth_write bus_write (up m) off v = Some (up m')"
proof -
  have echo: "make_echo_reply bus_write (up m0) src dst len = Some (up m1)"
    if "make_echo_reply w m0 src dst len = Some m1" for m0 src dst len m1
    using that copy_loop_up [OF assms(1)] store_bytes_up [OF assms(1)]
    by (auto simp: make_echo_reply_def Let_def read_frame_up case_prod_unfold split: if_splits)
  show ?thesis
  proof (cases "off = 0x08 \<and> eth_bus (d_eth m) \<and> rx_addr (d_eth m) \<noteq> 0")
    case True
    let ?m = "m\<lparr>d_eth := (d_eth m)\<lparr>tx_len := v\<rparr>\<rparr>"
    obtain m1 where m1: "make_echo_reply w ?m (tx_addr (d_eth m)) (rx_addr (d_eth m)) v = Some m1"
      and m': "m' = m1\<lparr>d_eth := (d_eth m1)\<lparr>rx_len := v, eth_status := eth_status (d_eth m1) OR 3\<rparr>\<rparr>"
      using True assms(2) by (auto simp: eth_write_def Let_def split: bind_splits)
    show ?thesis using True echo [OF m1] m' by (simp add: eth_write_def Let_def up_eth)
  next
    case False
    then show ?thesis using assms(2) by (auto simp: eth_write_def Let_def split: if_splits)
  qed
qed

lemma bus_write_up: "bus_write m a sz v = Some (ok, m') \<Longrightarrow> bus_write (up m) a sz v = Some (ok, up m')"
proof -
  have "bus_write m a sz v = Some y \<Longrightarrow> bus_write (up m) a sz v = Some (apsnd up y)" for y
  proof (rule bus_write.raw_induct [where P = "\<lambda>m a sz v y. bus_write (up m) a sz v = Some (apsnd up y)"])
    fix w m a sz v y
    assume IH: "\<And>m a sz v y. w m a sz v = Some y \<Longrightarrow> bus_write (up m) a sz v = Some (apsnd up y)"
      and y: "(case find_region (regions m) a of None \<Rightarrow> Some (False, m)
        | Some k \<Rightarrow> (let r = regions m ! k; off = a - base r
             in if \<not> writable r then Some (False, m)
                else if off + sz > rsize r then Some (False, m)
                else case kind r of
                  REGION_FLAT \<Rightarrow> Some (True, put_flat m k off sz v)
                | REGION_MMIO d \<Rightarrow>
                    (if d = DEV_ETH
                     then do { m' \<leftarrow> eth_write w m off v; Some (True, m') }
                     else Some (True, dev_write m d off v)))) = Some y"
    have w: "follows w" unfolding follows_def by (auto dest: IH)
    show "bus_write (up m) a sz v = Some (apsnd up y)"
      using y by (subst bus_write.simps)
        (auto simp: Let_def put_flat_up dev_write_up split: option.splits if_splits region_kind_t.splits bind_splits
          dest: eth_write_up [OF w])
  qed
  then show "bus_write m a sz v = Some (ok, m') \<Longrightarrow> bus_write (up m) a sz v = Some (ok, up m')" by fastforce
qed

end

text \<open>The change that separates a thunk from the interpreter.\<close>

definition warp_cpu :: "u32 \<Rightarrow> u64 \<Rightarrow> cpu_t \<Rightarrow> cpu_t" where
  "warp_cpu p n c = c\<lparr>r_of := (r_of c)(15 := p), cycles := n\<rparr>"

abbreviation warp :: "u32 \<Rightarrow> u64 \<Rightarrow> machine \<Rightarrow> machine" where
  "warp p n \<equiv> cpu_update (warp_cpu p n)"

interpretation wr: bus_blind "warp_cpu p n" for p n
  by unfold_locales (simp_all add: warp_cpu_def)

lemma warp_warp [simp]: "warp_cpu p n (warp_cpu q k c) = warp_cpu p n c"
  by (simp add: warp_cpu_def)

lemma warp_self: "warp_cpu (r_of c 15) (cycles c) c = c"
  by (simp add: warp_cpu_def)

text \<open>A warp can be undone, so the bus takes both ways.\<close>

lemma bus_write_warp:
  assumes "bus_write (warp p n m) a sz v = Some (ok, m')"
  shows "\<exists>m1. bus_write m a sz v = Some (ok, m1) \<and> m' = warp p n m1"
proof -
  let ?undo = "warp (r_of (cpu m) 15) (cycles (cpu m))"
  have id: "?undo (warp p n m) = m" by (cases m) (simp add: warp_self)
  have "bus_write m a sz v = Some (ok, ?undo m')" using wr.bus_write_up [OF assms, of "r_of (cpu m) 15" "cycles (cpu m)"] unfolding id .
  moreover from wr.bus_write_up [OF this, of p n] have "m' = warp p n (?undo m')" using assms by simp
  ultimately show ?thesis by blast
qed

end
