(* ===== verification/Codegen_Laws.thy ===== *)
theory Codegen_Laws
  imports X86_Laws Executor Blind
begin

text \<open>
  The emitted code against the interpreter, one instruction at a time: the code of a data
  processing instruction leaves the machine that \<open>execute\<close> leaves, up to the program counter and
  the cycle count, which the thunk sets once per block or not at all.
\<close>

section \<open>Effects of code on the machine\<close>

definition kept :: "xstate \<Rightarrow> xstate \<Rightarrow> bool" where
  "kept s s' \<longleftrightarrow> length (stk s') = length (stk s) \<and> drop 4 (stk s') = drop 4 (stk s) \<and> (\<forall>r \<in> {3,5,7,12,13,14,15}. gp s' r = gp s r)"

text \<open>\<open>does h code s m v\<close>: the code ends with machine \<open>m\<close> and \<open>v\<close> in EAX.\<close>

definition does :: "x86_host \<Rightarrow> u8 list \<Rightarrow> xstate \<Rightarrow> machine \<Rightarrow> u32 \<Rightarrow> bool" where
  "does h code s m v \<longleftrightarrow> (\<exists>s'. runs h code s s' \<and> mem s' = m \<and> gp s' 0 = to64 v \<and> kept s s')"

text \<open>\<open>computes h code s op a b\<close>: the code leaves \<open>alu op a b\<close> in EAX, with its flags.\<close>

definition computes :: "x86_host \<Rightarrow> u8 list \<Rightarrow> xstate \<Rightarrow> alu_op \<Rightarrow> u32 \<Rightarrow> u32 \<Rightarrow> bool" where
  "computes h code s op a b \<longleftrightarrow> (\<exists>s'. runs h code s s' \<and> mem s' = mem s \<and> gp s' 0 = to64 (alu op a b) \<and> kept s s' \<and>
     zfl s' = (alu op a b = 0) \<and> sfl s' = bit (alu op a b) 31 \<and> cfl s' = alu_carry op a b \<and> ofl s' = alu_overflow op a b)"

lemma kept_trans: "kept s1 s2 \<Longrightarrow> kept s2 s3 \<Longrightarrow> kept s1 s3"
  by (simp add: kept_def)

lemma kept_15: "kept s s' \<Longrightarrow> gp s' 15 = gp s 15"
  by (simp add: kept_def)

lemma computes_does: "computes h c s op a b \<Longrightarrow> does h c s (mem s) (alu op a b)"
  by (auto simp: computes_def does_def)

lemma computes_reg:
  assumes "gp s 15 = at_cpu h" "n < 16" "m < 16"
  shows "computes h (ld_eax n @ ld_ecx m @ op_add_ec) s X_ADD (reg (mem s) n) (reg (mem s) m)"
    "computes h (ld_eax n @ ld_ecx m @ op_sub_ec) s X_SUB (reg (mem s) n) (reg (mem s) m)"
    "computes h (ld_eax n @ ld_ecx m @ op_and_ec) s X_AND (reg (mem s) n) (reg (mem s) m)"
    "computes h (ld_eax n @ ld_ecx m @ op_or_ec) s X_OR (reg (mem s) n) (reg (mem s) m)"
    "computes h (ld_eax n @ ld_ecx m @ op_xor_ec) s X_XOR (reg (mem s) n) (reg (mem s) m)"
  unfolding computes_def runs_def kept_def
  by (rule exI, rule conjI, rule allI, simp add: x86_steps assms, simp)+

lemma run_logic_imm [x86_steps]:
  "x86_run h (0x25 # emit_w32 v @ bs) s = x86_run h bs (set_gp 0 (to64 (alu X_AND (to32 (gp s 0)) v)) (alu_flags X_AND (to32 (gp s 0)) v s))"
  "x86_run h (0x0D # emit_w32 v @ bs) s = x86_run h bs (set_gp 0 (to64 (alu X_OR (to32 (gp s 0)) v)) (alu_flags X_OR (to32 (gp s 0)) v s))"
  "x86_run h (0x35 # emit_w32 v @ bs) s = x86_run h bs (set_gp 0 (to64 (alu X_XOR (to32 (gp s 0)) v)) (alu_flags X_XOR (to32 (gp s 0)) v s))"
  by (rule x86_run_step [where i = "AluI W32 X_AND (Rg 0) v"], simp add: decode_simps, simp add: alu_step_def Let_def discards_def)
    (rule x86_run_step [where i = "AluI W32 X_OR (Rg 0) v"], simp add: decode_simps, simp add: alu_step_def Let_def discards_def,
     rule x86_run_step [where i = "AluI W32 X_XOR (Rg 0) v"], simp add: decode_simps, simp add: alu_step_def Let_def discards_def)

lemma computes_imm:
  assumes "gp s 15 = at_cpu h" "n < 16"
  shows "computes h (ld_eax n @ add_imm v) s X_ADD (reg (mem s) n) v"
    "computes h (ld_eax n @ sub_imm v) s X_SUB (reg (mem s) n) v"
    "computes h (ld_eax n @ 0x25 # emit_w32 v) s X_AND (reg (mem s) n) v"
    "computes h (ld_eax n @ 0x0D # emit_w32 v) s X_OR (reg (mem s) n) v"
    "computes h (ld_eax n @ 0x35 # emit_w32 v) s X_XOR (reg (mem s) n) v"
  unfolding computes_def runs_def kept_def
  by (rule exI, rule conjI, rule allI, simp add: x86_steps assms, simp)+

lemma computes_mov:
  "computes h (mov_eax_imm v @ [0x85, 0xC0]) s X_TEST v v"
  "gp s 15 = at_cpu h \<Longrightarrow> m < 16 \<Longrightarrow> computes h (ld_eax m @ [0x85, 0xC0]) s X_TEST (reg (mem s) m) (reg (mem s) m)"
  unfolding computes_def runs_def kept_def
  by (rule exI, rule conjI, rule allI, simp add: x86_steps, simp)+

lemma does_mov:
  "does h (mov_eax_imm v) s (mem s) v"
  "gp s 15 = at_cpu h \<Longrightarrow> m < 16 \<Longrightarrow> does h (ld_eax m) s (mem s) (reg (mem s) m)"
  unfolding does_def runs_def kept_def
  by (rule exI, rule conjI, rule allI, simp add: x86_steps, simp)+

section \<open>Flags and the store of the result\<close>

lemma with_flags:
  assumes "computes h c s op a b" "\<And>s1. gp s1 15 = gp s 15 \<Longrightarrow> zfl s1 = (alu op a b = 0) \<Longrightarrow> sfl s1 = bit (alu op a b) 31 \<Longrightarrow>
      cfl s1 = alu_carry op a b \<Longrightarrow> ofl s1 = alu_overflow op a b \<Longrightarrow>
      \<exists>f s'. after_flags h f fl s1 s' \<and> (\<forall>e k. bit e 7 = sfl s1 \<longrightarrow> bit e 6 = zfl s1 \<longrightarrow> bit e 0 = cfl s1 \<longrightarrow>
        apsr_update (\<lambda>_. f e (apsr k)) k = g k)"
  shows "does h (c @ fl) s (cpu_update g (mem s)) (alu op a b)"
proof -
  obtain s1 where s1: "runs h c s s1" "mem s1 = mem s" "gp s1 0 = to64 (alu op a b)" "kept s s1"
     "zfl s1 = (alu op a b = 0)" "sfl s1 = bit (alu op a b) 31" "cfl s1 = alu_carry op a b" "ofl s1 = alu_overflow op a b"
    using assms(1) by (auto simp: computes_def)
  obtain f s' where s': "after_flags h f fl s1 s'"
     "\<forall>e k. bit e 7 = sfl s1 \<longrightarrow> bit e 6 = zfl s1 \<longrightarrow> bit e 0 = cfl s1 \<longrightarrow> apsr_update (\<lambda>_. f e (apsr k)) k = g k"
    using assms(2) [of s1] s1 by (auto simp: kept_15)
  then obtain e where e: "bit e 7 = sfl s1" "bit e 6 = zfl s1" "bit e 0 = cfl s1"
      "mem s' = cpu_update (apsr_update (\<lambda>_. f e (apsr (cpu (mem s1))))) (mem s1)"
    by (auto simp: after_flags_def)
  have "cpu_update (apsr_update (\<lambda>_. f e (apsr (cpu m)))) m = cpu_update g m" for m
    using s'(2) e(1-3) by (cases m) simp
  then have "mem s' = cpu_update g (mem s)" using e(4) s1(2) by simp
  then show ?thesis
    using s1 s'(1) by (auto simp: does_def after_flags_def kept_def intro!: exI [of _ s'] intro: runs_append)
qed

lemma with_nzcv:
  assumes "gp s 15 = at_cpu h"
  shows "computes h c s X_ADD a b \<Longrightarrow> does h (c @ emit_flags_nzcv False) s (nzcv_add (mem s) a b (a + b) False) (a + b)"
    "computes h c s X_SUB a b \<Longrightarrow> does h (c @ emit_flags_nzcv True) s (nzcv_sub (mem s) a b (a - b)) (a - b)"
proof -
  assume c: "computes h c s X_ADD a b"
  have "does h (c @ emit_flags_nzcv False) s (nzcv_add (mem s) a b (a + b) False) (alu X_ADD a b)"
  proof (rule with_flags [OF c])
    fix s1 :: xstate assume s1: "gp s1 15 = gp s 15" "zfl s1 = (alu X_ADD a b = 0)" "sfl s1 = bit (alu X_ADD a b) 31"
      "cfl s1 = alu_carry X_ADD a b" "ofl s1 = alu_overflow X_ADD a b"
    obtain s' where "after_flags h (\<lambda>e f. nzcv_word f e False (ofl s1)) (emit_flags_nzcv False) s1 s'"
      using flags_add_run [of s1 h] s1(1) assms by auto
    then show "\<exists>f s'. after_flags h f (emit_flags_nzcv False) s1 s' \<and> (\<forall>e k. bit e 7 = sfl s1 \<longrightarrow> bit e 6 = zfl s1 \<longrightarrow>
        bit e 0 = cfl s1 \<longrightarrow> apsr_update (\<lambda>_. f e (apsr k)) k = cpu_set_flags_nzcv_add k a b (a + b) False)"
      using add_word s1 by (intro exI [of _ "\<lambda>e f. nzcv_word f e False (ofl s1)"] exI [of _ s']) simp
  qed
  then show "does h (c @ emit_flags_nzcv False) s (nzcv_add (mem s) a b (a + b) False) (a + b)" by simp
next
  assume c: "computes h c s X_SUB a b"
  have "does h (c @ emit_flags_nzcv True) s (nzcv_sub (mem s) a b (a - b)) (alu X_SUB a b)"
  proof (rule with_flags [OF c])
    fix s1 :: xstate assume s1: "gp s1 15 = gp s 15" "zfl s1 = (alu X_SUB a b = 0)" "sfl s1 = bit (alu X_SUB a b) 31"
      "cfl s1 = alu_carry X_SUB a b" "ofl s1 = alu_overflow X_SUB a b"
    obtain s' where "after_flags h (\<lambda>e f. nzcv_word f e True (ofl s1)) (emit_flags_nzcv True) s1 s'"
      using flags_sub_run [of s1 h] s1(1) assms by auto
    then show "\<exists>f s'. after_flags h f (emit_flags_nzcv True) s1 s' \<and> (\<forall>e k. bit e 7 = sfl s1 \<longrightarrow> bit e 6 = zfl s1 \<longrightarrow>
        bit e 0 = cfl s1 \<longrightarrow> apsr_update (\<lambda>_. f e (apsr k)) k = cpu_set_flags_nzcv_sub k a b (a - b))"
      using sub_word s1 by (intro exI [of _ "\<lambda>e f. nzcv_word f e True (ofl s1)"] exI [of _ s']) (simp add: alu_carry_def)
  qed
  then show "does h (c @ emit_flags_nzcv True) s (nzcv_sub (mem s) a b (a - b)) (a - b)" by simp
qed

lemma with_nz:
  assumes "gp s 15 = at_cpu h" "computes h c s op a b"
  shows "does h (c @ emit_flags_nz) s (nz (mem s) (alu op a b)) (alu op a b)"
proof (rule with_flags [OF assms(2)])
  fix s1 :: xstate assume s1: "gp s1 15 = gp s 15" "zfl s1 = (alu op a b = 0)" "sfl s1 = bit (alu op a b) 31"
  obtain s' where "after_flags h (\<lambda>e f. nz_word f e) emit_flags_nz s1 s'"
    using flags_nz_run [of s1 h] s1(1) assms by auto
  then show "\<exists>f s'. after_flags h f emit_flags_nz s1 s' \<and> (\<forall>e k. bit e 7 = sfl s1 \<longrightarrow> bit e 6 = zfl s1 \<longrightarrow>
      bit e 0 = cfl s1 \<longrightarrow> apsr_update (\<lambda>_. f e (apsr k)) k = cpu_set_flags_nz k (alu op a b))"
    using nz_word s1 by (intro exI [of _ "\<lambda>e f. nz_word f e"] exI [of _ s']) simp
qed

lemma with_store:
  assumes "gp s 15 = at_cpu h" "does h c s m v" "r < 16"
  shows "does h (c @ st_eax r) s (set_reg m r v) v"
proof -
  obtain s1 where s1: "runs h c s s1" "mem s1 = m" "gp s1 0 = to64 v" "kept s s1"
    using assms(2) by (auto simp: does_def)
  then have "gp s1 15 = at_cpu h" using assms(1) by (simp add: kept_15)
  then have "runs h (st_eax r) s1 (s1\<lparr>mem := set_reg (mem s1) r (to32 (gp s1 0))\<rparr>)"
    using assms(3) by (simp add: runs_def x86_steps)
  then show ?thesis
    using s1 unfolding does_def
    by (intro exI [of _ "s1\<lparr>mem := set_reg (mem s1) r (to32 (gp s1 0))\<rparr>"])
      (auto intro: runs_append simp: kept_def)
qed

section \<open>Data processing instructions\<close>

definition leaves_m :: "x86_host \<Rightarrow> u8 list \<Rightarrow> xstate \<Rightarrow> machine \<Rightarrow> bool" where
  "leaves_m h code s m \<longleftrightarrow> (\<exists>s'. runs h code s s' \<and> mem s' = m \<and> kept s s')"

lemma does_leaves: "does h c s m v \<Longrightarrow> leaves_m h c s m"
  by (auto simp: does_def leaves_m_def)

lemma leaves_nop: "leaves_m h [] s (mem s)"
  by (auto simp: leaves_m_def runs_def kept_def)

lemmas with_all = with_nzcv with_nz with_store

text \<open>The shapes of the code of a data processing instruction.\<close>

lemma alu_shapes:
  fixes d n k :: u8
  assumes g: "gp s 15 = at_cpu h" and r: "d < 15" "n < 15" "k < 15"
  shows mov_shapes:
    "leaves_m h (mov_eax_imm v @ 0x85 # 0xC0 # emit_flags_nz @ st_eax d) s (set_reg (nz (mem s) v) d v)"
    "leaves_m h (mov_eax_imm v @ st_eax d) s (set_reg (mem s) d v)"
    "leaves_m h (ld_eax k @ st_eax d) s (set_reg (mem s) d (reg (mem s) k))"
  and reg_shapes:
    "leaves_m h (ld_eax n @ ld_ecx k @ op_add_ec @ emit_flags_nzcv False @ st_eax d) s
      (let a = reg (mem s) n; b = reg (mem s) k in set_reg (nzcv_add (mem s) a b (a + b) False) d (a + b))"
    "leaves_m h (ld_eax n @ ld_ecx k @ op_sub_ec @ emit_flags_nzcv True @ st_eax d) s
      (let a = reg (mem s) n; b = reg (mem s) k in set_reg (nzcv_sub (mem s) a b (a - b)) d (a - b))"
    "leaves_m h (ld_eax n @ ld_ecx k @ op_and_ec @ emit_flags_nz @ st_eax d) s
      (let v = reg (mem s) n AND reg (mem s) k in set_reg (nz (mem s) v) d v)"
    "leaves_m h (ld_eax n @ ld_ecx k @ op_or_ec @ emit_flags_nz @ st_eax d) s
      (let v = reg (mem s) n OR reg (mem s) k in set_reg (nz (mem s) v) d v)"
    "leaves_m h (ld_eax n @ ld_ecx k @ op_xor_ec @ emit_flags_nz @ st_eax d) s
      (let v = reg (mem s) n XOR reg (mem s) k in set_reg (nz (mem s) v) d v)"
    "leaves_m h (ld_eax n @ ld_ecx k @ op_sub_ec @ emit_flags_nzcv True) s
      (let a = reg (mem s) n; b = reg (mem s) k in nzcv_sub (mem s) a b (a - b))"
    "leaves_m h (ld_eax n @ ld_ecx k @ op_add_ec @ emit_flags_nzcv False) s
      (let a = reg (mem s) n; b = reg (mem s) k in nzcv_add (mem s) a b (a + b) False)"
    "leaves_m h (ld_eax n @ ld_ecx k @ op_and_ec @ emit_flags_nz) s (nz (mem s) (reg (mem s) n AND reg (mem s) k))"
  and imm_shapes:
    "leaves_m h (ld_eax n @ add_imm v @ emit_flags_nzcv False @ st_eax d) s
      (let a = reg (mem s) n in set_reg (nzcv_add (mem s) a v (a + v) False) d (a + v))"
    "leaves_m h (ld_eax n @ sub_imm v @ emit_flags_nzcv True @ st_eax d) s
      (let a = reg (mem s) n in set_reg (nzcv_sub (mem s) a v (a - v)) d (a - v))"
    "leaves_m h (ld_eax n @ add_imm v @ st_eax d) s (set_reg (mem s) d (reg (mem s) n + v))"
    "leaves_m h (ld_eax n @ sub_imm v @ st_eax d) s (set_reg (mem s) d (reg (mem s) n - v))"
    "leaves_m h (ld_eax n @ add_imm v @ emit_flags_nzcv False) s
      (let a = reg (mem s) n in nzcv_add (mem s) a v (a + v) False)"
    "leaves_m h (ld_eax n @ sub_imm v @ emit_flags_nzcv True) s
      (let a = reg (mem s) n in nzcv_sub (mem s) a v (a - v))"
  and logic_shapes:
    "leaves_m h (ld_eax n @ 0x25 # emit_w32 v @ emit_flags_nz @ st_eax d) s
      (let x = reg (mem s) n AND v in set_reg (nz (mem s) x) d x)"
    "leaves_m h (ld_eax n @ 0x0D # emit_w32 v @ emit_flags_nz @ st_eax d) s
      (let x = reg (mem s) n OR v in set_reg (nz (mem s) x) d x)"
    "leaves_m h (ld_eax n @ 0x35 # emit_w32 v @ emit_flags_nz @ st_eax d) s
      (let x = reg (mem s) n XOR v in set_reg (nz (mem s) x) d x)"
    "leaves_m h (ld_eax n @ 0x25 # emit_w32 v @ st_eax d) s (set_reg (mem s) d (reg (mem s) n AND v))"
    "leaves_m h (ld_eax n @ 0x0D # emit_w32 v @ st_eax d) s (set_reg (mem s) d (reg (mem s) n OR v))"
    "leaves_m h (ld_eax n @ 0x35 # emit_w32 v @ st_eax d) s (set_reg (mem s) d (reg (mem s) n XOR v))"
proof -
  have lt: "d < 16" "n < 16" "k < 16" using r by (simp_all add: word_less_nat_alt)
  note st = with_store [OF g _ lt(1), THEN does_leaves]
    and rg = computes_reg [OF g lt(2,3)] and im = computes_imm [OF g lt(2)]
    and nzcv = with_nzcv [OF g] and nzf = with_nz [OF g]
  show "leaves_m h (mov_eax_imm v @ 0x85 # 0xC0 # emit_flags_nz @ st_eax d) s (set_reg (nz (mem s) v) d v)"
    using st [OF nzf [OF computes_mov(1)]] by simp
  show "leaves_m h (mov_eax_imm v @ st_eax d) s (set_reg (mem s) d v)"
    "leaves_m h (ld_eax k @ st_eax d) s (set_reg (mem s) d (reg (mem s) k))"
    using st [OF does_mov(1)] st [OF does_mov(2) [OF g lt(3)]] by simp_all
  show "leaves_m h (ld_eax n @ ld_ecx k @ op_add_ec @ emit_flags_nzcv False @ st_eax d) s
      (let a = reg (mem s) n; b = reg (mem s) k in set_reg (nzcv_add (mem s) a b (a + b) False) d (a + b))"
    "leaves_m h (ld_eax n @ ld_ecx k @ op_sub_ec @ emit_flags_nzcv True @ st_eax d) s
      (let a = reg (mem s) n; b = reg (mem s) k in set_reg (nzcv_sub (mem s) a b (a - b)) d (a - b))"
    using st [OF nzcv(1) [OF rg(1)]] st [OF nzcv(2) [OF rg(2)]] by (simp_all add: Let_def)
  show
    "leaves_m h (ld_eax n @ ld_ecx k @ op_and_ec @ emit_flags_nz @ st_eax d) s
      (let v = reg (mem s) n AND reg (mem s) k in set_reg (nz (mem s) v) d v)"
    "leaves_m h (ld_eax n @ ld_ecx k @ op_or_ec @ emit_flags_nz @ st_eax d) s
      (let v = reg (mem s) n OR reg (mem s) k in set_reg (nz (mem s) v) d v)"
    "leaves_m h (ld_eax n @ ld_ecx k @ op_xor_ec @ emit_flags_nz @ st_eax d) s
      (let v = reg (mem s) n XOR reg (mem s) k in set_reg (nz (mem s) v) d v)"
    using st [OF nzf [OF rg(3)]] st [OF nzf [OF rg(4)]] st [OF nzf [OF rg(5)]] by (simp_all add: Let_def)
  show
    "leaves_m h (ld_eax n @ ld_ecx k @ op_sub_ec @ emit_flags_nzcv True) s
      (let a = reg (mem s) n; b = reg (mem s) k in nzcv_sub (mem s) a b (a - b))"
    "leaves_m h (ld_eax n @ ld_ecx k @ op_add_ec @ emit_flags_nzcv False) s
      (let a = reg (mem s) n; b = reg (mem s) k in nzcv_add (mem s) a b (a + b) False)"
    "leaves_m h (ld_eax n @ ld_ecx k @ op_and_ec @ emit_flags_nz) s (nz (mem s) (reg (mem s) n AND reg (mem s) k))"
    using nzcv(2) [OF rg(2)] nzcv(1) [OF rg(1)] nzf [OF rg(3)] by (auto simp: Let_def dest: does_leaves)
  show
    "leaves_m h (ld_eax n @ add_imm v @ emit_flags_nzcv False @ st_eax d) s
      (let a = reg (mem s) n in set_reg (nzcv_add (mem s) a v (a + v) False) d (a + v))"
    "leaves_m h (ld_eax n @ sub_imm v @ emit_flags_nzcv True @ st_eax d) s
      (let a = reg (mem s) n in set_reg (nzcv_sub (mem s) a v (a - v)) d (a - v))"
    "leaves_m h (ld_eax n @ add_imm v @ st_eax d) s (set_reg (mem s) d (reg (mem s) n + v))"
    "leaves_m h (ld_eax n @ sub_imm v @ st_eax d) s (set_reg (mem s) d (reg (mem s) n - v))"
    using st [OF nzcv(1) [OF im(1)]] st [OF nzcv(2) [OF im(2)]] st [OF computes_does [OF im(1)]]
      st [OF computes_does [OF im(2)]] by (simp_all add: Let_def)
  show
    "leaves_m h (ld_eax n @ add_imm v @ emit_flags_nzcv False) s
      (let a = reg (mem s) n in nzcv_add (mem s) a v (a + v) False)"
    "leaves_m h (ld_eax n @ sub_imm v @ emit_flags_nzcv True) s
      (let a = reg (mem s) n in nzcv_sub (mem s) a v (a - v))"
    using nzcv(1) [OF im(1)] nzcv(2) [OF im(2)] by (auto simp: Let_def dest: does_leaves)
  show
    "leaves_m h (ld_eax n @ 0x25 # emit_w32 v @ emit_flags_nz @ st_eax d) s
      (let x = reg (mem s) n AND v in set_reg (nz (mem s) x) d x)"
    "leaves_m h (ld_eax n @ 0x0D # emit_w32 v @ emit_flags_nz @ st_eax d) s
      (let x = reg (mem s) n OR v in set_reg (nz (mem s) x) d x)"
    "leaves_m h (ld_eax n @ 0x35 # emit_w32 v @ emit_flags_nz @ st_eax d) s
      (let x = reg (mem s) n XOR v in set_reg (nz (mem s) x) d x)"
    using st [OF nzf [OF im(3)]] st [OF nzf [OF im(4)]] st [OF nzf [OF im(5)]] by (simp_all add: Let_def)
  show
    "leaves_m h (ld_eax n @ 0x25 # emit_w32 v @ st_eax d) s (set_reg (mem s) d (reg (mem s) n AND v))"
    "leaves_m h (ld_eax n @ 0x0D # emit_w32 v @ st_eax d) s (set_reg (mem s) d (reg (mem s) n OR v))"
    "leaves_m h (ld_eax n @ 0x35 # emit_w32 v @ st_eax d) s (set_reg (mem s) d (reg (mem s) n XOR v))"
    using st [OF computes_does [OF im(3)]] st [OF computes_does [OF im(4)]] st [OF computes_does [OF im(5)]] by simp_all
qed

text \<open>The parts of the processor that no emitted instruction touches.\<close>

definition same_it :: "machine \<Rightarrow> machine \<Rightarrow> bool" where
  "same_it m m' \<longleftrightarrow> itstate (cpu m') = itstate (cpu m) \<and> cycles (cpu m') = cycles (cpu m)"

definition alu_plain :: "insn_t \<Rightarrow> bool" where
  "alu_plain i \<longleftrightarrow> ird i < 15 \<and> irn i < 15 \<and> irm i < 15 \<and> (iop i = OP_MOV_REG \<longrightarrow> \<not> iset_flags i) \<and>
     (iop i \<in> {OP_T32_CMP_REG, OP_T32_CMN_REG} \<longrightarrow> ishift_n i = 0)"

lemmas alu_exec = exec_switch_def exec_dp1_def exec_dp2_def exec_branch_def exec_ldst1_def exec_ldst2_def exec_ext_def
  exec_stack_def exec_misc_def exec_t32_imm_def exec_t32_plain_def exec_t32_reg_def exec_t32_ldst_def exec_t32_ldst2_def
  reg_pc4_def f_if_def t32_shift_def

lemma cpu_upd_eq: "f (cpu m) = g (cpu m) \<Longrightarrow> cpu_update f m = cpu_update g m"
  by (cases m) simp

lemmas flag_setters = cpu_set_flags_nz_def cpu_set_flags_nzcv_add_def cpu_set_flags_nzcv_sub_def

lemma emit_alu_exec:
  assumes g: "gp s 15 = at_cpu h" and e: "emit_alu i = Some code" and p: "alu_plain i"
  shows "\<exists>m. leaves_m h code s m \<and> exec_switch (warp p n (mem s)) i np = Break np (warp p n m) \<and>
    same_it (mem s) m"
proof -
  have r: "ird i < 15" "irn i < 15" "irm i < 15" using p by (simp_all add: alu_plain_def)
  then have ne: "ird i \<noteq> 15" "irn i \<noteq> 15" "irm i \<noteq> 15" by auto
  note shapes = alu_shapes [OF g r] leaves_nop and plain = p [unfolded alu_plain_def]
  show ?thesis
    using e p
    apply (simp only: emit_alu_def Let_def split: if_split_asm)
    apply (simp_all only: option.inject option.distinct append_assoc append_Cons append_Nil)
    apply (((elim disjE)?, hypsubst, rule exI, rule conjI, rule shapes, rule conjI,
        ((simp add: alu_exec Let_def ne plain warp_cpu_def cong: if_weak_cong, rule cpu_upd_eq, simp add: warp_cpu_def flag_setters Let_def fun_upd_twist [OF ne(1)]; fail) |
         (simp add: alu_exec Let_def ne plain warp_cpu_def cong: if_weak_cong; fail)), simp add: same_it_def flag_setters Let_def) |
       (simp add: alu_plain_def; fail))+
    done
qed
end
