(* ===== verification/Codegen_Branch.thy ===== *)
theory Codegen_Branch
  imports Codegen_Laws
begin

text \<open>
  The emitted branches: the test of the APSR byte decides as \<open>cond_pass\<close> does, and the two
  stores of the program counter lie on the two sides of the jump.
\<close>

section \<open>Conditions\<close>

lemma run_ld_al_apsr_byte3 [x86_steps]: "gp s 15 = at_cpu h \<Longrightarrow> x86_run h (ld_al_apsr_byte3 @ bs) s =
    x86_run h bs (set_gp 0 (put_lo (gp s 0) (to8 (drop_bit 24 (apsr (cpu (mem s)))))) s)"
  by (rule x86_run_step [where i = "Mov W8 (Rg 0) (Mem 15 75)"])
    (simp_all add: ld_al_apsr_byte3_def decode_simps load8_def ea_def)

lemma run_shr_al [x86_steps]: "x86_run h (shr_al 4 @ bs) s =
    x86_run h bs (set_gp 0 (put_lo (gp s 0) (drop_bit 4 (to8 (gp s 0)))) (shift_flags h (drop_bit 4 (to8 (gp s 0))) (bit (to8 (gp s 0)) 3) s))"
  by (rule x86_run_step [where i = "ShrI W8 (Rg 0) 4"]) (simp_all add: shr_al_def decode_simps Let_def)

lemma run_test_al_imm8 [x86_steps]: "x86_run h (test_al_imm8 m @ bs) s = x86_run h bs (alu_flags X_TEST (to8 (gp s 0)) m s)"
  by (rule x86_run_step [where i = "AluI W8 X_TEST (Rg 0) (to32 m)"]) (simp_all add: test_al_imm8_def decode_simps alu_step_def Let_def discards_def)

lemma run_cmp_al_imm8 [x86_steps]: "x86_run h (cmp_al_imm8 m @ bs) s = x86_run h bs (alu_flags X_CMP (to8 (gp s 0)) m s)"
  by (rule x86_run_step [where i = "AluI W8 X_CMP (Rg 0) (to32 m)"]) (simp_all add: cmp_al_imm8_def decode_simps alu_step_def Let_def discards_def)

lemma run_and_al_imm8 [x86_steps]: "x86_run h (and_al_imm8 m @ bs) s = x86_run h bs (set_gp 0 (put_lo (gp s 0) (alu X_AND (to8 (gp s 0)) m)) (alu_flags X_AND (to8 (gp s 0)) m s))"
  by (rule x86_run_step [where i = "AluI W8 X_AND (Rg 0) (to32 m)"]) (simp_all add: and_al_imm8_def decode_simps alu_step_def Let_def discards_def)

lemma run_mov_ah_al [x86_steps]: "x86_run h (mov_ah_al @ bs) s = x86_run h bs (set_gp 0 (put_hi (gp s 0) (to8 (gp s 0))) s)"
  by (rule x86_run_step [where i = "Mov W8 (RgH 0) (Rg 0)"]) (simp_all add: mov_ah_al_def decode_simps)

lemma run_shr_ah [x86_steps]: "x86_run h (shr_ah 3 @ bs) s = x86_run h bs (set_gp 0 (put_hi (gp s 0) (drop_bit 3 (to8 (drop_bit 8 (gp s 0))))) (shift_flags h (drop_bit 3 (to8 (drop_bit 8 (gp s 0)))) (bit (to8 (drop_bit 8 (gp s 0))) 2) s))"
  by (rule x86_run_step [where i = "ShrI W8 (RgH 0) 3"]) (simp_all add: shr_ah_def decode_simps Let_def)

lemma run_xor_al_ah [x86_steps]: "x86_run h (xor_al_ah @ bs) s = x86_run h bs (set_gp 0 (put_lo (gp s 0) (to8 (gp s 0) XOR to8 (drop_bit 8 (gp s 0)))) (alu_flags X_XOR (to8 (gp s 0)) (to8 (drop_bit 8 (gp s 0))) s))"
  by (rule x86_run_step [where i = "Alu W8 X_XOR (Rg 0) (RgH 0)"]) (simp_all add: xor_al_ah_def decode_simps alu_step_def Let_def discards_def)

lemma put_hi_lo [simp]: "to8 (put_hi x v) = to8 x"
  unfolding put_hi_def
proof (rule bit_word_eqI)
  fix n assume "n < LENGTH(8)"
  then have "n \<in> {0, 1, 2, 3, 4, 5, 6, 7}" by auto
  then show "bit (to8 ((x AND NOT 0xFF00) OR push_bit 8 (to64 v))) n = bit (to8 x) n" by (auto simp: bit_simps)
qed

text \<open>The byte that the test looks at, and the sixteen conditions on it.\<close>

lemma byte3: "bit (to8 (drop_bit 24 (f :: u32))) k \<longleftrightarrow> k < 8 \<and> bit f (24 + k)"
  by (auto simp: bit_simps dest: bit_imp_le_length)

lemma u8_lt14: "(c :: u8) < 14 \<Longrightarrow> c \<in> {0, 1, 2, 3, 4, 5, 6, 7, 8, 9, 10, 11, 12, 13}"
proof -
  assume c: "c < 14"
  then have "c < 16" by (simp add: word_less_nat_alt)
  from u8_lt16 [OF this] c show ?thesis by auto
qed

lemma test_decides:
  assumes "gp s 15 = at_cpu h" "c < 14" "cond_test c = Some (t, j)"
  shows "\<exists>s1. runs h (ld_al_apsr_byte3 @ (if c \<ge> 8 then shr_al 4 else []) @ t) s s1 \<and> mem s1 = mem s \<and> kept s s1 \<and>
    j \<in> {0x84, 0x85} \<and> (if j = 0x84 then zfl s1 else \<not> zfl s1) = cond_pass (apsr (cpu (mem s))) c"
proof -
  note c = u8_lt14 [OF assms(2)]
  show ?thesis
    using c assms(3) unfolding runs_def
    apply (elim insertE emptyE)
    apply (hypsubst, simp add: cond_test_def word_le_nat_alt, elim conjE, hypsubst,
      rule exI, rule conjI, rule allI, simp add: x86_steps assms(1), simp add: kept_def,
      auto simp add: cond_pass_def Let_def u8_eq_iff bit_simps byte3 flag_Z flag_N flag_C flag_V; fail)+
    done
qed

section \<open>Branches\<close>

lemma drop_st_pc [simp]: "drop 13 (st_pc v @ jmp_short n @ bs) = bs" "drop 11 (st_pc v @ bs) = bs"
  by (simp_all add: st_pc_def jmp_short_def emit_w32_def)

lemma branch_tail:
  assumes "gp s 15 = at_cpu h" "j \<in> {0x84, 0x85}"
  shows "runs h (emit_jcc_rel32 j 13 @ st_pc fal @ jmp_short 11 @ st_pc tgt) s
    (s\<lparr>mem := set_reg (mem s) 15 (if (if j = 0x84 then zfl s else \<not> zfl s) then tgt else fal)\<rparr>)"
  unfolding runs_def using assms by (auto simp: x86_steps)

lemma b_cond_ok:
  assumes "framed h s" "icond i < 14"
  shows "leaves_m h (emit_b_cond_fast i) s
    (set_reg (mem s) 15 (if cond_pass (apsr (cpu (mem s))) (icond i) then ipc i + 4 + iimm i else ipc i + to32 (isize i)))"
proof -
  have g: "gp s 15 = at_cpu h" using assms(1) by (simp add: framed_def)
  have ne: "icond i \<noteq> 0xE" "icond i \<noteq> 0xF" using assms(2) by auto
  have "cond_test (icond i) \<noteq> None" using u8_lt14 [OF assms(2)] by (auto simp: cond_test_def Let_def)
  then obtain t j where t: "cond_test (icond i) = Some (t, j)" by auto
  from test_decides [OF g assms(2) this] obtain s1 where s1:
    "runs h (ld_al_apsr_byte3 @ (if icond i \<ge> 8 then shr_al 4 else []) @ t) s s1" "mem s1 = mem s" "kept s s1" "j \<in> {0x84, 0x85}"
    "(if j = 0x84 then zfl s1 else \<not> zfl s1) = cond_pass (apsr (cpu (mem s))) (icond i)" by blast
  have "gp s1 15 = at_cpu h" using g s1(3) by (simp add: kept_15)
  note tail = branch_tail [OF this s1(4), of "ipc i + to32 (isize i)" "ipc i + 4 + iimm i"]
  from runs_append [OF s1(1) tail] s1 show ?thesis
    unfolding leaves_m_def
    by (intro exI [of _ "s1\<lparr>mem := set_reg (mem s1) 15 (if (if j = 0x84 then zfl s1 else \<not> zfl s1) then ipc i + 4 + iimm i else ipc i + to32 (isize i))\<rparr>"])
      (simp add: emit_b_cond_fast_def Let_def ne t kept_def)
qed

text \<open>A branch whose code and interpretation agree: the condition is one of the fourteen, BL is 4 bytes long.\<close>

definition branch_plain :: "insn_t \<Rightarrow> bool" where
  "branch_plain i \<longleftrightarrow> (iop i \<in> {OP_B_COND, OP_T32_B_COND} \<and> icond i < 14) \<or> iop i = OP_B_UNCOND \<or>
     (iop i = OP_T32_BL \<and> isize i = 4)"

lemma t32_cond_pass: "c < 14 \<Longrightarrow> t32_cond f c = cond_pass f c"
  by (drule u8_lt14) (elim insertE emptyE; simp add: t32_cond_def cond_pass_def)

lemma emit_branch_exec:
  assumes "framed h s" "branch_plain i"
  shows "\<exists>np m. leaves_m h (emit_op h sram i) s (set_reg m 15 np) \<and>
    exec_switch (warp (ipc i) n (mem s)) i (ipc i + to32 (isize i)) = Break np (warp (ipc i) n m) \<and> same_it (mem s) m"
proof -
  have g: "gp s 15 = at_cpu h" using assms(1) by (simp add: framed_def)
  consider (cond) "iop i = OP_B_COND \<or> iop i = OP_T32_B_COND" "icond i < 14" | (b) "iop i = OP_B_UNCOND" | (bl) "iop i = OP_T32_BL" "isize i = 4"
    using assms(2) by (auto simp: branch_plain_def)
  then show ?thesis
  proof cases
    case cond
    let ?np = "if cond_pass (apsr (cpu (mem s))) (icond i) then ipc i + 4 + iimm i else ipc i + to32 (isize i)"
    have "emit_op h sram i = emit_b_cond_fast i" using cond(1) by (auto simp: emit_op_def emit_alu_def emit_mem_def Let_def)
    then have "leaves_m h (emit_op h sram i) s (set_reg (mem s) 15 ?np)" using b_cond_ok [OF assms(1) cond(2)] by simp
    moreover have "exec_switch (warp (ipc i) n (mem s)) i (ipc i + to32 (isize i)) = Break ?np (warp (ipc i) n (mem s))"
      using cond(1) by (elim disjE; simp add: alu_exec Let_def warp_cpu_def t32_cond_pass [OF cond(2)] cong: if_weak_cong)
    ultimately show ?thesis by (auto simp: same_it_def)
  next
    case b
    have "emit_op h sram i = st_pc (ipc i + 4 + iimm i)" using b by (simp add: emit_op_def emit_alu_def emit_mem_def Let_def emit_b_uncond_def)
    moreover have "leaves_m h (st_pc v) s (set_reg (mem s) 15 v)" for v
      unfolding leaves_m_def runs_def by (rule exI, rule conjI, rule allI, simp add: x86_steps g, simp add: kept_def)
    moreover have "exec_switch (warp (ipc i) n (mem s)) i (ipc i + to32 (isize i)) = Break (ipc i + 4 + iimm i) (warp (ipc i) n (mem s))"
      using b by (simp add: alu_exec Let_def warp_cpu_def)
    ultimately show ?thesis by (auto simp: same_it_def)
  next
    case bl
    let ?lr = "(ipc i + 4) OR 1" and ?np = "(ipc i + 4 + iimm i) AND NOT 1"
    have "emit_op h sram i = mov_eax_imm ?lr @ st_eax 14 @ st_pc ?np"
      using bl by (simp add: emit_op_def emit_alu_def emit_mem_def Let_def emit_t32_bl_def)
    moreover have "leaves_m h (mov_eax_imm a @ st_eax 14 @ st_pc v) s (set_reg (set_reg (mem s) 14 a) 15 v)" for a v
      unfolding leaves_m_def runs_def by (rule exI, rule conjI, rule allI, simp add: x86_steps g, simp add: kept_def)
    moreover have "exec_switch (warp (ipc i) n (mem s)) i (ipc i + to32 (isize i)) = Break ?np (warp (ipc i) n (set_reg (mem s) 14 ?lr))"
      using bl by (simp add: alu_exec Let_def warp_cpu_def) (rule cpu_upd_eq, simp add: warp_cpu_def fun_upd_twist [of "14 :: u8" 15])
    ultimately show ?thesis by (intro exI [of _ ?np] exI [of _ "set_reg (mem s) 14 ?lr"]) (simp add: same_it_def)
  qed
qed

end
