(* ===== verification/Codegen_Mem.thy ===== *)
theory Codegen_Mem
  imports Codegen_Laws
begin

text \<open>
  The emitted code against the interpreter: loads, stores and branches.  A bus call that
  returns true leaves the frame of the thunk as it was; what it may destroy is not read again.
\<close>

section \<open>Bus calls\<close>

definition mask_size :: "u32 \<Rightarrow> u32 \<Rightarrow> u32" where
  "mask_size sz v = (if sz = 1 then v AND 0xFF else if sz = 2 then v AND 0xFFFF else v)"

lemma returned_simps [simp]:
  "mem (returned h s ok w m) = m" "stk (returned h s ok w m) = w # map (below h s) [1..<4] @ drop 4 (stk s)"
  "to8 (gp (returned h s ok w m) 0) = b2w ok"
  by (simp_all add: returned_def Let_def)

lemma returned_gp [simp]: "r \<in> {3,5,6,7,12,13,14,15} \<Longrightarrow> gp (returned h s ok w m) r = gp s r"
  by (auto simp: returned_def Let_def volatile_def)

lemma rsp_simps [simp]: "rsp h (set_gp r v s) = rsp h s" "rsp h (alu_flags op a b s) = rsp h s"
  by (simp_all add: rsp_def)

lemma low_word [simp]: "to32 ((x AND - 0x100000000) OR to64 (v :: u32) :: u64) = v"
proof (rule bit_word_eqI)
  fix n assume n: "n < LENGTH(32)"
  have m: "(- 0x100000000 :: u64) = NOT (mask 32)" by (simp add: mask_eq_exp_minus_1)
  show "bit (to32 ((x AND - 0x100000000) OR to64 v)) n = bit v n" unfolding m using n by (simp add: bit_simps)
qed

lemma upt14: "[1..<4] = [1, 2, 3 :: nat]"
  by (simp add: upt_rec)

text \<open>
  The bus calls of the emitted code are reached with RSP at 8 mod 16 (\<open>load_misaligned\<close> below),
  so they have a behaviour where the bus functions realign the stack.
\<close>

definition callable :: "x86_host \<Rightarrow> bool" where
  "callable h \<longleftrightarrow> at_bus_write h \<noteq> at_bus_read h \<and> realigns h"

text \<open>The call of \<^verbatim>\<open>bus_read\<close>, whatever set the arguments up.\<close>

lemma read_call:
  assumes "gp s 1 = at_bus h" "gp s 9 = rsp h s" "4 \<le> length (stk s)" "callable h"
    "bus_read (mem s) (to32 (gp s 2)) (to32 (gp s 8)) = (v, m1)"
  shows "\<exists>s1 w ws. runs h (mov_rax_imm64 (at_bus_read h) @ call_rax) s s1 \<and> mem s1 = m1 \<and>
    to8 (gp s1 0) = b2w (v \<noteq> None) \<and> stk s1 = w # ws \<and> (\<forall>x. v = Some x \<longrightarrow> to32 w = x) \<and>
    length (stk s1) = length (stk s) \<and> drop 4 (stk s1) = drop 4 (stk s) \<and> (\<forall>r \<in> {3,5,6,7,12,13,14,15}. gp s1 r = gp s r)"
proof -
  let ?s = "set_gp 0 (at_bus_read h) s" and ?j = "below h (set_gp 0 (at_bus_read h) s) 0"
  let ?w = "case v of None \<Rightarrow> ?j | Some x \<Rightarrow> (?j AND NOT 0xFFFFFFFF) OR to64 x"
  let ?s1 = "returned h ?s (v \<noteq> None) ?w m1"
  have "call_bus h ?s (gp ?s 0) = Some ?s1"
    using assms by (cases v) (simp_all add: call_bus_def callable_def Let_def)
  then have "runs h (mov_rax_imm64 (at_bus_read h) @ call_rax) s ?s1"
    by (simp add: runs_def x86_steps run_call_rax)
  then show ?thesis
    using assms(3)
    by (intro exI [of _ ?s1] exI [of _ ?w] exI [of _ "map (below h ?s) [1..<4] @ drop 4 (stk s)"]) (auto simp: upt14)
qed

text \<open>The end of a load: the result goes into the register when the call returned true.\<close>

lemma run_and_ecx [x86_steps]: "x86_run h (0x81 # 0xE1 # emit_w32 v @ bs) s = x86_run h (and_ecx_imm32 v @ bs) s"
  by (simp add: and_ecx_imm32_def)

lemma drop_fail [simp]: "drop 5 (or_bl_1 @ jmp_short 7 @ bs) = bs" "drop 3 (or_bl_1 @ bs) = bs"
  "drop 7 (st_ecx r @ bs) = bs"
  by (simp_all add: or_bl_1_def jmp_short_def st_ecx_def emit_w32_def)

lemma run_mov_ecx_hd: "stk s \<noteq> [] \<Longrightarrow> x86_run h (mov_ecx_rsp0 @ bs) s = x86_run h bs (set_gp 1 (to64 (to32 (hd (stk s)))) s)"
  using run_mov_ecx_rsp0 [of s "hd (stk s)" "tl (stk s)"] by simp

lemma load_ends:
  assumes "gp s 15 = at_cpu h" "d < 16" "10 \<le> length (stk s)" "to8 (gp s 0) = 1"
  shows "\<exists>s'. runs h (mov_ecx_rsp0 @ add_rsp_16 @
      (if sz = 1 then [0x81, 0xE1] @ emit_w32 0xFF else if sz = 2 then [0x81, 0xE1] @ emit_w32 0xFFFF else []) @
      test_al_jnz 5 @ or_bl_1 @ jmp_short 7 @ st_ecx d) s s' \<and>
    mem s' = set_reg (mem s) d (mask_size sz (to32 (hd (stk s)))) \<and> stk s' = drop 2 (stk s) \<and> (\<forall>r \<in> {3,5,6,7,12,13,14,15}. gp s' r = gp s r)"
proof -
  have len: "2 \<le> length (stk s)" "stk s \<noteq> []" using assms(3) by auto
  note step = x86_steps run_mov_ecx_hd assms(1,2,4) len
  show ?thesis
    unfolding runs_def mask_size_def
    by (cases "sz = 1"; cases "sz = 2"; simp only: if_True if_False;
      (rule exI, rule conjI, rule allI, simp add: step, simp))
qed

text \<open>The call of \<^verbatim>\<open>bus_write\<close>, and the end of a store.\<close>

lemma write_call:
  assumes "gp s 1 = at_bus h" "4 \<le> length (stk s)" "callable h"
    "bus_write (mem s) (to32 (gp s 2)) (to32 (gp s 8)) (to32 (gp s 9)) = Some (ok, m1)"
  shows "\<exists>s1. runs h (mov_rax_imm64 (at_bus_write h) @ call_rax) s s1 \<and> mem s1 = m1 \<and>
    to8 (gp s1 0) = b2w ok \<and> length (stk s1) = length (stk s) \<and> drop 4 (stk s1) = drop 4 (stk s) \<and>
    (\<forall>r \<in> {3,5,6,7,12,13,14,15}. gp s1 r = gp s r)"
proof -
  let ?s = "set_gp 0 (at_bus_write h) s"
  let ?s1 = "returned h ?s ok (below h ?s 0) m1"
  have "call_bus h ?s (gp ?s 0) = Some ?s1"
    using assms by (simp add: call_bus_def callable_def Let_def)
  then have "runs h (mov_rax_imm64 (at_bus_write h) @ call_rax) s ?s1"
    by (simp add: runs_def x86_steps run_call_rax)
  then show ?thesis
    using assms(2) by (intro exI [of _ ?s1]) (auto simp: upt14)
qed

lemma store_ends:
  assumes "10 \<le> length (stk s)" "to8 (gp s 0) = 1"
  shows "\<exists>s'. runs h (add_rsp_16 @ test_al_jnz 3 @ or_bl_1) s s' \<and>
    mem s' = mem s \<and> stk s' = drop 2 (stk s) \<and> (\<forall>r \<in> {3,5,6,7,12,13,14,15}. gp s' r = gp s r)"
proof -
  have len: "2 \<le> length (stk s)" using assms(1) by auto
  show ?thesis
    unfolding runs_def
    by (rule exI, rule conjI, rule allI, simp add: x86_steps assms(2) len, simp)
qed

text \<open>Loads and stores of an address in EAX.\<close>

lemma load_called:
  assumes "framed h s" "callable h" "bus_read (mem s) (to32 (gp s 0)) sz = (v, m1)"
  shows "\<exists>s2. runs h (sub_rsp_16 @ mov_rcx_r14 @ mov_edx_eax @ mov_r8d_imm sz @ lea_r9_rsp0 @ mov_rax_imm64 (at_bus_read h) @ call_rax) s s2 \<and>
    mem s2 = m1 \<and> to8 (gp s2 0) = b2w (v \<noteq> None) \<and> (\<forall>x. v = Some x \<longrightarrow> to32 (hd (stk s2)) = x) \<and> length (stk s2) = 10 \<and>
    drop 4 (drop 2 (stk s2)) = drop 4 (stk s) \<and> (\<forall>r \<in> {3,5,6,7,12,13,14,15}. gp s2 r = gp s r)"
proof -
  have g: "gp s 15 = at_cpu h" "gp s 14 = at_bus h" "length (stk s) = 8" using assms(1) by (simp_all add: framed_def)
  let ?args = "sub_rsp_16 @ mov_rcx_r14 @ mov_edx_eax @ mov_r8d_imm sz @ lea_r9_rsp0"
  have "\<exists>s1. runs h ?args s s1 \<and> gp s1 1 = at_bus h \<and> gp s1 9 = rsp h s1 \<and> to32 (gp s1 2) = to32 (gp s 0) \<and>
      to32 (gp s1 8) = sz \<and> mem s1 = mem s \<and> length (stk s1) = 10 \<and> drop 2 (stk s1) = stk s \<and> (\<forall>r \<in> {3,5,6,7,12,13,14,15}. gp s1 r = gp s r)"
    unfolding runs_def by (rule exI, rule conjI, rule allI, simp add: x86_steps, simp add: g)
  then obtain s1 where s1: "runs h ?args s s1" "gp s1 1 = at_bus h" "gp s1 9 = rsp h s1" "to32 (gp s1 2) = to32 (gp s 0)"
      "to32 (gp s1 8) = sz" "mem s1 = mem s" "length (stk s1) = 10" "drop 2 (stk s1) = stk s" "\<forall>r \<in> {3,5,6,7,12,13,14,15}. gp s1 r = gp s r"
    by blast
  have "bus_read (mem s1) (to32 (gp s1 2)) (to32 (gp s1 8)) = (v, m1)" using s1 assms(3) by simp
  from read_call [OF s1(2,3) _ assms(2) this] obtain s2 w ws where s2: "runs h (mov_rax_imm64 (at_bus_read h) @ call_rax) s1 s2" "mem s2 = m1"
      "to8 (gp s2 0) = b2w (v \<noteq> None)" "stk s2 = w # ws" "\<forall>x. v = Some x \<longrightarrow> to32 w = x" "length (stk s2) = 10"
      "drop 4 (stk s2) = drop 4 (stk s1)" "\<forall>r \<in> {3,5,6,7,12,13,14,15}. gp s2 r = gp s1 r"
    using s1(7) by auto
  have "drop 4 (drop 2 (stk s2)) = drop 2 (drop 4 (stk s2))" by simp
  also have "\<dots> = drop 4 (drop 2 (stk s1))" unfolding s2(7) by simp
  finally have "drop 4 (drop 2 (stk s2)) = drop 4 (stk s)" unfolding s1(8) .
  then show ?thesis
    using runs_append [OF s1(1) s2(1)] s2 s1(9) by (intro exI [of _ s2]) simp
qed

lemma load_from_eax:
  assumes "framed h s" "callable h" "d < 16" "bus_read (mem s) (to32 (gp s 0)) sz = (Some v, m1)"
  shows "leaves_m h (emit_load_from_eax h d sz) s (set_reg m1 d (mask_size sz v))"
proof -
  from load_called [OF assms(1,2,4)] obtain s2 where s2: "runs h (sub_rsp_16 @ mov_rcx_r14 @ mov_edx_eax @ mov_r8d_imm sz @ lea_r9_rsp0 @
      mov_rax_imm64 (at_bus_read h) @ call_rax) s s2" "mem s2 = m1" "to8 (gp s2 0) = 1" "to32 (hd (stk s2)) = v" "length (stk s2) = 10"
    "drop 4 (drop 2 (stk s2)) = drop 4 (stk s)" "\<forall>r \<in> {3,5,6,7,12,13,14,15}. gp s2 r = gp s r" by auto
  have "gp s2 15 = at_cpu h" using assms(1) s2(7) by (simp add: framed_def)
  from load_ends [OF this assms(3) _ s2(3), of sz] s2(5) obtain s3 where s3: "runs h (mov_ecx_rsp0 @ add_rsp_16 @
      (if sz = 1 then [0x81, 0xE1] @ emit_w32 0xFF else if sz = 2 then [0x81, 0xE1] @ emit_w32 0xFFFF else []) @
      test_al_jnz 5 @ or_bl_1 @ jmp_short 7 @ st_ecx d) s2 s3"
    "mem s3 = set_reg m1 d (mask_size sz v)" "stk s3 = drop 2 (stk s2)" "\<forall>r \<in> {3,5,6,7,12,13,14,15}. gp s3 r = gp s2 r"
    using s2(2,4) by auto
  have "length (stk s) = 8" using assms(1) by (simp add: framed_def)
  then have "kept s s3" using s2 s3 by (simp add: kept_def)
  moreover have "runs h (emit_load_from_eax h d sz) s s3"
    using runs_append [OF s2(1) s3(1)] by (simp add: emit_load_from_eax_def)
  ultimately show ?thesis using s3(2) by (auto simp: leaves_m_def)
qed

lemma store_from_eax:
  assumes "framed h s" "callable h" "d < 16"
    "bus_write (mem s) (to32 (gp s 0)) sz (mask_size sz (reg (mem s) d)) = Some (True, m1)"
  shows "leaves_m h (sub_rsp_16 @ mov_rcx_r14 @ mov_edx_eax @ mov_r8d_imm sz @ mov_r9d_reg d @
     (if sz = 1 then and_r9d_imm 0xFF else if sz = 2 then and_r9d_imm 0xFFFF else []) @
     mov_rax_imm64 (at_bus_write h) @ call_rax @ add_rsp_16 @ test_al_jnz 3 @ or_bl_1) s m1"
proof -
  have g: "gp s 15 = at_cpu h" "gp s 14 = at_bus h" "length (stk s) = 8" using assms(1) by (simp_all add: framed_def)
  let ?args = "sub_rsp_16 @ mov_rcx_r14 @ mov_edx_eax @ mov_r8d_imm sz @ mov_r9d_reg d @
     (if sz = 1 then and_r9d_imm 0xFF else if sz = 2 then and_r9d_imm 0xFFFF else [])"
  have "\<exists>s1. runs h ?args s s1 \<and> gp s1 1 = at_bus h \<and> to32 (gp s1 9) = mask_size sz (reg (mem s) d) \<and> to32 (gp s1 2) = to32 (gp s 0) \<and>
      to32 (gp s1 8) = sz \<and> mem s1 = mem s \<and> length (stk s1) = 10 \<and> drop 2 (stk s1) = stk s \<and> (\<forall>r \<in> {3,5,6,7,12,13,14,15}. gp s1 r = gp s r)"
    unfolding runs_def mask_size_def
    by (cases "sz = 1"; cases "sz = 2"; simp only: if_True if_False;
      (rule exI, rule conjI, rule allI, simp add: x86_steps g(1) assms(3), simp add: g))
  then obtain s1 where s1: "runs h ?args s s1" "gp s1 1 = at_bus h" "to32 (gp s1 9) = mask_size sz (reg (mem s) d)" "to32 (gp s1 2) = to32 (gp s 0)"
      "to32 (gp s1 8) = sz" "mem s1 = mem s" "length (stk s1) = 10" "drop 2 (stk s1) = stk s" "\<forall>r \<in> {3,5,6,7,12,13,14,15}. gp s1 r = gp s r"
    by blast
  have "bus_write (mem s1) (to32 (gp s1 2)) (to32 (gp s1 8)) (to32 (gp s1 9)) = Some (True, m1)" using s1 assms(4) by simp
  from write_call [OF s1(2) _ assms(2) this] obtain s2 where s2: "runs h (mov_rax_imm64 (at_bus_write h) @ call_rax) s1 s2" "mem s2 = m1"
      "to8 (gp s2 0) = 1" "length (stk s2) = 10" "drop 4 (stk s2) = drop 4 (stk s1)" "\<forall>r \<in> {3,5,6,7,12,13,14,15}. gp s2 r = gp s1 r"
    using s1(7) by force
  from store_ends [OF _ s2(3), of h] s2(4) obtain s3 where s3: "runs h (add_rsp_16 @ test_al_jnz 3 @ or_bl_1) s2 s3"
    "mem s3 = m1" "stk s3 = drop 2 (stk s2)" "\<forall>r \<in> {3,5,6,7,12,13,14,15}. gp s3 r = gp s2 r"
    using s2(2) by auto
  have "drop 4 (stk s3) = drop 4 (stk s)"
  proof -
    have "drop 4 (stk s3) = drop 2 (drop 4 (stk s2))" by (simp add: s3(3))
    also have "\<dots> = drop 4 (drop 2 (stk s1))" by (simp add: s2(5))
    finally show ?thesis by (simp add: s1(8))
  qed
  then have "kept s s3" using s1 s2 s3 g by (simp add: kept_def)
  moreover from runs_append [OF s1(1) runs_append [OF s2(1) s3(1)]]
  have "runs h (sub_rsp_16 @ mov_rcx_r14 @ mov_edx_eax @ mov_r8d_imm sz @ mov_r9d_reg d @
     (if sz = 1 then and_r9d_imm 0xFF else if sz = 2 then and_r9d_imm 0xFFFF else []) @
     mov_rax_imm64 (at_bus_write h) @ call_rax @ add_rsp_16 @ test_al_jnz 3 @ or_bl_1) s s3" by simp
  ultimately show ?thesis using s3(2) by (auto simp: leaves_m_def)
qed

section \<open>Loads and stores\<close>

lemma kept_framed: "kept s s' \<Longrightarrow> framed h s \<Longrightarrow> framed h s'"
  by (simp add: kept_def framed_def)

lemma does_then:
  assumes "does h c s m v" "\<And>s1. kept s s1 \<Longrightarrow> mem s1 = m \<Longrightarrow> to32 (gp s1 0) = v \<Longrightarrow> leaves_m h k s1 m'"
  shows "leaves_m h (c @ k) s m'"
proof -
  obtain s1 where s1: "runs h c s s1" "mem s1 = m" "gp s1 0 = to64 v" "kept s s1" using assms(1) by (auto simp: does_def)
  then obtain s2 where s2: "runs h k s1 s2" "mem s2 = m'" "kept s1 s2" using assms(2) [of s1] by (auto simp: leaves_m_def)
  show ?thesis
    unfolding leaves_m_def using runs_append [OF s1(1) s2(1)] kept_trans [OF s1(4) s2(3)] s2(2) by blast
qed

lemma address:
  assumes "gp s 15 = at_cpu h" "n < 16"
  shows "does h (ld_eax n @ (if imm \<noteq> 0 then add_imm imm else [])) s (mem s) (reg (mem s) n + imm)"
  using computes_does [OF computes_imm(1) [OF assms, of imm]] does_mov(2) [OF assms] by simp

lemma emit_load_ok:
  assumes "framed h s" "callable h" "d < 16" "rn < 16" "bus_read (mem s) (reg (mem s) rn + imm) sz = (Some v, m1)"
  shows "leaves_m h (emit_load h d rn imm sz) s (set_reg m1 d (mask_size sz v))"
proof -
  have g: "gp s 15 = at_cpu h" using assms(1) by (simp add: framed_def)
  have "leaves_m h ((ld_eax rn @ (if imm \<noteq> 0 then add_imm imm else [])) @ emit_load_from_eax h d sz) s (set_reg m1 d (mask_size sz v))"
    by (rule does_then [OF address [OF g assms(4)]])
      (rule load_from_eax [OF kept_framed [OF _ assms(1)] assms(2,3)]; simp add: assms(5))
  then show ?thesis by (simp add: emit_load_def)
qed

lemma emit_store_ok:
  assumes "framed h s" "callable h" "d < 16" "rn < 16"
    "bus_write (mem s) (reg (mem s) rn + imm) sz (mask_size sz (reg (mem s) d)) = Some (True, m1)"
  shows "leaves_m h (emit_store h d rn imm sz) s m1"
proof -
  have g: "gp s 15 = at_cpu h" using assms(1) by (simp add: framed_def)
  let ?c = "sub_rsp_16 @ mov_rcx_r14 @ mov_edx_eax @ mov_r8d_imm sz @ mov_r9d_reg d @
     (if sz = 1 then and_r9d_imm 0xFF else if sz = 2 then and_r9d_imm 0xFFFF else []) @
     mov_rax_imm64 (at_bus_write h) @ call_rax @ add_rsp_16 @ test_al_jnz 3 @ or_bl_1"
  have "leaves_m h ((ld_eax rn @ (if imm \<noteq> 0 then add_imm imm else [])) @ ?c) s m1"
    by (rule does_then [OF address [OF g assms(4)]])
      (rule store_from_eax [OF kept_framed [OF _ assms(1)] assms(2,3)]; simp add: assms(5))
  then show ?thesis by (simp add: emit_store_def)
qed

section \<open>The memory instructions\<close>

text \<open>
  The instructions on which the code and the interpreter agree: none names the program counter,
  no register offset is shifted, literals lie above.  The 32-bit byte and halfword forms are left
  out, since the interpreter does not mask them, and so are the double transfers.
\<close>

definition mem_plain :: "insn_t \<Rightarrow> bool" where
  "mem_plain i \<longleftrightarrow> ird i < 15 \<and> irn i < 15 \<and> irm i < 15 \<and> insn_native_ok i \<and>
     (iop i = OP_T32_LDR_LIT \<longrightarrow> iadd i) \<and>
     (iop i \<in> {OP_T32_LDR_REG, OP_T32_STR_REG} \<longrightarrow> ishift_n i = 0) \<and>
     iop i \<notin> {OP_T32_LDRB_IMM, OP_T32_STRB_IMM, OP_T32_LDRH_IMM, OP_T32_STRH_IMM, OP_T32_LDRD_IMM, OP_T32_STRD_IMM}"

lemma rd_warp:
  assumes "rd (warp p n m) a sz k = Break np m'"
  shows "\<exists>v m1. bus_read m a sz = (Some v, m1) \<and> k v (warp p n m1) = Break np m'"
proof -
  obtain v m1 where r: "bus_read m a sz = (v, m1)" by (cases "bus_read m a sz")
  then show ?thesis using assms by (cases v) (auto simp: rd_def wr.bus_read_up halt_false_def)
qed

lemma wr_warp:
  assumes "wr (warp p n m) a sz v k = Break np m'"
  shows "\<exists>m1. bus_write m a sz v = Some (True, m1) \<and> k (warp p n m1) = Break np m'"
  using assms by (auto simp: wr_def halt_false_def split: option.splits if_splits dest: bus_write_warp)

lemma warp_set_reg: "d < 15 \<Longrightarrow> set_reg (warp p n m) d v = warp p n (set_reg m d v)"
  by (auto intro!: cpu_upd_eq simp: comp_def warp_cpu_def fun_upd_twist)

interpretation its: bus_blind "itstate_update (\<lambda>_. x)" for x
  by unfold_locales simp_all
interpretation cyc: bus_blind "cycles_update (\<lambda>_. x)" for x
  by unfold_locales simp_all

lemma pinned:
  fixes m :: machine
  shows "cpu_update (itstate_update (\<lambda>_. x)) m = m \<longleftrightarrow> itstate (cpu m) = x"
    "cpu_update (cycles_update (\<lambda>_. y)) m = m \<longleftrightarrow> cycles (cpu m) = y"
  by (cases m; cases "cpu m"; auto)+

lemma access_same_it:
  "bus_read m a sz = (v, m1) \<Longrightarrow> same_it m m1" "bus_write m a sz w = Some (ok, m1) \<Longrightarrow> same_it m m1"
proof -
  let ?i = "itstate (cpu m)" and ?c = "cycles (cpu m)"
  have pin: "cpu_update (itstate_update (\<lambda>_. ?i)) m = m" "cpu_update (cycles_update (\<lambda>_. ?c)) m = m" by (simp_all only: pinned)
  show "same_it m m1" if "bus_read m a sz = (v, m1)"
    using its.bus_read_up [of ?i m a sz] cyc.bus_read_up [of ?c m a sz] that
    unfolding pin same_it_def by (simp only: apsnd_conv prod.inject pinned [symmetric])
  show "same_it m m1" if "bus_write m a sz w = Some (ok, m1)"
    using its.bus_write_up [OF that, of ?i] cyc.bus_write_up [OF that, of ?c] that
    unfolding pin same_it_def by (simp only: option.inject prod.inject pinned [symmetric])
qed

lemma read_same_it: "bus_read m a sz = (v, m1) \<Longrightarrow> same_it m (set_reg m1 d w)"
  using access_same_it(1) by (fastforce simp: same_it_def)

lemmas write_same_it = access_same_it(2)

lemma load_exec:
  assumes "framed h s" "callable h" "d < 15" "e < 15"
    "rd (warp p n (mem s)) (reg (mem s) e + imm) sz (\<lambda>v m. Break np (set_reg m d (mask_size sz v))) = Break np' m'"
  shows "np' = np \<and> (\<exists>m. leaves_m h (emit_load h d e imm sz) s m \<and> m' = warp p n m \<and> same_it (mem s) m)"
proof -
  from rd_warp [OF assms(5)] obtain v m1 where v: "bus_read (mem s) (reg (mem s) e + imm) sz = (Some v, m1)"
    "np' = np" "m' = set_reg (warp p n m1) d (mask_size sz v)" by auto
  have "d < 16" "e < 16" using assms(3,4) by (simp_all add: word_less_nat_alt)
  then have "leaves_m h (emit_load h d e imm sz) s (set_reg m1 d (mask_size sz v))"
    using emit_load_ok [OF assms(1,2) _ _ v(1)] by blast
  then show ?thesis using v(2,3) warp_set_reg [OF assms(3)] read_same_it [OF v(1)] by auto
qed

lemma store_exec:
  assumes "framed h s" "callable h" "d < 15" "e < 15"
    "wr (warp p n (mem s)) (reg (mem s) e + imm) sz (mask_size sz (reg (mem s) d)) (\<lambda>m. Break np m) = Break np' m'"
  shows "np' = np \<and> (\<exists>m. leaves_m h (emit_store h d e imm sz) s m \<and> m' = warp p n m \<and> same_it (mem s) m)"
proof -
  from wr_warp [OF assms(5)] obtain m1 where v: "bus_write (mem s) (reg (mem s) e + imm) sz (mask_size sz (reg (mem s) d)) = Some (True, m1)"
    "np' = np" "m' = warp p n m1" by auto
  have "d < 16" "e < 16" using assms(3,4) by (simp_all add: word_less_nat_alt)
  then have "leaves_m h (emit_store h d e imm sz) s m1"
    using emit_store_ok [OF assms(1,2) _ _ v(1)] by blast
  then show ?thesis using v(2,3) write_same_it [OF v(1)] by auto
qed

lemma load_at_exec:
  assumes "framed h s" "callable h" "d < 15" "does h c s (mem s) a"
    "rd (warp p n (mem s)) a 4 (\<lambda>v m. Break np (set_reg m d v)) = Break np' m'"
  shows "np' = np \<and> (\<exists>m. leaves_m h (c @ emit_load_from_eax h d 4) s m \<and> m' = warp p n m \<and> same_it (mem s) m)"
proof -
  from rd_warp [OF assms(5)] obtain v m1 where v: "bus_read (mem s) a 4 = (Some v, m1)"
    "np' = np" "m' = set_reg (warp p n m1) d v" by auto
  have d: "d < 16" using assms(3) by (simp add: word_less_nat_alt)
  have "leaves_m h (c @ emit_load_from_eax h d 4) s (set_reg m1 d (mask_size 4 v))"
    by (rule does_then [OF assms(4)]) (rule load_from_eax [OF kept_framed [OF _ assms(1)] assms(2) d]; simp add: v(1))
  then show ?thesis using v(2,3) warp_set_reg [OF assms(3)] read_same_it [OF v(1)] by (auto simp: mask_size_def)
qed

lemma store_at_exec:
  assumes "framed h s" "callable h" "d < 15" "does h c s (mem s) a"
    "wr (warp p n (mem s)) a 4 (reg (mem s) d) (\<lambda>m. Break np m) = Break np' m'"
  shows "np' = np \<and> (\<exists>m. leaves_m h (c @ sub_rsp_16 @ mov_rcx_r14 @ mov_edx_eax @ mov_r8d_imm 4 @ mov_r9d_reg d @
     mov_rax_imm64 (at_bus_write h) @ call_rax @ add_rsp_16 @ test_al_jnz 3 @ or_bl_1) s m \<and> m' = warp p n m \<and> same_it (mem s) m)"
proof -
  from wr_warp [OF assms(5)] obtain m1 where v: "bus_write (mem s) a 4 (reg (mem s) d) = Some (True, m1)"
    "np' = np" "m' = warp p n m1" by auto
  have d: "d < 16" using assms(3) by (simp add: word_less_nat_alt)
  have "leaves_m h (c @ sub_rsp_16 @ mov_rcx_r14 @ mov_edx_eax @ mov_r8d_imm 4 @ mov_r9d_reg d @
     mov_rax_imm64 (at_bus_write h) @ call_rax @ add_rsp_16 @ test_al_jnz 3 @ or_bl_1) s m1"
  proof (rule does_then [OF assms(4)])
    fix s1 assume "kept s s1" "mem s1 = mem s" "to32 (gp s1 0) = a"
    then show "leaves_m h (sub_rsp_16 @ mov_rcx_r14 @ mov_edx_eax @ mov_r8d_imm 4 @ mov_r9d_reg d @
       mov_rax_imm64 (at_bus_write h) @ call_rax @ add_rsp_16 @ test_al_jnz 3 @ or_bl_1) s1 m1"
      using store_from_eax [OF kept_framed [OF _ assms(1)] assms(2) d, of s1 4 m1] v(1) by (simp add: mask_size_def)
  qed
  then show ?thesis using v(2,3) write_same_it [OF v(1)] by auto
qed

lemma orelse_access:
  "orelse (rd m a sz (\<lambda>v m. Break (p v m) (q v m))) y = rd m a sz (\<lambda>v m. Break (p v m) (q v m))"
  "orelse (wr m a sz x (\<lambda>m. Break (p' m) (q' m))) y = wr m a sz x (\<lambda>m. Break (p' m) (q' m))"
  by (auto simp: rd_def wr_def halt_false_def split: option.splits prod.splits)

lemma emit_mem_exec:
  assumes "framed h s" "callable h" "emit_mem h i = Some code" "mem_plain i"
    "exec_switch (warp (ipc i) n (mem s)) i np = Break np' m'"
  shows "np' = np \<and> (\<exists>m. leaves_m h code s m \<and> m' = warp (ipc i) n m \<and> same_it (mem s) m)"
proof -
  have g: "gp s 15 = at_cpu h" using assms(1) by (simp add: framed_def)
  have r: "ird i < 15" "irn i < 15" "irm i < 15" using assms(4) by (simp_all add: mem_plain_def)
  have r16: "irn i < 16" "irm i < 16" using r by (simp_all add: word_less_nat_alt)
  have ne: "ird i \<noteq> 15" "irn i \<noteq> 15" "irm i \<noteq> 15" using r by auto
  note plain = assms(4) [unfolded mem_plain_def]
  have idx: "does h (ld_eax (irn i) @ ld_ecx (irm i) @ op_add_ec) s (mem s) (reg (mem s) (irn i) + reg (mem s) (irm i))"
    using computes_does [OF computes_reg(1) [OF g r16]] by simp
  note rules = load_exec [OF assms(1,2) r(1), where imm = "iimm i"] store_exec [OF assms(1,2) r(1), where imm = "iimm i"]
    load_at_exec [OF assms(1,2) r(1) does_mov(1)] load_at_exec [OF assms(1,2) r(1) idx, simplified append_assoc] store_at_exec [OF assms(1,2) r(1) idx, simplified append_assoc]
  show ?thesis
    using assms(3,5) plain
    apply (simp only: emit_mem_def Let_def split: if_split_asm)
    apply (simp_all only: option.inject option.distinct append_assoc)
    apply ((simp; fail) | (elim disjE)?, hypsubst, rule rules,
      ((simp add: r; fail) | (simp add: alu_exec orelse_access insn_native_ok_def mask_size_def ne r Let_def warp_cpu_def; fail))+)+
    done
qed

end
