(* ===== verification/Codegen_Block.thy ===== *)
theory Codegen_Block
  imports Codegen_Branch Codegen_Mem Jit
begin

text \<open>
  Whole thunks: the prologue builds the frame, the code of the instructions runs in it, the
  epilogue takes it down, and a straight block leaves the machine that its interpretation leaves
  but for the cycle count.
\<close>

section \<open>Entering and leaving\<close>

definition in_thunk :: "x86_host \<Rightarrow> xstate \<Rightarrow> bool" where
  "in_thunk h s \<longleftrightarrow> framed h s \<and> drop 4 (stk s) = [entry h 6, entry h 3, entry h 14, entry h 15] \<and>
     (\<forall>r \<in> {5, 7, 12, 13}. gp s r = entry h r)"

definition entered :: "x86_host \<Rightarrow> machine \<Rightarrow> xstate" where
  "entered h m = \<lparr>gp = (entry h)(RCX := at_cpu h, RDX := at_bus h), zfl = False, sfl = False, cfl = False,
     ofl = False, stk = [], mem = m\<rparr>"

lemma run_pushes [x86_steps]:
  "x86_run h (0x41 # 0x57 # bs) s = x86_run h bs (s\<lparr>stk := gp s 15 # stk s\<rparr>)"
  "x86_run h (0x41 # 0x56 # bs) s = x86_run h bs (s\<lparr>stk := gp s 14 # stk s\<rparr>)"
  "x86_run h (0x53 # bs) s = x86_run h bs (s\<lparr>stk := gp s 3 # stk s\<rparr>)"
  "x86_run h (0x56 # bs) s = x86_run h bs (s\<lparr>stk := gp s 6 # stk s\<rparr>)"
  by (rule x86_run_step [where i = "PushR 15"], simp add: decode_simps, simp)
    (rule x86_run_step [where i = "PushR 14"], simp add: decode_simps, simp,
     rule x86_run_step [where i = "PushR 3"], simp add: decode_simps, simp,
     rule x86_run_step [where i = "PushR 6"], simp add: decode_simps, simp)

lemma run_pops [x86_steps]:
  assumes "stk s = v # vs"
  shows "x86_run h (0x41 # 0x5F # bs) s = x86_run h bs (set_gp 15 v (s\<lparr>stk := vs\<rparr>))"
    "x86_run h (0x41 # 0x5E # bs) s = x86_run h bs (set_gp 14 v (s\<lparr>stk := vs\<rparr>))"
    "x86_run h (0x5B # bs) s = x86_run h bs (set_gp 3 v (s\<lparr>stk := vs\<rparr>))"
    "x86_run h (0x5E # bs) s = x86_run h bs (set_gp 6 v (s\<lparr>stk := vs\<rparr>))"
  by (rule x86_run_step [where i = "PopR 15"], simp add: decode_simps, simp add: assms)
    (rule x86_run_step [where i = "PopR 14"], simp add: decode_simps, simp add: assms,
     rule x86_run_step [where i = "PopR 3"], simp add: decode_simps, simp add: assms,
     rule x86_run_step [where i = "PopR 6"], simp add: decode_simps, simp add: assms)

lemma run_frame [x86_steps]:
  "x86_run h (0x48 # 0x83 # 0xEC # 0x20 # bs) s = x86_run h bs ((alu_flags X_SUB (rsp h s) 32 s)\<lparr>stk := map (below h s) [0..<4] @ stk s\<rparr>)"
  "4 \<le> length (stk s) \<Longrightarrow> x86_run h (0x48 # 0x83 # 0xC4 # 0x20 # bs) s =
    x86_run h bs ((alu_flags X_ADD (rsp h s) 32 s)\<lparr>stk := drop 4 (stk s)\<rparr>)"
  by (rule x86_run_step [where i = "AluI W64 X_SUB (Rg 4) 32"], simp add: decode_simps, simp add: rsp_step_def Let_def)
    (rule x86_run_step [where i = "AluI W64 X_ADD (Rg 4) 32"], simp add: decode_simps, simp add: rsp_step_def Let_def)

lemma run_pointers [x86_steps]:
  "x86_run h (0x49 # 0x89 # 0xCF # bs) s = x86_run h bs (set_gp 15 (gp s 1) s)"
  "x86_run h (0x49 # 0x89 # 0xD6 # bs) s = x86_run h bs (set_gp 14 (gp s 2) s)"
  by (rule x86_run_step [where i = "Mov W64 (Rg 15) (Rg 1)"], simp add: decode_simps, simp)
    (rule x86_run_step [where i = "Mov W64 (Rg 14) (Rg 2)"], simp add: decode_simps, simp)

lemma run_result [x86_steps]:
  "x86_run h (0xB0 # 0x01 # bs) s = x86_run h bs (set_gp 0 (put_lo (gp s 0) 1) s)"
  "x86_run h (0x30 # 0xC0 # bs) s = x86_run h bs (set_gp 0 (put_lo (gp s 0) 0) (alu_flags X_XOR (to8 (gp s 0)) (to8 (gp s 0)) s))"
  "stk s = [] \<Longrightarrow> x86_run h (0xC3 # bs) s = Some s"
  by (rule x86_run_step [where i = "MovI W8 (Rg 0) 1"], simp add: decode_simps, simp)
    (rule x86_run_step [where i = "Alu W8 X_XOR (Rg 0) (Rg 0)"], simp add: decode_simps,
       simp add: alu_step_def Let_def discards_def,
     subst x86_run.simps, simp add: decode_simps)

lemma run_test_bl [x86_steps]:
  "x86_run h (0x84 # 0xDB # bs) s = x86_run h bs (alu_flags X_TEST (to8 (gp s 3)) (to8 (gp s 3)) s)"
  by (rule x86_run_step [where i = "Alu W8 X_TEST (Rg 3) (Rg 3)"])
    (simp_all add: decode_simps alu_step_def Let_def discards_def)

lemma run_set_halt [x86_steps]:
  "gp s 15 = at_cpu h \<Longrightarrow> x86_run h (0x41 # 0xC6 # 0x87 # emit_w32 120 @ 0x01 # bs) s =
    x86_run h bs (s\<lparr>mem := cpu_update (halted_update (\<lambda>_. True)) (mem s)\<rparr>)"
  by (rule x86_run_step [where i = "MovI W8 (Mem 15 120) 1"])
    (simp_all add: decode_simps store8_def ea_def)

lemma prologue_runs:
  "\<exists>s1. runs h (emit_prologue @ emit_clear_fail) (entered h m) s1 \<and> mem s1 = m \<and> to8 (gp s1 3) = 0 \<and> in_thunk h s1"
  unfolding runs_def
  by (rule exI, rule conjI, rule allI, simp add: emit_prologue_def x86_steps entered_def, simp add: in_thunk_def framed_def)

lemma run_epilogue:
  assumes "in_thunk h s" "to8 (gp s 3) = 0"
  shows "\<exists>s1. x86_run h emit_epilogue_check s = Some s1 \<and> mem s1 = mem s \<and> to8 (gp s1 0) \<noteq> 0 \<and>
    (\<forall>r \<in> set [3, 5, 6, 7, 12, 13, 14, 15]. gp s1 r = entry h r)"
proof -
  have d: "drop 4 (stk s) = [entry h 6, entry h 3, entry h 14, entry h 15]" and l: "4 \<le> length (stk s)"
    using assms(1) by (simp_all add: in_thunk_def framed_def)
  have jz: "x86_run h (0x74 # 21 # bs) t = x86_run h (if zfl t then drop 21 bs else bs) t" for bs and t :: xstate
    using run_jcc_rel8(2) [of 21 h bs t] by (simp add: jcc_rel8_def)
  show ?thesis
    using assms
    by (simp add: emit_epilogue_check_def x86_steps jz emit_w32_def l d in_thunk_def)
qed


lemma run_epilogue_failed:
  assumes "in_thunk h s" "to8 (gp s 3) \<noteq> 0"
  shows "\<exists>s1. x86_run h emit_epilogue_check s = Some s1 \<and> mem s1 = cpu_update (halted_update (\<lambda>_. True)) (mem s) \<and>
    to8 (gp s1 0) = 0 \<and> (\<forall>r \<in> set [3, 5, 6, 7, 12, 13, 14, 15]. gp s1 r = entry h r)"
proof -
  have d: "drop 4 (stk s) = [entry h 6, entry h 3, entry h 14, entry h 15]" and l: "4 \<le> length (stk s)" and
    g: "gp s 15 = at_cpu h"
    using assms(1) by (simp_all add: in_thunk_def framed_def)
  have jz: "x86_run h (0x74 # 21 # bs) t = x86_run h (if zfl t then drop 21 bs else bs) t" for bs and t :: xstate
    using run_jcc_rel8(2) [of 21 h bs t] by (simp add: jcc_rel8_def)
  show ?thesis
    using assms(1,2)
    by (simp add: emit_epilogue_check_def x86_steps jz l d g in_thunk_def)
qed

lemma kept_in_thunk: "kept s s1 \<Longrightarrow> in_thunk h s \<Longrightarrow> in_thunk h s1"
  by (simp add: in_thunk_def kept_framed) (simp add: kept_def)

lemma call_thunk:
  assumes "\<And>s. in_thunk h s \<Longrightarrow> mem s = m \<Longrightarrow> leaves_m h body s m'"
  shows "x86_call h (emit_prologue @ emit_clear_fail @ body @ emit_epilogue_check) m = Some (True, m')"
proof -
  obtain s1 where s1: "runs h (emit_prologue @ emit_clear_fail) (entered h m) s1" "mem s1 = m" "to8 (gp s1 3) = 0"
    "in_thunk h s1" using prologue_runs by blast
  then obtain s2 where s2: "runs h body s1 s2" "mem s2 = m'" "kept s1 s2" using assms [of s1] by (auto simp: leaves_m_def)
  have "in_thunk h s2" "to8 (gp s2 3) = 0" using s1 s2(3) kept_in_thunk by (auto simp: kept_def)
  from run_epilogue [OF this] obtain s3 where s3: "x86_run h emit_epilogue_check s2 = Some s3" "mem s3 = m'"
    "to8 (gp s3 0) \<noteq> 0" "\<forall>r \<in> set [3, 5, 6, 7, 12, 13, 14, 15]. gp s3 r = entry h r" using s2(2) by blast
  have "x86_run h (emit_prologue @ emit_clear_fail @ body @ emit_epilogue_check) (entered h m) = Some s3"
    using runs_append [OF s1(1) s2(1)] s3(1) unfolding runs_def append_assoc by metis
  then show ?thesis using s3 by (simp add: x86_call_def entered_def Let_def)
qed

section \<open>Straight blocks\<close>

text \<open>The instructions whose code agrees with the interpreter outside an IT block.\<close>

definition native_plain :: "x86_host \<Rightarrow> insn_t \<Rightarrow> bool" where
  "native_plain h i \<longleftrightarrow> (if emit_alu i \<noteq> None then alu_plain i else emit_mem h i \<noteq> None \<and> mem_plain i)"

definition calls_bus :: "x86_host \<Rightarrow> insn_t \<Rightarrow> bool" where
  "calls_bus h i \<longleftrightarrow> emit_alu i = None \<and> emit_mem h i \<noteq> None"

definition fails_only :: "outcome \<Rightarrow> bool" where
  "fails_only x \<longleftrightarrow> (case x of Ret b _ \<Rightarrow> \<not> b | _ \<Rightarrow> True)"

lemma access_fails_only:
  "fails_only (rd m a sz (\<lambda>v m. Break (p v m) (q v m)))" "fails_only (wr m a sz x (\<lambda>m. Break (p' m) (q' m)))"
  by (auto simp: fails_only_def rd_def wr_def halt_false_def split: option.splits prod.splits if_splits)

lemma mem_fails_only:
  assumes "emit_mem h i = Some code" "mem_plain i"
  shows "fails_only (exec_switch m i np)"
  using assms(1) assms(2) [unfolded mem_plain_def]
  by (simp only: emit_mem_def Let_def split: if_split_asm; (elim disjE)?; (simp only: option.inject option.distinct)?;
      (simp; fail)?; simp add: alu_exec orelse_access access_fails_only insn_native_ok_def Let_def)

lemma not_emitted:
  assumes "is_terminator (iop i) \<or> wrote_pc [i]"
  shows "emit_alu i = None \<and> emit_mem h i = None"
  using assms unfolding is_terminator_def wrote_pc_def
  by (simp only: last.simps if_True list.set insert_iff empty_iff) (elim disjE FalseE; simp add: emit_alu_def emit_mem_def Let_def)

lemma native_goes_on: "native_plain h i \<Longrightarrow> \<not> is_terminator (iop i)" "native_plain h i \<Longrightarrow> \<not> wrote_pc [i]"
  using not_emitted [of i h] by (auto simp: native_plain_def split: if_splits)

lemma warp_pc: "set_reg (warp p n m) 15 q = warp q n m" "r_of (warp_cpu q n c) 15 = q" "cpu_in_it (warp_cpu q n c) = cpu_in_it c"
  by (cases m; simp add: warp_cpu_def cpu_in_it_def)+

lemma finish_warp: "cpu_update (exec_finish False a op np) (warp q n m) = warp np (n + 1) m"
  by (cases m; simp add: exec_finish_def retire_def warp_cpu_def)

lemma plain_step:
  assumes f: "framed h s" and ne: "calls_bus h i \<Longrightarrow> callable h" and p: "native_plain h i"
    and it: "\<not> cpu_in_it (cpu (mem s))"
    and e: "execute (set_reg (warp p n (mem s)) 15 (ipc i)) i = Some (True, m')"
  shows "\<exists>m. leaves_m h (emit_op h sram i) s m \<and> m' = warp (ipc i + to32 (isize i)) (n + 1) m \<and> same_it (mem s) m"
proof -
  let ?w = "warp (ipc i) n (mem s)" and ?np = "ipc i + to32 (isize i)"
  have g: "gp s 15 = at_cpu h" using f by (simp add: framed_def)
  have x: "execute ?w i = Some (True, m')" using e by (simp only: warp_pc)
  show ?thesis
  proof (cases "emit_alu i")
    case (Some code)
    then have "alu_plain i" using p by (simp add: native_plain_def)
    from emit_alu_exec [OF g Some this, of "ipc i" n ?np] obtain m where m: "leaves_m h code s m"
      "exec_switch ?w i ?np = Break ?np (warp (ipc i) n m)" "same_it (mem s) m" by blast
    have "m' = warp ?np (n + 1) m" using x m(2) it by (simp add: execute_def Let_def warp_pc finish_warp)
    then show ?thesis using m Some by (auto simp: emit_op_def)
  next
    case None
    then obtain code where code: "emit_mem h i = Some code" and mp: "mem_plain i" using p by (auto simp: native_plain_def)
    have c: "callable h" using ne None code by (simp add: calls_bus_def)
    obtain np m1 where b: "exec_switch ?w i ?np = Break np m1" "m' = cpu_update (exec_finish False (apsr (cpu ?w)) (iop i) np) m1"
      using x it mem_fails_only [OF code mp, of ?w ?np] by (auto simp: execute_def Let_def warp_pc fails_only_def split: outcome.splits)
    from emit_mem_exec [OF f c code mp b(1)] obtain m where m: "leaves_m h code s m" "np = ?np" "m1 = warp (ipc i) n m"
      "same_it (mem s) m" by blast
    have "m' = warp ?np (n + 1) m" using b(2) m by (simp only: finish_warp)
    then show ?thesis using m(1,4) None code by (auto simp: emit_op_def)
  qed
qed

lemma branch_step:
  assumes f: "framed h s" and p: "branch_plain i" and it: "\<not> cpu_in_it (cpu (mem s))"
    and e: "execute (set_reg (warp p n (mem s)) 15 (ipc i)) i = Some (True, m')"
  shows "\<exists>np m. leaves_m h (emit_op h sram i) s (set_reg m 15 np) \<and> m' = warp np (n + 1) m \<and> same_it (mem s) m"
proof -
  let ?w = "warp (ipc i) n (mem s)" and ?np = "ipc i + to32 (isize i)"
  have x: "execute ?w i = Some (True, m')" using e by (simp only: warp_pc)
  from emit_branch_exec [OF f p, of sram n] obtain np m where m: "leaves_m h (emit_op h sram i) s (set_reg m 15 np)"
    "exec_switch ?w i ?np = Break np (warp (ipc i) n m)" "same_it (mem s) m" by blast
  have "m' = warp np (n + 1) m" using x m(2) it by (simp add: execute_def Let_def warp_pc finish_warp)
  then show ?thesis using m by blast
qed

text \<open>What lies between prologue and epilogue.\<close>

definition block_code :: "x86_host \<Rightarrow> (u32 \<times> u32) option \<Rightarrow> insn_t list \<Rightarrow> u8 list" where
  "block_code h sram is = concat (map (emit_op h sram) is) @
     (if wrote_pc is then [] else st_pc (ipc (last is) + to32 (isize (last is))))"

text \<open>A straight block: plain instructions, of which the last may be a branch.\<close>

fun straight_block :: "x86_host \<Rightarrow> insn_t list \<Rightarrow> bool" where
  "straight_block h [] \<longleftrightarrow> False"
| "straight_block h [i] \<longleftrightarrow> native_plain h i \<or> branch_plain i"
| "straight_block h (i # is) \<longleftrightarrow> native_plain h i \<and> straight_block h is"

lemma branch_terminates: "branch_plain i \<Longrightarrow> is_terminator (iop i) \<and> wrote_pc [i]"
  by (auto simp: branch_plain_def is_terminator_def wrote_pc_def)

lemma leaves_then:
  assumes "leaves_m h a s m1" "\<And>s1. kept s s1 \<Longrightarrow> mem s1 = m1 \<Longrightarrow> \<exists>m. leaves_m h b s1 m \<and> P m"
  shows "\<exists>m. leaves_m h (a @ b) s m \<and> P m"
proof -
  obtain s1 where s1: "runs h a s s1" "mem s1 = m1" "kept s s1" using assms(1) by (auto simp: leaves_m_def)
  then obtain s2 where "runs h b s1 s2" "P (mem s2)" "kept s1 s2" using assms(2) by (auto simp: leaves_m_def)
  then show ?thesis unfolding leaves_m_def using runs_append [OF s1(1)] kept_trans [OF s1(3)] by blast
qed

lemma same_it_trans: "same_it m1 m2 \<Longrightarrow> same_it m2 m3 \<Longrightarrow> same_it m1 m3"
  by (simp add: same_it_def)

lemma same_it_pc: "same_it m (set_reg m 15 v)"
  by (simp add: same_it_def)

lemma same_it_in_it: "same_it m m1 \<Longrightarrow> cpu_in_it (cpu m1) = cpu_in_it (cpu m)"
  by (simp add: same_it_def cpu_in_it_def)

lemma warp_of_pc: "warp p n (set_reg m 15 q) = warp p n m" "reg (set_reg m 15 q) 15 = q"
  by (cases m; simp add: warp_cpu_def)+

lemma leaves_st_pc: "gp s 15 = at_cpu h \<Longrightarrow> leaves_m h (st_pc v) s (set_reg (mem s) 15 v)"
  unfolding leaves_m_def runs_def by (rule exI, rule conjI, rule allI, simp add: x86_steps, simp add: kept_def)

lemma block_leaves:
  assumes ne: "callable h \<or> list_all (\<lambda>i. \<not> calls_bus h i) is"
  shows "straight_block h is \<Longrightarrow> framed h s \<Longrightarrow> \<not> cpu_in_it (cpu (mem s)) \<Longrightarrow>
    interp_block is (warp p n (mem s)) = Some (length is, m') \<Longrightarrow>
    \<exists>m. leaves_m h (block_code h sram is) s m \<and> m' = warp (reg m 15) (n + of_nat (length is)) m \<and> same_it (mem s) m"
  using ne
proof (induction h "is" arbitrary: s p n m' rule: straight_block.induct)
  case (2 h i)
  have e: "execute (set_reg (warp p n (mem s)) 15 (ipc i)) i = Some (True, m')"
    using "2.prems"(4) by (auto split: if_splits bind_splits)
  have g: "kept s s1 \<Longrightarrow> gp s1 15 = at_cpu h" for s1 using "2.prems"(2) by (simp add: kept_def framed_def)
  show ?case
  proof (cases "native_plain h i")
    case True
    from plain_step [OF "2.prems"(2) _ True "2.prems"(3) e, of sram] obtain m where m: "leaves_m h (emit_op h sram i) s m"
      "m' = warp (ipc i + to32 (isize i)) (n + 1) m" "same_it (mem s) m" using "2.prems"(5) by auto
    have c: "block_code h sram [i] = emit_op h sram i @ st_pc (ipc i + to32 (isize i))"
      using native_goes_on(2) [OF True] by (simp add: block_code_def)
    show ?thesis
      unfolding c
    proof (rule leaves_then [OF m(1)])
      fix s1 :: xstate assume "kept s s1" "mem s1 = m"
      then show "\<exists>m1. leaves_m h (st_pc (ipc i + to32 (isize i))) s1 m1 \<and>
          m' = warp (reg m1 15) (n + of_nat (length [i])) m1 \<and> same_it (mem s) m1"
        using leaves_st_pc [OF g, of s1] m(2) same_it_trans [OF m(3) same_it_pc]
        by (intro exI [of _ "set_reg m 15 (ipc i + to32 (isize i))"]) (auto simp: warp_of_pc)
    qed
  next
    case False
    then have b: "branch_plain i" using "2.prems"(1) by simp
    from branch_step [OF "2.prems"(2) b "2.prems"(3) e, of sram] obtain np m where m:
      "leaves_m h (emit_op h sram i) s (set_reg m 15 np)" "m' = warp np (n + 1) m" "same_it (mem s) m" by blast
    have c: "block_code h sram [i] = emit_op h sram i"
      using branch_terminates [OF b] by (simp add: block_code_def)
    show ?thesis unfolding c
      by (rule exI [of _ "set_reg m 15 np"]) (use m same_it_trans [OF m(3) same_it_pc] in \<open>simp add: warp_of_pc\<close>)
  qed
next
  case (3 h i j js)
  have p: "native_plain h i" and r: "straight_block h (j # js)" using "3.prems"(1) by simp_all
  obtain m1 where e: "execute (set_reg (warp p n (mem s)) 15 (ipc i)) i = Some (True, m1)"
    and rest: "interp_block (j # js) m1 = Some (length (j # js), m')"
    using "3.prems"(4) native_goes_on(1) [OF p] by (auto simp del: interp_block.simps(2) simp: interp_block.simps(2) [of i] split: if_splits bind_splits)
  from plain_step [OF "3.prems"(2) _ p "3.prems"(3) e, of sram] obtain m where m: "leaves_m h (emit_op h sram i) s m"
    "m1 = warp (ipc i + to32 (isize i)) (n + 1) m" "same_it (mem s) m" using "3.prems"(5) by auto
  have c: "block_code h sram (i # j # js) = emit_op h sram i @ block_code h sram (j # js)"
    by (simp add: block_code_def wrote_pc_def)
  show ?case
    unfolding c
  proof (rule leaves_then [OF m(1)])
    fix s1 :: xstate assume s1: "kept s s1" "mem s1 = m"
    have "\<not> cpu_in_it (cpu (mem s1))" using "3.prems"(3) same_it_in_it [OF m(3)] s1(2) by simp
    moreover have "interp_block (j # js) (warp (ipc i + to32 (isize i)) (n + 1) (mem s1)) = Some (length (j # js), m')"
      using rest m(2) s1(2) by simp
    ultimately obtain m2 where m2: "leaves_m h (block_code h sram (j # js)) s1 m2"
      "m' = warp (reg m2 15) (n + 1 + of_nat (length (j # js))) m2" "same_it (mem s1) m2"
      using "3.IH" [OF r kept_framed [OF s1(1) "3.prems"(2)]] "3.prems"(5) by fastforce
    have "same_it (mem s) m2" using same_it_trans [OF m(3)] m2(3) s1(2) by simp
    then show "\<exists>m. leaves_m h (block_code h sram (j # js)) s1 m \<and>
        m' = warp (reg m 15) (n + of_nat (length (i # j # js))) m \<and> same_it (mem s) m"
      using m2(1,2) by (intro exI [of _ m2]) (simp add: add.assoc)
  qed
qed simp

lemma straight_not_empty: "straight_block h is \<Longrightarrow> is \<noteq> []"
  by auto

lemma native_block:
  assumes "callable h \<or> list_all (\<lambda>i. \<not> calls_bus h i) is" "straight_block h is" "\<not> cpu_in_it (cpu m)"
    "interp_block is m = Some (length is, m')"
  shows "x86_call h (thunk_code h sram is) m = Some (True, cpu_update (cycles_update (\<lambda>_. cycles (cpu m))) m')"
proof -
  let ?m = "cpu_update (cycles_update (\<lambda>_. cycles (cpu m))) m'"
  have w: "warp (reg m 15) (cycles (cpu m)) m = m" by (cases m) (simp add: warp_self)
  have "leaves_m h (block_code h sram is) s ?m" if "in_thunk h s" "mem s = m" for s
  proof -
    have f: "framed h s" using that(1) by (simp add: in_thunk_def)
    have "interp_block is (warp (reg m 15) (cycles (cpu m)) (mem s)) = Some (length is, m')" using assms(4) w that(2) by simp
    from block_leaves [OF assms(1,2) f _ this, of sram] assms(3) that(2) obtain m1 where m1:
      "leaves_m h (block_code h sram is) s m1" "m' = warp (reg m1 15) (cycles (cpu m) + of_nat (length is)) m1" "same_it m m1"
      by auto
    have "?m = m1" using m1(2,3) by (cases m1; cases "cpu m1") (simp add: same_it_def warp_cpu_def fun_upd_idem)
    then show ?thesis using m1(1) by simp
  qed
  from call_thunk [OF this] show ?thesis by (simp add: thunk_code_def block_code_def)
qed

end
