(* ===== verification/Codegen_Size.thy ===== *)
theory Codegen_Size
  imports Codegen
begin

text \<open>
  The estimate of \<^verbatim>\<open>codegen_emit\<close>: 160 bytes per instruction and 64 for the rest.  It holds for
  every block without a register list, so the buffer never cuts such a thunk short.
\<close>

lemmas emitters = emit_w32_def emit_w64_def ld_eax_def ld_ecx_def st_eax_def st_ecx_def st_pc_def mov_eax_imm_def
  op_add_ec_def op_sub_ec_def op_and_ec_def op_or_ec_def op_xor_ec_def add_imm_def sub_imm_def emit_clear_fail_def
  mov_rcx_r14_def mov_edx_eax_def mov_r8d_imm_def lea_r9_rsp0_def mov_r9d_reg_def sub_rsp_16_def add_rsp_16_def
  mov_rax_imm64_def call_rax_def mov_ecx_rsp0_def test_al_jnz_def or_bl_1_def jmp_short_def and_r9d_imm_def

lemmas flag_emitters = emit_lahf_seto_cl_def movzx_edx_ah_def mov_esi_edx_def shr_esi_def shl_esi_def mov_r10d_edx_def
  shr_r10d_def and_r10d_imm_def shl_r10d_def or_esi_r10d_def xor_r10d_imm_def movzx_r10d_cl_def ld_r10d_apsr_def
  st_r10d_apsr_def or_r10d_esi_def mov_r11d_eax_def mov_eax_r11d_def

lemmas branch_emitters = ld_al_apsr_byte3_def shr_al_def test_al_imm8_def and_al_imm8_def cmp_al_imm8_def mov_ah_al_def
  shr_ah_def xor_al_ah_def emit_jcc_rel32_def

lemma emitter_lengths:
  "length (emit_w32 v) = 4" "length (emit_w64 w) = 8" "length (ld_eax r) = 7" "length (ld_ecx r) = 7" "length (st_eax r) = 7"
  "length (st_ecx r) = 7" "length (st_pc v) = 11" "length (mov_eax_imm v) = 5" "length op_add_ec = 2" "length op_sub_ec = 2"
  "length op_and_ec = 2" "length op_or_ec = 2" "length op_xor_ec = 2" "length (add_imm v) = 5" "length (sub_imm v) = 5"
  "length (emit_flags_nzcv b) = (if b then 101 else 94)" "length emit_flags_nz = 63"
  "length emit_prologue = 16" "length emit_clear_fail = 2" "length emit_epilogue_check = 38"
  by (simp_all add: emit_flags_nzcv_def emit_flags_nz_def emitters flag_emitters emit_prologue_def emit_epilogue_check_def)

lemma access_lengths:
  "length (emit_load_from_eax h d sz) \<le> 60" "length (emit_load h d n imm sz) \<le> 72" "length (emit_store h d n imm sz) \<le> 72"
  "length (sub_rsp_16 @ mov_rcx_r14 @ mov_edx_eax @ mov_r8d_imm 4 @ mov_r9d_reg r @ mov_rax_imm64 a @ call_rax @
     add_rsp_16 @ test_al_jnz 3 @ or_bl_1) = 45"
  by (simp_all add: emit_load_from_eax_def emit_load_def emit_store_def emitters)


lemma alu_length: "emit_alu i = Some code \<Longrightarrow> length code \<le> 144"
  unfolding emit_alu_def Let_def
  by (simp only: split: if_split_asm) (auto simp: emitter_lengths)

lemma mem_length: "emit_mem h i = Some code \<Longrightarrow> length code \<le> 144"
  unfolding emit_mem_def Let_def
  by (simp only: split: if_split_asm) (auto simp: emit_load_def emit_store_def emit_load_from_eax_def emitters)

lemma branch_lengths: "length (emit_b_uncond i) = 11" "length (emit_t32_bl i) = 23" "length (emit_b_cond_fast i) \<le> 64"
  by (simp_all add: emit_b_uncond_def emit_t32_bl_def Let_def emitter_lengths)
    (simp add: emit_b_cond_fast_def Let_def cond_test_def emitters branch_emitters)

definition register_list_op :: "opcode_t \<Rightarrow> bool" where
  "register_list_op op \<longleftrightarrow> op \<in> set [OP_PUSH, OP_POP, OP_T32_LDM, OP_T32_STM]"

lemma op_length: "\<not> register_list_op (iop i) \<Longrightarrow> length (emit_op h sram i) \<le> 144"
  using branch_lengths [of i]
  by (auto simp: emit_op_def register_list_op_def Let_def split: option.split dest: alu_length mem_length)

lemma ops_length: "list_all (\<lambda>i. \<not> register_list_op (iop i)) is \<Longrightarrow> length (concat (map (emit_op h sram) is)) \<le> 144 * length is"
  by (induction "is") (auto dest: op_length [of _ h sram])

lemma thunk_length:
  assumes "list_all (\<lambda>i. \<not> register_list_op (iop i)) is" "is \<noteq> []"
  shows "length (thunk_code h sram is) \<le> length is * 160 + 64"
proof -
  have "length (thunk_code h sram is) \<le> 67 + 144 * length is"
    using ops_length [OF assms(1), of h sram] by (simp add: thunk_code_def emitter_lengths)
  moreover have "1 \<le> length is" using assms(2) by (cases "is") auto
  ultimately show ?thesis by linarith
qed

lemma codegen_complete:
  assumes "length (buffer g) \<le> capacity g" "is \<noteq> []" "list_all (\<lambda>i. \<not> register_list_op (iop i)) is"
    "codegen_emit h g m is = (Some code, g')"
  shows "code = thunk_code h (flat_sram m) is \<and> buffer g' = buffer g @ code \<and> capacity g' = capacity g \<and>
    length (buffer g') \<le> capacity g'"
proof -
  let ?t = "thunk_code h (flat_sram m) is"
  have fits: "length (buffer g) + length is * 160 + 64 \<le> capacity g"
    and r: "code = drop (length (buffer g)) (buffer (foldl emit_b g ?t))" "g' = foldl emit_b g ?t"
    using assms(4) by (auto simp: codegen_emit_def Let_def split: if_splits)
  have "length ?t \<le> capacity g - length (buffer g)"
    using thunk_length [OF assms(3,2), of h "flat_sram m"] fits by linarith
  then have "foldl emit_b g ?t = g\<lparr>buffer := buffer g @ ?t\<rparr>" using emit_bytes [OF assms(1), of ?t] by simp
  then show ?thesis using r thunk_length [OF assms(3,2), of h "flat_sram m"] fits by simp
qed

text \<open>Whatever is emitted, the buffer never overflows.\<close>

lemma codegen_bounded:
  assumes "length (buffer g) \<le> capacity g" "codegen_emit h g m is = (c, g')"
  shows "capacity g' = capacity g \<and> length (buffer g') \<le> capacity g' \<and> take (length (buffer g)) (buffer g') = buffer g"
proof -
  have "g' = g \<or> g' = foldl emit_b g (thunk_code h (flat_sram m) is)"
    using assms(2) by (auto simp: codegen_emit_def Let_def split: if_splits)
  then show ?thesis using emit_bytes [OF assms(1)] assms(1) by (elim disjE) simp_all
qed


text \<open>
  With a register list the estimate is too small: near the end of the buffer the thunk of
  \<^verbatim>\<open>PUSH {r0-r7}\<close> loses its tail, and \<open>codegen_emit\<close> still returns it.
\<close>

lemma push_length:
  assumes "iop i = OP_PUSH" "ireg_list i = 0xFF"
  shows "458 \<le> length (thunk_code h None [i])"
proof -
  have r: "regs_in 0xFF 15 = [0, 1, 2, 3, 4, 5, 6, 7]" by (simp add: regs_in_def upt_rec)
  have "to16 (ireg_list i) = 0xFF" using assms(2) by simp
  then have "emit_op h None i = emit_push_v h None 0xFF"
    using assms(1) by (simp add: emit_op_def emit_alu_def emit_mem_def Let_def)
  then have "392 \<le> length (emit_op h None i)"
    by (simp add: emit_push_v_def r Let_def slow_store_def emitters add_edx_imm_def)
  then show ?thesis by (simp add: thunk_code_def emitter_lengths wrote_pc_def assms(1))
qed

lemma push_cut_short:
  assumes "iop i = OP_PUSH" "ireg_list i = 0xFF" "flat_sram m = None" "capacity g = length (buffer g) + 224"
  shows "fst (codegen_emit h g m [i]) = Some (take 224 (thunk_code h None [i])) \<and> 224 < length (thunk_code h None [i])"
proof -
  have "codegen_supports (iop i)" "insn_native_ok i" using assms(1) by (simp_all add: codegen_supports_def insn_native_ok_def)
  then show ?thesis
    using assms(3,4) push_length [OF assms(1,2), of h] emit_bytes [of g "thunk_code h None [i]"]
    by (simp add: codegen_emit_def Let_def)
qed

end
