(* ===== verification/Codegen_Native.thy ===== *)
theory Codegen_Native
  imports Codegen_Block Codegen_Size Run_Laws
begin

text \<open>
  Compiled blocks in the block cache: what \<open>run_block\<close> does with native code, next to what it does
  without, and where the two part.
\<close>

section \<open>Straight blocks\<close>

lemma straight_no_list: "straight_block h is \<Longrightarrow> list_all (\<lambda>i. \<not> register_list_op (iop i)) is"
proof -
  have n: "native_plain k i \<Longrightarrow> \<not> register_list_op (iop i)" for k i
    by (auto simp: native_plain_def register_list_op_def emit_alu_def emit_mem_def Let_def split: if_splits)
  have b: "branch_plain i \<Longrightarrow> \<not> register_list_op (iop i)" for i
    by (auto simp: branch_plain_def register_list_op_def)
  show "straight_block h is \<Longrightarrow> list_all (\<lambda>i. \<not> register_list_op (iop i)) is"
    by (induction h "is" rule: straight_block.induct) (auto dest: n b)
qed

lemma native_run_block:
  assumes "callable h \<or> list_all (\<lambda>i. \<not> calls_bus h i) (ins bk)" "straight_block h (ins bk)" "\<not> cpu_in_it (cpu m)"
    "interp_block (ins bk) m = Some (length (ins bk), m')"
    "codegen_emit h g m0 (ins bk) = (native bk, g')" "native bk \<noteq> None" "length (buffer g) \<le> capacity g"
  shows "run_block h j bk m = Some (length (ins bk),
      j\<lparr>native_steps := native_steps j + of_nat (length (ins bk)), jit_steps := jit_steps j + of_nat (length (ins bk))\<rparr>,
      cpu_update (cycles_update (\<lambda>_. cycles (cpu m))) m')"
proof -
  obtain code where code: "native bk = Some code" using assms(6) by blast
  have ne: "ins bk \<noteq> []" by (rule straight_not_empty [OF assms(2)])
  have "code = thunk_code h (flat_sram m0) (ins bk)"
    using codegen_complete [OF assms(7) ne straight_no_list [OF assms(2)], of h m0 code g'] assms(5) code by simp
  then show ?thesis
    using native_block [OF assms(1-4), of "flat_sram m0"] code ne by (simp add: run_block_def Let_def)
qed

section \<open>An access that the bus refuses\<close>

lemma load_ends_refused:
  assumes "to8 (gp s 0) = 0" "10 \<le> length (stk s)"
  shows "\<exists>s'. runs h (mov_ecx_rsp0 @ add_rsp_16 @
      (if sz = 1 then [0x81, 0xE1] @ emit_w32 0xFF else if sz = 2 then [0x81, 0xE1] @ emit_w32 0xFFFF else []) @
      test_al_jnz 5 @ or_bl_1 @ jmp_short 7 @ st_ecx d) s s' \<and>
    mem s' = mem s \<and> stk s' = drop 2 (stk s) \<and> to8 (gp s' 3) \<noteq> 0 \<and> (\<forall>r \<in> {5,7,12,13,14,15}. gp s' r = gp s r)"
proof -
  have len: "2 \<le> length (stk s)" "stk s \<noteq> []" using assms(2) by auto
  have nz: "x OR 1 \<noteq> 0" for x :: u8 by (simp add: u8_eq_iff bit_simps)
  note step = x86_steps run_mov_ecx_hd assms(1) len
  show ?thesis
    unfolding runs_def
    by (cases "sz = 1"; cases "sz = 2"; simp only: if_True if_False;
      (rule exI, rule conjI, rule allI, simp add: step, simp add: nz))
qed

lemma load_refused:
  assumes "in_thunk h s" "callable h" "n < 16" "bus_read (mem s) (reg (mem s) n + imm) sz = (None, m1)"
  shows "\<exists>s'. runs h (emit_load h d n imm sz) s s' \<and> in_thunk h s' \<and> to8 (gp s' 3) \<noteq> 0 \<and> mem s' = m1"
proof -
  have f: "framed h s" and g: "gp s 15 = at_cpu h" using assms(1) by (simp_all add: in_thunk_def framed_def)
  obtain s1 where s1: "runs h (ld_eax n @ (if imm \<noteq> 0 then add_imm imm else [])) s s1" "mem s1 = mem s"
    "gp s1 0 = to64 (reg (mem s) n + imm)" "kept s s1"
    using address [OF g assms(3), of imm] by (auto simp: does_def)
  have "bus_read (mem s1) (to32 (gp s1 0)) sz = (None, m1)" using s1 assms(4) by simp
  from load_called [OF kept_framed [OF s1(4) f] assms(2) this] obtain s2 where s2: "runs h (sub_rsp_16 @ mov_rcx_r14 @ mov_edx_eax @
      mov_r8d_imm sz @ lea_r9_rsp0 @ mov_rax_imm64 (at_bus_read h) @ call_rax) s1 s2" "mem s2 = m1" "to8 (gp s2 0) = 0"
    "length (stk s2) = 10" "drop 4 (drop 2 (stk s2)) = drop 4 (stk s1)" "\<forall>r \<in> {3,5,6,7,12,13,14,15}. gp s2 r = gp s1 r" by auto
  from load_ends_refused [OF s2(3), of h sz d] s2(4) obtain s3 where s3: "runs h (mov_ecx_rsp0 @ add_rsp_16 @
      (if sz = 1 then [0x81, 0xE1] @ emit_w32 0xFF else if sz = 2 then [0x81, 0xE1] @ emit_w32 0xFFFF else []) @
      test_al_jnz 5 @ or_bl_1 @ jmp_short 7 @ st_ecx d) s2 s3" "mem s3 = m1" "stk s3 = drop 2 (stk s2)"
    "to8 (gp s3 3) \<noteq> 0" "\<forall>r \<in> {5,7,12,13,14,15}. gp s3 r = gp s2 r" using s2(2) by auto
  have "runs h (emit_load h d n imm sz) s s3"
    using runs_append [OF s1(1) runs_append [OF s2(1) s3(1)]] by (simp add: emit_load_def emit_load_from_eax_def)
  moreover have "in_thunk h s3"
    using assms(1) s1(4) s2(4-6) s3(3,5) by (simp add: in_thunk_def framed_def kept_def)
  ultimately show ?thesis using s3(2,4) by blast
qed

lemma call_thunk_refused:
  assumes "\<And>s. in_thunk h s \<Longrightarrow> mem s = m \<Longrightarrow> \<exists>s'. runs h body s s' \<and> in_thunk h s' \<and> to8 (gp s' 3) \<noteq> 0 \<and> mem s' = m'"
  shows "x86_call h (emit_prologue @ emit_clear_fail @ body @ emit_epilogue_check) m =
    Some (False, cpu_update (halted_update (\<lambda>_. True)) m')"
proof -
  obtain s1 where s1: "runs h (emit_prologue @ emit_clear_fail) (entered h m) s1" "mem s1 = m" "in_thunk h s1"
    using prologue_runs by blast
  then obtain s2 where s2: "runs h body s1 s2" "in_thunk h s2" "to8 (gp s2 3) \<noteq> 0" "mem s2 = m'" using assms by blast
  from run_epilogue_failed [OF s2(2,3)] obtain s3 where s3: "x86_run h emit_epilogue_check s2 = Some s3"
    "mem s3 = cpu_update (halted_update (\<lambda>_. True)) m'" "to8 (gp s3 0) = 0"
    "\<forall>r \<in> set [3, 5, 6, 7, 12, 13, 14, 15]. gp s3 r = entry h r" using s2(4) by blast
  have "x86_run h (emit_prologue @ emit_clear_fail @ body @ emit_epilogue_check) (entered h m) = Some s3"
    using runs_append [OF s1(1) s2(1)] s3(1) unfolding runs_def append_assoc by metis
  then show ?thesis using s3 by (simp add: x86_call_def entered_def Let_def)
qed

text \<open>
  A block whose load is refused in the middle: the instructions before it have run, native code
  goes on with those behind it, and only the epilogue halts the processor.
\<close>

definition load_size :: "opcode_t \<Rightarrow> u32" where
  "load_size op = (if op = OP_LDRB_IMM then 1 else if op = OP_LDRH_IMM then 2 else 4)"

lemma load_imm_emitted:
  assumes "iop i \<in> {OP_LDR_IMM, OP_LDRB_IMM, OP_LDRH_IMM}"
  shows "emit_op h sram i = emit_load h (ird i) (irn i) (iimm i) (load_size (iop i))" "\<not> wrote_pc [i]"
  using assms by (auto simp: emit_op_def emit_alu_def emit_mem_def Let_def load_size_def wrote_pc_def)

text \<open>A row of plain instructions, without the store of the PC at its end.\<close>

lemma row_leaves:
  assumes "callable h"
  shows "list_all (native_plain h) is \<Longrightarrow> framed h s \<Longrightarrow> \<not> cpu_in_it (cpu (mem s)) \<Longrightarrow>
    interp_block is (warp p n (mem s)) = Some (length is, m') \<Longrightarrow>
    \<exists>m q. leaves_m h (concat (map (emit_op h sram) is)) s m \<and> m' = warp q (n + of_nat (length is)) m \<and> same_it (mem s) m"
proof (induction "is" arbitrary: s p n)
  case Nil
  have "leaves_m h [] s (mem s)" unfolding leaves_m_def runs_def kept_def by (rule exI [of _ s]) simp
  then show ?case using Nil(4) by (auto simp: same_it_def)
next
  case (Cons i "is")
  have p: "native_plain h i" using Cons.prems(1) by simp
  obtain m1 where e: "execute (set_reg (warp p n (mem s)) 15 (ipc i)) i = Some (True, m1)"
    and rest: "interp_block is m1 = Some (length is, m')"
    using Cons.prems(4) native_goes_on(1) [OF p] by (auto split: if_splits bind_splits)
  obtain m where m: "leaves_m h (emit_op h sram i) s m"
    "m1 = warp (ipc i + to32 (isize i)) (n + 1) m" "same_it (mem s) m"
    using plain_step [OF Cons.prems(2) assms p Cons.prems(3) e, of sram] by blast
  have "\<exists>m2. leaves_m h (emit_op h sram i @ concat (map (emit_op h sram) is)) s m2 \<and>
      ((\<exists>q. m' = warp q (n + of_nat (length (i # is))) m2) \<and> same_it (mem s) m2)"
  proof (rule leaves_then [OF m(1)])
    fix s1 :: xstate assume s1: "kept s s1" "mem s1 = m"
    have "\<not> cpu_in_it (cpu (mem s1))" using Cons.prems(3) same_it_in_it [OF m(3)] s1(2) by simp
    moreover have "interp_block is (warp (ipc i + to32 (isize i)) (n + 1) (mem s1)) = Some (length is, m')"
      using rest m(2) s1(2) by simp
    ultimately obtain m2 q where m2: "leaves_m h (concat (map (emit_op h sram) is)) s1 m2"
      "m' = warp q (n + 1 + of_nat (length is)) m2" "same_it (mem s1) m2"
      using Cons.IH [OF _ kept_framed [OF s1(1) Cons.prems(2)], of "ipc i + to32 (isize i)" "n + 1"] Cons.prems(1) by auto
    have "same_it (mem s) m2" using same_it_trans [OF m(3)] m2(3) s1(2) by simp
    moreover have "m' = warp q (n + of_nat (length (i # is))) m2" using m2(2) by (simp add: add.assoc)
    ultimately show "\<exists>m2. leaves_m h (concat (map (emit_op h sram) is)) s1 m2 \<and>
        ((\<exists>q. m' = warp q (n + of_nat (length (i # is))) m2) \<and> same_it (mem s) m2)" using m2(1) by blast
  qed
  then show ?case by auto
qed

text \<open>What follows in the block, the store of the PC included.\<close>

lemma rest_leaves:
  assumes "callable h" "post = [] \<or> straight_block h post" "framed h s" "\<not> cpu_in_it (cpu (mem s))"
    "interp_block post (warp v n (mem s)) = Some (length post, m')"
  shows "\<exists>m. leaves_m h (if post = [] then st_pc v else block_code h sram post) s m \<and>
    m' = warp (reg m 15) (n + of_nat (length post)) m \<and> same_it (mem s) m"
proof (cases "post = []")
  case True
  have "leaves_m h (st_pc v) s (set_reg (mem s) 15 v)" using leaves_st_pc assms(3) by (simp add: framed_def)
  then show ?thesis using True assms(5) by (intro exI [of _ "set_reg (mem s) 15 v"]) (simp add: warp_of_pc same_it_pc)
next
  case False
  then show ?thesis using block_leaves [OF _ _ assms(3,4,5), of sram] assms(1,2) by auto
qed

lemma straight_parts:
  assumes "straight_block h (pre @ i # post)" "\<not> branch_plain i"
  shows "list_all (native_plain h) pre \<and> native_plain h i \<and> (post = [] \<or> straight_block h post)"
  using assms
proof (induction pre)
  case Nil
  then show ?case by (cases post) auto
next
  case (Cons j pre)
  then show ?case by (cases pre) auto
qed

lemma thunk_split:
  assumes "\<not> wrote_pc [i]"
  shows "thunk_code h sram (pre @ i # post) = emit_prologue @ emit_clear_fail @ (concat (map (emit_op h sram) pre) @
    emit_op h sram i @ (if post = [] then st_pc (ipc i + to32 (isize i)) else block_code h sram post)) @ emit_epilogue_check"
  using assms by (auto simp: thunk_code_def block_code_def wrote_pc_def)

lemma thunk_load_refused:
  assumes op: "iop i \<in> {OP_LDR_IMM, OP_LDRB_IMM, OP_LDRH_IMM}" and c: "callable h"
    and st: "straight_block h (pre @ i # post)" and it: "\<not> cpu_in_it (cpu m)"
    and pre: "interp_block pre m = Some (length pre, m1)"
    and ref: "bus_read m1 (reg m1 (irn i) + iimm i) (load_size (iop i)) = (None, m2)"
    and post: "interp_block post (set_reg m2 15 (ipc i + to32 (isize i))) = Some (length post, m3)"
  shows "x86_call h (thunk_code h sram (pre @ i # post)) m =
    Some (False, cpu_update (halted_update (\<lambda>_. True)) (cpu_update (cycles_update (\<lambda>_. cycles (cpu m))) m3))"
proof -
  let ?v = "ipc i + to32 (isize i)" and ?n = "cycles (cpu m)" and ?sz = "load_size (iop i)"
  let ?m = "cpu_update (cycles_update (\<lambda>_. cycles (cpu m))) m3"
  let ?body = "concat (map (emit_op h sram) pre) @ emit_op h sram i @
    (if post = [] then st_pc ?v else block_code h sram post)"
  note em = load_imm_emitted [OF op]
  have nb: "\<not> branch_plain i" using op by (auto simp: branch_plain_def)
  note parts = straight_parts [OF st nb]
  have n15: "irn i < 15" "irn i < 16" "irn i \<noteq> 15"
    using parts op by (auto simp: native_plain_def alu_plain_def mem_plain_def word_less_nat_alt split: if_splits)
  have w: "warp (reg m 15) ?n m = m" by (cases m) (simp add: warp_self)
  have "\<exists>s'. runs h ?body s s' \<and> in_thunk h s' \<and> to8 (gp s' 3) \<noteq> 0 \<and> mem s' = ?m" if s: "in_thunk h s" "mem s = m" for s
  proof -
    have f: "framed h s" using s(1) by (simp add: in_thunk_def)
    have "interp_block pre (warp (reg m 15) ?n (mem s)) = Some (length pre, m1)" using pre w s(2) by simp
    then obtain k q where k: "leaves_m h (concat (map (emit_op h sram) pre)) s k"
      "m1 = warp q (?n + of_nat (length pre)) k" "same_it m k"
      using row_leaves [OF c _ f, of pre "reg m 15" ?n m1 sram] parts it s(2) by auto
    then obtain s1 where s1: "runs h (concat (map (emit_op h sram) pre)) s s1" "mem s1 = k" "kept s s1"
      by (auto simp: leaves_m_def)
    let ?n1 = "?n + of_nat (length pre)"
    obtain k2 where k2: "bus_read k (reg k (irn i) + iimm i) ?sz = (None, k2)" "m2 = warp q ?n1 k2"
      using ref n15(3) unfolding k(2) wr.bus_read_up by (cases "bus_read k (reg k (irn i) + iimm i) ?sz") (auto simp: warp_cpu_def)
    have "bus_read (mem s1) (reg (mem s1) (irn i) + iimm i) ?sz = (None, k2)" using k2(1) s1(2) by simp
    from load_refused [OF kept_in_thunk [OF s1(3) s(1)] c n15(2) this, of "ird i"] obtain s2 where
      s2: "runs h (emit_op h sram i) s1 s2" "in_thunk h s2" "to8 (gp s2 3) \<noteq> 0" "mem s2 = k2"
      unfolding em(1) by blast
    have it2: "same_it m k2" using same_it_trans [OF k(3) access_same_it(1) [OF k2(1)]] .
    have "interp_block post (warp ?v ?n1 (mem s2)) = Some (length post, m3)"
      using post unfolding k2(2) s2(4) warp_pc .
    moreover have "framed h s2" "\<not> cpu_in_it (cpu (mem s2))"
      using s2(2,4) it same_it_in_it [OF it2] by (simp_all add: in_thunk_def)
    ultimately obtain k3 where k3: "leaves_m h (if post = [] then st_pc ?v else block_code h sram post) s2 k3"
      "m3 = warp (reg k3 15) (?n1 + of_nat (length post)) k3" "same_it (mem s2) k3"
      using rest_leaves [OF c] parts by blast
    then obtain s3 where s3: "runs h (if post = [] then st_pc ?v else block_code h sram post) s2 s3" "mem s3 = k3" "kept s2 s3"
      by (auto simp: leaves_m_def)
    have "same_it m k3" using same_it_trans [OF it2] k3(3) s2(4) by simp
    then have "?m = k3" using k3(2) by (cases k3; cases "cpu k3") (simp add: same_it_def warp_cpu_def fun_upd_idem)
    moreover have "to8 (gp s3 3) \<noteq> 0" "in_thunk h s3" using s2(2,3) s3(3) kept_in_thunk by (simp_all add: kept_def)
    moreover have "runs h ?body s s3" using runs_append [OF s1(1) runs_append [OF s2(1) s3(1)]] .
    ultimately show ?thesis using s3(2) by blast
  qed
  from call_thunk_refused [OF this, of m] show ?thesis unfolding thunk_split [OF em(2)] by simp
qed

text \<open>Without native code the block ends at the load.\<close>

lemma interp_append:
  "list_all (\<lambda>i. \<not> is_terminator (iop i)) pre \<Longrightarrow> interp_block pre m = Some (length pre, m1) \<Longrightarrow>
   interp_block (pre @ is) m = do { (k, m2) \<leftarrow> interp_block is m1; Some (length pre + k, m2) }"
proof (induction pre arbitrary: m)
  case (Cons i pre)
  then obtain m' where e: "\<not> halted (cpu m)" "execute (set_reg m REG_PC (ipc i)) i = Some (True, m')"
    "interp_block pre m' = Some (length pre, m1)" by (auto split: if_splits bind_splits)
  show ?case using Cons.IH [OF _ e(3)] Cons.prems(1) e(1,2) by (cases "interp_block is m1") auto
qed (simp add: case_prod_unfold)

lemma interp_load_refused:
  assumes "iop i \<in> {OP_LDR_IMM, OP_LDRB_IMM, OP_LDRH_IMM}" "irn i < 15" "\<not> cpu_in_it (cpu m)" "\<not> halted (cpu m)"
    "bus_read m (reg m (irn i) + iimm i) (load_size (iop i)) = (None, m1)"
  shows "interp_block (i # is) m = Some (0, cpu_update (halted_update (\<lambda>_. True)) (set_reg m1 15 (ipc i)))"
proof -
  let ?w = "warp (ipc i) (cycles (cpu m))" and ?sz = "load_size (iop i)"
  have m1: "cycles (cpu m1) = cycles (cpu m)" using clock.bus_read_R [of m "reg m (irn i) + iimm i" ?sz] assms(5) by (simp add: same_clock_def)
  have w: "?w m = set_reg m 15 (ipc i)" "?w m1 = set_reg m1 15 (ipc i)"
    by (cases m; cases "cpu m"; simp add: warp_cpu_def) (cases m1; cases "cpu m1"; use m1 in \<open>simp add: warp_cpu_def\<close>)
  have b: "bus_read (set_reg m 15 (ipc i)) (reg m (irn i) + iimm i) ?sz = (None, set_reg m1 15 (ipc i))"
    using wr.bus_read_up [of "ipc i" "cycles (cpu m)" m "reg m (irn i) + iimm i" ?sz] assms(5) by (simp only: w apsnd_conv)
  have "exec_switch (set_reg m 15 (ipc i)) i np = halt_false (set_reg m1 15 (ipc i))" for np
  proof -
    consider "iop i = OP_LDR_IMM" | "iop i = OP_LDRB_IMM" | "iop i = OP_LDRH_IMM" using assms(1) by blast
    then show ?thesis
    proof cases
      case 1
      then show ?thesis using assms(2) b by (auto simp: alu_exec Let_def rd_def halt_false_def load_size_def)
    next
      case 2
      then show ?thesis using assms(2) b by (auto simp: alu_exec Let_def rd_def halt_false_def load_size_def)
    next
      case 3
      then show ?thesis using assms(2) b by (auto simp: alu_exec Let_def rd_def halt_false_def load_size_def)
    qed
  qed
  then have "execute (set_reg m 15 (ipc i)) i = Some (False, cpu_update (halted_update (\<lambda>_. True)) (set_reg m1 15 (ipc i)))"
    using assms(3) by (simp add: execute_def Let_def halt_false_def cpu_in_it_def)
  then show ?thesis using assms(4) by simp
qed

lemma row_in_it:
  assumes "callable h" "list_all (native_plain h) is" "\<not> cpu_in_it (cpu m)" "interp_block is m = Some (length is, m1)"
  shows "\<not> cpu_in_it (cpu m1)"
proof -
  have w: "warp (reg m 15) (cycles (cpu m)) m = m" by (cases m) (simp add: warp_self)
  obtain s1 :: xstate where s1: "mem s1 = m" "in_thunk h s1" using prologue_runs by blast
  then obtain k q where "m1 = warp q (cycles (cpu m) + of_nat (length is)) k" "same_it m k"
    using row_leaves [OF assms(1,2), of s1 "reg m 15" "cycles (cpu m)" m1 None] assms(3,4) w by (auto simp: in_thunk_def)
  then show ?thesis using assms(3) same_it_in_it [of m k] by (simp add: warp_pc)
qed

lemma native_load_stops:
  assumes op: "iop i \<in> {OP_LDR_IMM, OP_LDRB_IMM, OP_LDRH_IMM}" and c: "callable h"
    and st: "straight_block h (pre @ i # post)" and it: "\<not> cpu_in_it (cpu m)"
    and pre: "interp_block pre m = Some (length pre, m1)" and run: "\<not> halted (cpu m1)"
    and ref: "bus_read m1 (reg m1 (irn i) + iimm i) (load_size (iop i)) = (None, m2)"
    and post: "interp_block post (set_reg m2 15 (ipc i + to32 (isize i))) = Some (length post, m3)"
    and bk: "ins bk = pre @ i # post" "native bk = Some (thunk_code h sram (pre @ i # post))"
  shows "run_block h j bk m =
      Some (0, j, cpu_update (halted_update (\<lambda>_. True)) (cpu_update (cycles_update (\<lambda>_. cycles (cpu m))) m3)) \<and>
    interp_block (pre @ i # post) m = Some (length pre, cpu_update (halted_update (\<lambda>_. True)) (set_reg m2 15 (ipc i)))"
proof -
  have nb: "\<not> branch_plain i" using op by (auto simp: branch_plain_def)
  note parts = straight_parts [OF st nb]
  have "irn i < 15" using parts op by (auto simp: native_plain_def alu_plain_def mem_plain_def split: if_splits)
  moreover have "\<not> cpu_in_it (cpu m1)" using row_in_it [OF c _ it pre] parts by blast
  moreover have "list_all (\<lambda>i. \<not> is_terminator (iop i)) pre"
    using parts native_goes_on(1) by (auto simp: list_all_iff)
  ultimately show ?thesis
    using thunk_load_refused [OF op c st it pre ref post, of sram] interp_load_refused [OF op _ _ run ref, of post]
      interp_append [OF _ pre, of "i # post"] bk by (cases "pre @ i # post") (simp_all add: run_block_def)
qed

section \<open>The stack at a bus call\<close>

text \<open>
  Under the convention RSP is 8 mod 16 when the thunk is entered, and at its bus calls as well:
  without bus functions that realign the stack a block that loads has no defined behaviour.
\<close>

lemma run_call_rax_none: "call_bus h s (gp s 0) = None \<Longrightarrow> x86_run h (call_rax @ bs) s = None"
  by (subst x86_run.simps) (simp add: call_rax_def decode_simps)

lemma rsp_thunk:
  fixes x :: u64
  assumes "x AND 0xF = 8"
  shows "(x - 80) AND 0xF = 8"
proof -
  have u: "uint (y AND 0xF) = uint y mod 16" for y :: u64
  proof -
    have "y AND 0xF = take_bit 4 y" by (simp add: take_bit_eq_mask mask_eq_exp_minus_1)
    then show ?thesis by (simp only: unsigned_take_bit_eq) (simp add: take_bit_eq_mod)
  qed
  have "uint (x - 80) mod 16 = (uint x - 80) mod 16"
    by (simp add: uint_word_ariths mod_mod_cancel)
  also have "\<dots> = uint x mod 16" by (simp add: mod_diff_eq [symmetric])
  finally have "uint ((x - 80) AND 0xF) = uint (x AND 0xF)" unfolding u .
  then show ?thesis using assms by (metis word_uint_eqI)
qed

lemma load_misaligned:
  assumes "at_rsp h AND 0xF = 8" "\<not> realigns h" "iop i \<in> {OP_LDR_IMM, OP_LDRB_IMM, OP_LDRH_IMM}" "irn i < 16"
  shows "x86_call h (thunk_code h sram (i # is)) m = None"
proof -
  obtain s where s: "runs h (emit_prologue @ emit_clear_fail) (entered h m) s" "in_thunk h s" using prologue_runs by blast
  have f: "framed h s" and g: "gp s 15 = at_cpu h" using s(2) by (simp_all add: in_thunk_def framed_def)
  let ?sz = "load_size (iop i)"
  obtain s1 where s1: "runs h (ld_eax (irn i) @ (if iimm i \<noteq> 0 then add_imm (iimm i) else [])) s s1" "kept s s1"
    using address [OF g assms(4), of "iimm i"] by (auto simp: does_def)
  have l: "length (stk s1) = 8" using f s1(2) by (simp add: framed_def kept_def)
  have "\<exists>s2. runs h (sub_rsp_16 @ mov_rcx_r14 @ mov_edx_eax @ mov_r8d_imm ?sz @ lea_r9_rsp0 @ mov_rax_imm64 (at_bus_read h)) s1 s2 \<and>
      length (stk s2) = 10"
    unfolding runs_def by (rule exI, rule conjI, rule allI, simp add: x86_steps, simp add: l)
  then obtain s2 where s2: "runs h (sub_rsp_16 @ mov_rcx_r14 @ mov_edx_eax @ mov_r8d_imm ?sz @ lea_r9_rsp0 @ mov_rax_imm64 (at_bus_read h)) s1 s2"
      "length (stk s2) = 10" by blast
  have "rsp h s2 AND 0xF \<noteq> 0" using rsp_thunk [OF assms(1)] s2(2) by (simp add: rsp_def)
  then have n: "call_bus h s2 (gp s2 0) = None" using assms(2) by (simp add: call_bus_def)
  have call: "x86_run h (call_rax @ bs) s2 = None" for bs using n by (simp add: run_call_rax_none)
  obtain bs where "thunk_code h sram (i # is) = (emit_prologue @ emit_clear_fail) @
      (ld_eax (irn i) @ (if iimm i \<noteq> 0 then add_imm (iimm i) else [])) @
      (sub_rsp_16 @ mov_rcx_r14 @ mov_edx_eax @ mov_r8d_imm ?sz @ lea_r9_rsp0 @ mov_rax_imm64 (at_bus_read h)) @ call_rax @ bs"
    using load_imm_emitted(1) [OF assms(3), of h sram] by (auto simp: thunk_code_def emit_load_def emit_load_from_eax_def)
  then have "x86_run h (thunk_code h sram (i # is)) (entered h m) = None"
    using s(1) s1(1) s2(1) call unfolding runs_def by metis
  then show ?thesis by (simp add: x86_call_def entered_def Let_def)
qed

section \<open>IT blocks\<close>

text \<open>Native code does not look at the IT state: it executes what the interpreter skips.\<close>

lemma thunk_ignores_it:
  assumes "iop i = OP_T32_MOVW" "ird i < 15" "irn i < 15" "irm i < 15" "cpu_in_it (cpu m)" "\<not> it_pass (cpu m)"
  shows "(\<exists>m1. x86_call h (thunk_code h sram [i]) m = Some (True, m1) \<and> reg m1 (ird i) = iimm i \<and>
      itstate (cpu m1) = itstate (cpu m)) \<and>
    (\<exists>m2. execute m i = Some (True, m2) \<and> reg m2 (ird i) = reg m (ird i))"
proof -
  have g: "in_thunk h s \<Longrightarrow> gp s 15 = at_cpu h" for s by (simp add: in_thunk_def framed_def)
  have d: "ird i < 16" "ird i \<noteq> 15" using assms(2) by (auto simp: word_less_nat_alt)
  let ?body = "mov_eax_imm (iimm i) @ st_eax (ird i) @ st_pc (ipc i + to32 (isize i))"
  let ?m = "set_reg (set_reg m (ird i) (iimm i)) 15 (ipc i + to32 (isize i))"
  have "leaves_m h ?body s ?m" if "in_thunk h s" "mem s = m" for s
    unfolding leaves_m_def runs_def
    by (rule exI, rule conjI, rule allI, simp add: x86_steps g [OF that(1)] d, simp add: kept_def that(2))
  from call_thunk [OF this, of m] have "x86_call h (emit_prologue @ emit_clear_fail @ ?body @ emit_epilogue_check) m = Some (True, ?m)"
    by simp
  moreover have "thunk_code h sram [i] = emit_prologue @ emit_clear_fail @ ?body @ emit_epilogue_check"
    using assms(1) by (simp add: thunk_code_def wrote_pc_def emit_op_def emit_alu_def Let_def)
  moreover have "\<exists>m2. execute m i = Some (True, m2) \<and> reg m2 (ird i) = reg m (ird i)"
    using assms(5,6) d by (simp add: execute_def Let_def retire_def cpu_it_advance_state)
  ultimately show ?thesis using d by auto
qed

end
