(* ===== verification/Scenarios.thy ===== *)
theory Scenarios
  imports Demo Run_Laws Replay_Total Uart_Fifo Bits_Laws Cache_Laws Stack_Laws Board_Laws Irq_Laws Eth_Laws
    Map_Laws Decoder_Laws Codegen_Native
begin

text \<open>
  The concrete situations in which the theorems with hypotheses are applied: a snapshot of the
  demo machine and a store of snapshots, an event log, pairs of instructions, an interrupt
  controller with two pending lines, a halted processor, a compiled block.
\<close>

definition demo_bytes :: "snap_blob_t \<Rightarrow> u8 list" where
  "demo_bytes b = [to8 (magic b), to8 (version b), to8 (sram_size b)]"

definition demo_blob0 :: snap_blob_t where
  "demo_blob0 = \<lparr>magic = 0, version = 0, sn_cycle = 0, sn_cpu = cpu demo_machine, sn_st = systick_init,
     sn_nvic = nvic_init, sn_scb = scb_init, sn_mpu = mpu_init, sn_dwt = dwt_init, sn_stm32 = stm32_init,
     eth_state = eth_init, uart_state = d_uart demo_machine, sram_size = 0, sram = (\<lambda>_. 0), checksum = 0\<rparr>"

definition demo_blob :: snap_blob_t where
  "demo_blob = snd (snap_save demo_bytes demo_blob0 demo_machine)"

lemma demo_sram: "regions m = regions demo_machine \<Longrightarrow>
    bus_find_flat (regions m) SRAM_BASE_ADDR = Some 1 \<and> rsize (regions m ! 1) = 0x40000"
  by (simp add: demo_regions)

lemma demo_saved: "snap_save demo_bytes demo_blob0 demo_machine = (True, demo_blob)"
  using demo_sram [OF refl] by (simp add: demo_blob_def snap_save_def Let_def)

lemma demo_blob_fields:
  "magic demo_blob = SNAP_MAGIC" "version demo_blob = SNAP_VERSION" "sram_size demo_blob = SRAM_SIZE"
  "checksum demo_blob = 0x00000130" "sn_cycle demo_blob = 0" "sn_cpu demo_blob = cpu demo_machine"
  using demo_sram [OF refl] demo_cpu(5) unfolding demo_blob_def by (simp_all add: snap_save_def Let_def demo_bytes_def)

lemma demo_blob_valid: "blob_valid demo_bytes demo_blob"
  by (simp add: blob_valid_def demo_blob_fields demo_bytes_def)

definition demo_tt :: tt_t where
  "demo_tt = \<lparr>stride = 10, max_snaps = 4, snaps = [demo_blob], tt_idx = [\<lparr>se_cycle = 0, snap_idx = 0\<rparr>],
     tt_log = ev_log_init (\<lambda>_. True) 16, frames = []\<rparr>"

definition demo_replay :: replay_t where
  "demo_replay = \<lparr>rp_ctx = demo_ctx, rp_dwt = True, rp_frames = None, rp_log = []\<rparr>"

lemma demo_tt_ok: "tt_ok demo_tt" "log_sorted (lg_buf (tt_log demo_tt))"
  using demo_cpu(5) by (simp_all add: tt_ok_def demo_tt_def demo_blob_fields log_sorted_def ev_log_init_def Let_def)

lemma demo_run_ok: "run_ok demo_run"
  by (simp add: run_ok_def demo_run_def)

lemma demo_sram_writable: "sram_writable demo_machine"
  by (simp add: sram_writable_def demo_regions)

text \<open>
  Rewinding to cycle 2 with two events in the log, of which the one at cycle 0 is injected: two
  instructions run.
\<close>

definition demo_events :: "ev_t list" where
  "demo_events = map (\<lambda>c. \<lparr>ev_cycle = c, ev_kind = EVENT_IRQ_INJECT, payload = 3\<rparr>) [0, 7]"

definition demo_rewound :: tt_t where
  "demo_rewound = demo_tt\<lparr>tt_log := \<lparr>lg_buf = demo_events, lg_cap = 4, lg_pos = 0\<rparr>\<rparr>"

lemma demo_rewound_ok: "tt_ok demo_rewound" "log_sorted (lg_buf (tt_log demo_rewound))"
  "lg_buf (tt_log demo_rewound) = demo_events"
  using demo_tt_ok(1) by (simp_all add: demo_rewound_def tt_ok_def log_sorted_def demo_events_def)

lemma demo_seek: "ev_log_seek (tt_log demo_rewound) 0 = 0"
proof -
  have "splits_at demo_events 0 (ev_log_seek (tt_log demo_rewound) 0)"
    using ev_log_seek_splits [OF demo_rewound_ok(2), of 0] by (simp add: demo_rewound_def)
  then show ?thesis by (auto simp: splits_at_def)
qed

lemma demo_restore: "\<exists>s1. snap_restore demo_bytes False (stack_insn demo_ctx) demo_blob demo_run = Some (True, s1) \<and>
    cpu (mach s1) = cpu demo_machine \<and> quiet (mach s1) \<and> jit s1 = None"
proof -
  have k: "bus_find_flat (regions (mach demo_run)) SRAM_BASE_ADDR = Some 1"
    using demo_sram [of demo_machine] by (simp add: demo_run_def)
  have sz: "\<not> rsize (regions (mach demo_run) ! 1) < SRAM_SIZE" using demo_sram [of demo_machine] by (simp add: demo_run_def)
  let ?s = "demo_run\<lparr>mach := restore_machine demo_blob (mach demo_run) 1, dcache := dcache_invalidate (stack_insn demo_ctx),
     jit := jit demo_run\<rparr>"
  have "snap_restore demo_bytes False (stack_insn demo_ctx) demo_blob demo_run = Some (True, ?s)"
    using k sz by (simp add: snap_restore_def demo_blob_valid)
  moreover have "quiet (mach ?s)"
    using demo_quiet demo_sram [OF refl]
    by (simp add: quiet_def restore_machine_def demo_run_def demo_blob_def snap_save_def Let_def demo_regions)
  ultimately show ?thesis
    by (intro exI [of _ ?s]) (simp add: restore_machine_def demo_blob_fields demo_run_def)
qed

lemma demo_rewind: "\<exists>s'. tt_rewind demo_bytes False demo_replay demo_rewound 2 demo_run = Some (True, s')"
proof -
  let ?rp = "demo_replay\<lparr>rp_log := demo_events\<rparr>"
  obtain s1 where s1: "snap_restore demo_bytes False (stack_insn demo_ctx) demo_blob demo_run = Some (True, s1)"
    "cpu (mach s1) = cpu demo_machine" "quiet (mach s1)" "jit s1 = None" using demo_restore by blast
  let ?m = "mach s1\<lparr>d_nvic := nvic_set_pending (d_nvic (mach s1)) 3\<rparr>"
  have c: "cycles (cpu (mach s1)) = 0" "reg ?m REG_PC = 8" using s1(2) demo_cpu(5) demo_cpu(1) [of REG_PC] by simp_all
  have d: "drain (rp_frames ?rp) (drop 0 (rp_log ?rp)) (mach s1) = Some (?m, 1)"
    using c by (simp add: demo_events_def tt_inject_event_def)
  have stop: "stop_at ?rp 1 2 = 2" by (simp add: stop_at_def demo_events_def)
  have q: "quiet ?m" using s1(3) by (simp add: quiet_def nvic_set_pending_def Let_def)
  from quiet_runs [of "s1\<lparr>mach := ?m\<rparr>" "g_nvic_for_run ?m"] obtain s2 where
    s2: "run_steps_full_gc (demo_ctx\<lparr>with_nvic := g_nvic_for_run ?m\<rparr>) (s1\<lparr>mach := ?m\<rparr>) 2 = Some (2, s2)" "cycles (cpu (mach s2)) = 2"
    using q s1(4) c by auto
  have "run_steps_full_g (rp_ctx ?rp) (rp_dwt ?rp) (s1\<lparr>mach := ?m\<rparr>) 2 = Some (2, s2)"
    using s2(1) by (simp add: run_steps_full_g_def ctx_of_globals_def demo_replay_def demo_ctx_def)
  moreover have "until_loop ?rp 2 s2 1 = Some (s2, 1)" using s2(2) by (subst until_loop.simps) simp
  ultimately have "until_loop ?rp 2 s1 0 = Some (s2, 1)"
    using c d stop s2(2) by (subst until_loop.simps) (simp add: Let_def)
  moreover have "tt_bsearch_le (tt_idx demo_rewound) 2 = 0"
    by (simp add: tt_bsearch_le_def demo_rewound_def demo_tt_def bsearch_loop.simps)
  moreover have "stack_insn (rp_ctx demo_replay) = stack_insn demo_ctx" "snaps demo_rewound = [demo_blob]"
    "tt_idx demo_rewound = [\<lparr>se_cycle = 0, snap_idx = 0\<rparr>]"
    by (simp_all add: demo_replay_def demo_rewound_def demo_tt_def)
  ultimately show ?thesis
    using s1(1) c demo_seek by (simp add: tt_rewind_def demo_rewound_ok(3) run_until_cycle_def Let_def)
qed

definition demo_log :: ev_log_t where
  "demo_log = \<lparr>lg_buf = map (\<lambda>c. \<lparr>ev_cycle = c, ev_kind = EVENT_IRQ_INJECT, payload = 3\<rparr>) [5, 7, 7, 9], lg_cap = 4, lg_pos = 0\<rparr>"

lemma demo_trace: "rom_trace demo_ctx 1 demo_machine"
proof -
  have "rom_pc demo_machine 8" by (simp add: rom_pc_def demo_regions)
  then show ?thesis using demo_cpu(1) [of REG_PC] by (auto split: option.splits bool.splits)
qed

lemma demo_straight: "straight (stack_insn demo_ctx) (Suc (Suc 0)) 8 demo_machine"
proof -
  let ?i0 = "stack_insn demo_ctx" and ?m = demo_machine
  have rom: "rom_pc m 8" "rom_pc m 10" if "regions m = regions ?m" for m
    using that by (simp_all add: rom_pc_def demo_regions)
  let ?j = "fst (snd (decode ?m 8 ?i0))\<lparr>ipc := 8\<rparr>"
  obtain f where f: "execute ?m ?j = Some (True, cpu_update f ?m)" "stepped (cpu ?m) 5 (f (cpu ?m))"
    using demo_exec(1) [of ?j ?m] demo_cpu demo_decode(1) [OF demo_regions, of ?i0] by auto
  have "reg (cpu_update f ?m) REG_PC = 10" using f(2) demo_cpu(1) by (simp add: stepped_def)
  then show ?thesis
    using rom f(1) demo_decode(1) [OF demo_regions, of ?i0]
    by (simp add: Let_def case_prod_unfold split: option.split bool.split)
qed

definition demo_push :: insn_t where
  "demo_push = (stack_insn demo_ctx)\<lparr>iop := OP_PUSH, ireg_list := 0x4011, isize := 2\<rparr>"

definition demo_pop :: insn_t where
  "demo_pop = (stack_insn demo_ctx)\<lparr>iop := OP_POP, ireg_list := 0x8011, isize := 2\<rparr>"

lemma demo_pushed: "pushed demo_push = [0, 4, 14]"
  by (simp add: pushed_def demo_push_def upt_rec)

definition demo_nvic :: nvic_t where
  "demo_nvic = nvic_set_pending (nvic_set_pending
     (nvic_init\<lparr>nv_enable := (\<lambda>_. -1), nv_prio := (\<lambda>_. 0)(3 := 9)\<rparr>) 4) 3"

lemma demo_nvic_ready: "is_ready demo_nvic i \<longleftrightarrow> i = 4 \<or> i = 3" "nv_prio demo_nvic = (\<lambda>_. 0)(3 := 9)"
proof -
  have "line (nv_pending demo_nvic) i \<longleftrightarrow> i = 4 \<or> i = 3"
    by (auto simp: demo_nvic_def) (auto simp: nvic_init_def line_def)
  moreover have e: "nv_enable demo_nvic = (\<lambda>_. -1)" "nv_active demo_nvic = (\<lambda>_. 0)"
    "nv_prio demo_nvic = (\<lambda>_. 0)(3 := 9)"
    by (simp_all add: demo_nvic_def nvic_set_pending_def nvic_init_def Let_def)
  ultimately show "is_ready demo_nvic i \<longleftrightarrow> i = 4 \<or> i = 3" "nv_prio demo_nvic = (\<lambda>_. 0)(3 := 9)"
    by (auto simp: is_ready_def line_def)
qed

lemma demo_nvic_pick: "nvic_pick demo_nvic = Some (Some 4)"
proof -
  have "\<forall>i. 240 \<le> i \<and> i < 256 \<longrightarrow> \<not> is_ready demo_nvic i" by (auto simp: demo_nvic_ready)
  from nvic_pick_spec [OF this] show ?thesis by (simp add: demo_nvic_ready)
qed

text \<open>A halted processor: an iteration returns and none goes on.\<close>

definition halted_run :: run_t where
  "halted_run = demo_run\<lparr>mach := cpu_update (halted_update (\<lambda>_. True)) demo_machine\<rparr>"

lemma halted_stays:
  "run_steps_full_g (rp_ctx demo_replay) (rp_dwt demo_replay) (halted_run\<lparr>mach := mach halted_run\<rparr>) gap =
    Some (0, halted_run\<lparr>dcache := dcache_invalidate (stack_insn demo_ctx)\<rparr>)"
  by (simp add: run_steps_full_g_def run_steps_full_gc_def ctx_of_globals_def halted_run_def demo_replay_def
      run_loop.simps [of _ "unat gap"])

lemma halted_iteration:
  "iteration_returns demo_replay 5 halted_run 0" "\<not> until_step demo_replay 5 (halted_run, 0) x"
proof -
  have d: "drain (rp_frames demo_replay) (drop 0 (rp_log demo_replay)) (mach halted_run) = Some (mach halted_run, 0)"
    by (simp add: demo_replay_def)
  show "iteration_returns demo_replay 5 halted_run 0"
    unfolding iteration_returns_def using d halted_stays by blast
  show "\<not> until_step demo_replay 5 (halted_run, 0) x"
  proof
    assume "until_step demo_replay 5 (halted_run, 0) x"
    then show False
    proof (rule until_stepE)
      fix m1 k n s2
      assume e: "drain (rp_frames demo_replay) (drop 0 (rp_log demo_replay)) (mach halted_run) = Some (m1, k)"
        "run_steps_full_g (rp_ctx demo_replay) (rp_dwt demo_replay) (halted_run\<lparr>mach := m1\<rparr>)
           (stop_at demo_replay (0 + k) 5 - cycles (cpu m1)) = Some (n, s2)"
        "cycles (cpu (mach s2)) \<noteq> cycles (cpu m1)"
      have "m1 = mach halted_run" using e(1) unfolding d by simp
      then have "s2 = halted_run\<lparr>dcache := dcache_invalidate (stack_insn demo_ctx)\<rparr>"
        using e(2) by (simp only: halted_stays) simp
      then show False using e(3) \<open>m1 = mach halted_run\<close> by simp
    qed
  qed
qed

definition demo_insn1 :: insn_t where
  "demo_insn1 = (stack_insn demo_ctx)\<lparr>iop := OP_MOV_IMM, ipc := 8, isize := 2, iimm := 5\<rparr>"

definition demo_insn2 :: insn_t where
  "demo_insn2 = (stack_insn demo_ctx)\<lparr>iop := OP_ADD_IMM8, ipc := 10, isize := 2, iimm := 3\<rparr>"

text \<open>A compiled block at 8, and a SysTick with a thousand cycles to go.\<close>

definition hot_jit :: jit_t where
  "hot_jit = install (jit_init\<lparr>blocks := (\<lambda>_. \<lparr>pc_start = 8, pc_end = 12, ins = [demo_insn1, demo_insn2], native = None\<rparr>),
     n_blocks := 1\<rparr>) 8 0"

definition hot_run :: run_t where
  "hot_run = demo_run\<lparr>jit := Some hot_jit,
     mach := demo_machine\<lparr>d_st := \<lparr>csr = 3, rvr = 1000, cvr = 0, count_flag = False, irq_pending = False\<rparr>\<rparr>\<rparr>"

lemma hot_block: "\<exists>m1. interp_block [demo_insn1, demo_insn2] (mach hot_run) = Some (2, m1) \<and> \<not> halted (cpu m1) \<and>
    d_st m1 = d_st (mach hot_run)"
proof -
  have m: "cpu (mach hot_run) = cpu demo_machine" by (simp add: hot_run_def)
  have f: "ird demo_insn1 = 0" "irn demo_insn1 = 0" "isize demo_insn1 = 2" "iop demo_insn1 = OP_MOV_IMM" "ipc demo_insn1 = 8"
    "ird demo_insn2 = 0" "irn demo_insn2 = 0" "isize demo_insn2 = 2" "iop demo_insn2 = OP_ADD_IMM8" "ipc demo_insn2 = 10"
    by (simp_all add: demo_insn1_def demo_insn2_def demo_ctx_def)
  obtain f1 where f1: "execute (set_reg (mach hot_run) REG_PC 8) demo_insn1 = Some (True, cpu_update f1 (set_reg (mach hot_run) REG_PC 8))"
    "stepped (cpu (set_reg (mach hot_run) REG_PC 8)) (iimm demo_insn1) (f1 (cpu (set_reg (mach hot_run) REG_PC 8)))"
    using demo_exec(1) [of demo_insn1 "set_reg (mach hot_run) REG_PC 8"] f m demo_cpu by auto
  let ?m1 = "set_reg (cpu_update f1 (set_reg (mach hot_run) REG_PC 8)) REG_PC 10"
  have it: "itstate (cpu ?m1) = 0" "halted (cpu ?m1) = False" "halted (cpu (cpu_update f1 (set_reg (mach hot_run) REG_PC 8))) = False"
    using f1(2) m demo_cpu(4) by (simp_all add: stepped_def)
  obtain f2 where f2: "execute ?m1 demo_insn2 = Some (True, cpu_update f2 ?m1)"
    "stepped (cpu ?m1) (reg ?m1 0 + iimm demo_insn2) (f2 (cpu ?m1))"
    using demo_exec(2) [of demo_insn2 ?m1] f it by auto
  have h: "\<not> halted (cpu (cpu_update f2 ?m1))" using f2(2) it by (simp add: stepped_def)
  have e: "interp_block [demo_insn1, demo_insn2] (mach hot_run) = Some (2, cpu_update f2 ?m1)"
    using f1(1) f2(1) it f m demo_cpu(4) by (simp add: is_terminator_def)
  show ?thesis by (rule exI [of _ "cpu_update f2 ?m1"], intro conjI e h) simp
qed

lemma run_interpreted: "native bk = None \<Longrightarrow> interp_block (ins bk) m = Some (k, m1) \<Longrightarrow>
    run_block h j bk m = Some (k, j\<lparr>jit_steps := jit_steps j + of_nat k\<rparr>, m1)"
  by (simp add: run_block_def)

lemma hot_lookup: "lookup hot_jit 8 = 0"
  by (simp add: lookup_def hot_jit_def install_def Let_def)

lemma hot_chain: "\<exists>s1. try_chain demo_ctx hot_run 33 = Some (2, s1) \<and> d_st (mach s1) = d_st (mach hot_run)"
proof -
  let ?h = "host demo_ctx" and ?ins = "[demo_insn1, demo_insn2]" and ?stop = "stop_flag demo_ctx"
  obtain m1 where m1: "interp_block ?ins (mach hot_run) = Some (2, m1)" "\<not> halted (cpu m1)"
    "d_st m1 = d_st (mach hot_run)" using hot_block by blast
  have bk: "ins (blocks hot_jit 0) = ?ins" "native (blocks hot_jit 0) = None" by (simp_all add: hot_jit_def install_def Let_def)
  have pc: "reg (mach hot_run) REG_PC = 8" "\<not> halted (cpu (mach hot_run))"
    using demo_cpu(1) [of REG_PC] demo_cpu(4) by (simp_all add: hot_run_def)
  have ps: "\<not> pendsv_pending (d_scb (mach hot_run))" using demo_quiet by (simp add: hot_run_def quiet_def)
  have b: "chain_budget demo_ctx (mach hot_run) 33 = 33"
    using ps by (simp add: chain_budget_def irq_safe_budget_def demo_ctx_def hot_run_def Let_def)
  obtain g1 where r: "jit_run ?h (stack_insn demo_ctx) hot_jit (mach hot_run) = Some (2, g1, m1)"
    using run_interpreted [OF bk(2), of "mach hot_run" 2 m1 ?h hot_jit] m1(1)
    unfolding bk(1) by (simp add: jit_run_def Let_def pc hot_lookup del: interp_block.simps)
  have "jit_run_chained ?h (stack_insn demo_ctx) g1 m1 31 ?stop = Some (0, g1, m1)"
    by (subst jit_run_chained.simps) simp
  then have "jit_run_chained ?h (stack_insn demo_ctx) hot_jit (mach hot_run) 33 ?stop = Some (2, g1, m1)"
    using r pc ps by (subst jit_run_chained.simps) (simp add: stop_flag_def)
  then show ?thesis using b m1(3) by (simp add: try_chain_def hot_run_def)
qed


text \<open>The same block with its native code, and a load from nowhere.\<close>

definition native_demo :: "u8 list option \<times> codegen_t" where
  "native_demo = codegen_emit demo_host codegen_init demo_machine [demo_insn1, demo_insn2]"

definition native_block_demo :: jit_block_t where
  "native_block_demo = \<lparr>pc_start = 8, pc_end = 12, ins = [demo_insn1, demo_insn2], native = fst native_demo\<rparr>"

lemma native_demo_ok:
  "straight_block demo_host (ins native_block_demo)" "native native_block_demo \<noteq> None" "\<not> cpu_in_it (cpu (mach hot_run))"
  "callable demo_host \<or> list_all (\<lambda>i. \<not> calls_bus demo_host i) (ins native_block_demo)"
  "codegen_emit demo_host codegen_init demo_machine (ins native_block_demo) = (native native_block_demo, snd native_demo)"
  using demo_cpu(7)
  by (simp_all add: native_block_demo_def native_demo_def demo_insn1_def demo_insn2_def demo_ctx_def native_plain_def alu_plain_def
      callable_def emit_alu_def Let_def codegen_emit_def codegen_supports_def insn_native_ok_def codegen_init_def demo_host_def
      cpu_in_it_def hot_run_def)

definition far_load :: insn_t where
  "far_load = (stack_insn demo_ctx)\<lparr>iop := OP_LDR_IMM, ipc := 8, isize := 2, ird := 1, irn := 0, iimm := 0x60000000\<rparr>"

lemma far_load_refused:
  "bus_read demo_machine (reg demo_machine (irn far_load) + iimm far_load) (load_size (iop far_load)) = (None, demo_machine)"
  using demo_cpu(1) [of 0]
  by (simp add: far_load_def load_size_def demo_ctx_def bus_read_def demo_regions peripheral_map_def)

text \<open>Behind it MOVS r0,#5.\<close>

definition demo_insn3 :: insn_t where
  "demo_insn3 = demo_insn1\<lparr>ipc := 10\<rparr>"

lemma refused_block_ok:
  "iop far_load \<in> {OP_LDR_IMM, OP_LDRB_IMM, OP_LDRH_IMM}" "callable demo_host"
  "straight_block demo_host ([] @ far_load # [demo_insn3])" "\<not> cpu_in_it (cpu demo_machine)"
  using demo_cpu(7)
  by (simp_all add: far_load_def demo_insn3_def demo_insn1_def demo_ctx_def callable_def demo_host_def native_plain_def
      alu_plain_def mem_plain_def insn_native_ok_def emit_alu_def emit_mem_def Let_def cpu_in_it_def)

lemma refused_goes_on:
  "\<exists>m3. interp_block [demo_insn3] (set_reg demo_machine REG_PC (ipc far_load + to32 (isize far_load))) = Some (1, m3) \<and>
     reg m3 0 = 5"
proof -
  let ?m = "set_reg demo_machine REG_PC 10"
  have i: "ird demo_insn3 = 0" "irn demo_insn3 = 0" "isize demo_insn3 = 2" "iop demo_insn3 = OP_MOV_IMM"
    "ipc demo_insn3 = 10" "iimm demo_insn3 = 5"
    by (simp_all add: demo_insn3_def demo_insn1_def demo_ctx_def)
  obtain f where f: "execute ?m demo_insn3 = Some (True, cpu_update f ?m)" "stepped (cpu ?m) 5 (f (cpu ?m))"
    using demo_exec(1) [of demo_insn3 ?m] i demo_cpu(7) by auto
  have "reg (cpu_update f ?m) 0 = 5" using f(2) by (simp add: stepped_def)
  moreover have pc: "set_reg ?m REG_PC (ipc demo_insn3) = ?m"
    by (cases demo_machine; cases "cpu demo_machine"; simp add: i)
  have "interp_block [demo_insn3] ?m = Some (1, cpu_update f ?m)"
    using i demo_cpu(4) unfolding interp_block.simps pc f(1) by (simp add: is_terminator_def)
  ultimately show ?thesis by (simp add: far_load_def)
qed

end
