(* ===== verification/Gdb.thy ===== *)
theory Gdb
  imports Run
begin

text \<open>
  The GDB stub \<^verbatim>\<open>src/core/gdb.c\<close> and the run loop with a debugger in \<^verbatim>\<open>src/core/run.c\<close>.  The
  connection is the list of bytes that are still to be received, whose end is the end of the
  connection, and the list of bytes sent.  A C string is read out of the packet buffer up to its
  zero; reading or writing outside a buffer is \<open>None\<close>.
\<close>

section \<open>State\<close>

record gdb_t =
  active :: bool
  stepping :: bool
  halted_for_gdb :: bool
  bp :: "u32 list"

record gdb_io =
  gdb :: gdb_t
  inp :: "u8 list"
  outp :: "u8 list"

definition asc :: "string \<Rightarrow> u8 list" where
  "asc s = map of_char s"

abbreviation (input) ch :: "char \<Rightarrow> u8" where "ch c \<equiv> of_char c"

abbreviation (input) PKT_SIZE :: nat where "PKT_SIZE \<equiv> 2048"

section \<open>Hexadecimal digits\<close>

definition hex_chars :: "u8 \<Rightarrow> u8" where
  "hex_chars d = asc ''0123456789abcdef'' ! unat (d AND 0xF)"

definition hex_byte :: "u8 \<Rightarrow> u8 list" where
  "hex_byte b = [hex_chars (drop_bit 4 b), hex_chars b]"

definition hex32_le :: "u32 \<Rightarrow> u8 list" where
  "hex32_le v = concat (map (\<lambda>i. hex_byte (to8 (drop_bit (i * 8) v))) [0..<4])"

definition hex_digit :: "u8 \<Rightarrow> u32" where
  "hex_digit c =
     (if ch CHR ''0'' \<le> c \<and> c \<le> ch CHR ''9'' then to32 c - 48
      else if ch CHR ''a'' \<le> c \<and> c \<le> ch CHR ''f'' then to32 c - 87
      else if ch CHR ''A'' \<le> c \<and> c \<le> ch CHR ''F'' then to32 c - 55
      else 0)"

definition hex_to_u32 :: "u8 list \<Rightarrow> u32" where
  "hex_to_u32 cs = foldl (\<lambda>v c. push_bit 4 v OR hex_digit c) 0 cs"

text \<open>\<open>hex_to_u32(pkt + pos, n)\<close>, and the little-endian word in eight digits.\<close>

definition hex_at :: "u8 list \<Rightarrow> nat \<Rightarrow> int \<Rightarrow> u32 option" where
  "hex_at pkt pos n =
     (if n \<le> 0 then Some 0
      else if pos + nat n \<le> length pkt then Some (hex_to_u32 (take (nat n) (drop pos pkt)))
      else None)"

definition le_at :: "u8 list \<Rightarrow> nat \<Rightarrow> u32 option" where
  "le_at pkt pos =
     do { b0 \<leftarrow> hex_at pkt pos 2; b1 \<leftarrow> hex_at pkt (pos + 2) 2; b2 \<leftarrow> hex_at pkt (pos + 4) 2; b3 \<leftarrow> hex_at pkt (pos + 6) 2;
          Some (b0 OR push_bit 8 b1 OR push_bit 16 b2 OR push_bit 24 b3) }"

section \<open>Packets\<close>

text \<open>
  \<^verbatim>\<open>snprintf\<close> returns the length that the whole frame would have, which is what is sent: beyond
  2048 bytes that reads outside the buffer.  The acknowledgement is received and not looked at.
\<close>

definition gdb_send :: "gdb_io \<Rightarrow> u8 list \<Rightarrow> gdb_io option" where
  "gdb_send s payload =
     (let frame = asc ''$'' @ payload @ asc ''#'' @ hex_byte (sum_list payload)
      in if length frame > PKT_SIZE then None
         else Some (s\<lparr>outp := outp s @ (if length frame = PKT_SIZE then take (PKT_SIZE - 1) frame @ [0] else frame),
                      inp := drop 1 (inp s)\<rparr>))"

datatype recv_start = Closed | Interrupted "u8 list" | Started "u8 list"

fun recv_dollar :: "u8 list \<Rightarrow> recv_start" where
  "recv_dollar [] = Closed"
| "recv_dollar (c # cs) =
     (if c = ch CHR ''$'' then Started cs else if c = 0x03 then Interrupted cs else recv_dollar cs)"

text \<open>\<open>room\<close> is \<^verbatim>\<open>max - 1 - n\<close>; the character that finds no room is lost.\<close>

fun recv_payload :: "nat \<Rightarrow> u8 list \<Rightarrow> u8 list \<times> u8 list" where
  "recv_payload room [] = ([], [])"
| "recv_payload room (c # cs) =
     (if c = ch CHR ''#'' \<or> room = 0 then ([], cs)
      else let (p, r) = recv_payload (room - 1) cs in (c # p, r))"

definition put_str :: "u8 list \<Rightarrow> u8 list \<Rightarrow> u8 list" where
  "put_str p pkt = p @ [0] @ drop (Suc (length p)) pkt"

definition gdb_recv_packet :: "gdb_io \<Rightarrow> u8 list \<Rightarrow> (u8 list \<times> gdb_io) option" where
  "gdb_recv_packet s pkt =
     (case recv_dollar (inp s) of
        Closed \<Rightarrow> None
      | Interrupted cs \<Rightarrow> Some (put_str (asc ''INT'') pkt, s\<lparr>inp := cs\<rparr>)
      | Started cs \<Rightarrow>
          (let (p, r) = recv_payload (PKT_SIZE - 1) cs
           in Some (put_str p pkt, s\<lparr>inp := drop 2 r, outp := outp s @ asc ''+''\<rparr>)))"

text \<open>The string at an offset of the buffer, and \<^verbatim>\<open>strchr\<close> as an index.\<close>

definition c_str :: "u8 list \<Rightarrow> nat \<Rightarrow> u8 list option" where
  "c_str pkt i = (if 0 \<in> set (drop i pkt) then Some (takeWhile (\<lambda>b. b \<noteq> 0) (drop i pkt)) else None)"

definition strchr :: "u8 list \<Rightarrow> nat \<Rightarrow> char \<Rightarrow> nat option option" where
  "strchr pkt i c =
     map_option (\<lambda>cs. if ch c \<in> set cs then Some (i + length (takeWhile (\<lambda>b. b \<noteq> ch c) cs)) else None) (c_str pkt i)"

section \<open>Stopping\<close>

text \<open>What \<open>gdb_listen\<close> leaves of a connection that was accepted; \<open>None\<close> when a socket call failed.\<close>

definition gdb_listen :: "u8 list option \<Rightarrow> gdb_io option" where
  "gdb_listen conn =
     map_option (\<lambda>cs. \<lparr>gdb = \<lparr>active = True, stepping = False, halted_for_gdb = True, bp = []\<rparr>, inp = cs, outp = []\<rparr>) conn"

definition gdb_close :: "gdb_t \<Rightarrow> gdb_t" where
  "gdb_close g = g\<lparr>active := False\<rparr>"

definition gdb_should_stop :: "gdb_t \<Rightarrow> cpu_t \<Rightarrow> bool" where
  "gdb_should_stop g c \<longleftrightarrow> active g \<and> (stepping g \<or> r_of c REG_PC \<in> set (bp g))"

section \<open>Registers and memory\<close>

definition gdb_xpsr :: "cpu_t \<Rightarrow> u32" where
  "gdb_xpsr c = (apsr c AND 0xF8000000) OR ipsr c OR epsr c"

definition regs_payload :: "cpu_t \<Rightarrow> u8 list" where
  "regs_payload c = concat (map (\<lambda>i. hex32_le (r_of c (of_nat i))) [0..<16]) @ hex32_le (gdb_xpsr c)"

definition send_regs :: "gdb_io \<Rightarrow> cpu_t \<Rightarrow> gdb_io option" where
  "send_regs s c = gdb_send s (regs_payload c)"

text \<open>The loop of \<open>send_mem\<close>: \<open>Inl\<close> the machine where a read failed, \<open>Inr\<close> the digits.\<close>

fun read_digits :: "nat \<Rightarrow> machine \<Rightarrow> addr_t \<Rightarrow> u8 list \<Rightarrow> (machine + u8 list \<times> machine) option" where
  "read_digits 0 m a out = (if length out < PKT_SIZE then Some (Inr (out, m)) else None)"
| "read_digits (Suc n) m a out =
     (let (v, m) = bus_read m a 1
      in case v of
           None \<Rightarrow> Some (Inl m)
         | Some x \<Rightarrow> if length out + 2 > PKT_SIZE then None
                     else read_digits n m (a + 1) (out @ hex_byte (to8 x)))"

definition send_mem :: "gdb_io \<Rightarrow> machine \<Rightarrow> addr_t \<Rightarrow> u32 \<Rightarrow> (gdb_io \<times> machine) option" where
  "send_mem s m addr len =
     (if unat (len * 2 + 1) > PKT_SIZE then map_option (\<lambda>s. (s, m)) (gdb_send s (asc ''E22''))
      else do { r \<leftarrow> read_digits (unat len) m addr [];
                case r of
                  Inl m1 \<Rightarrow> map_option (\<lambda>s. (s, m1)) (gdb_send s (asc ''E14''))
                | Inr (out, m1) \<Rightarrow> map_option (\<lambda>s. (s, m1)) (gdb_send s out) })"

fun write_digits :: "nat \<Rightarrow> machine \<Rightarrow> addr_t \<Rightarrow> u8 list \<Rightarrow> nat \<Rightarrow> (bool \<times> machine) option" where
  "write_digits 0 m a pkt pos = Some (True, m)"
| "write_digits (Suc n) m a pkt pos =
     do { v \<leftarrow> hex_at pkt pos 2;
          (ok, m1) \<leftarrow> bus_write m a 1 v;
          if \<not> ok then Some (False, m1) else write_digits n m1 (a + 1) pkt (pos + 2) }"

definition write_mem :: "gdb_io \<Rightarrow> machine \<Rightarrow> addr_t \<Rightarrow> u32 \<Rightarrow> u8 list \<Rightarrow> nat \<Rightarrow> (gdb_io \<times> machine) option" where
  "write_mem s m addr len pkt pos =
     do { (ok, m1) \<leftarrow> write_digits (unat len) m addr pkt pos;
          s1 \<leftarrow> gdb_send s (asc (if ok then ''OK'' else ''E14''));
          Some (s1, m1) }"

section \<open>Commands\<close>

text \<open>What a command does to the loop of \<open>gdb_serve\<close>: it goes on, returns, or ends the process.\<close>

datatype served = Goes_on | Resumes | Exits

abbreviation (input) reply :: "gdb_io \<Rightarrow> machine \<Rightarrow> string \<Rightarrow> (served \<times> gdb_io \<times> machine) option" where
  "reply s m r \<equiv> map_option (\<lambda>s. (Goes_on, s, m)) (gdb_send s (asc r))"

definition gdb_query :: "gdb_io \<Rightarrow> machine \<Rightarrow> u8 list \<Rightarrow> (served \<times> gdb_io \<times> machine) option" where
  "gdb_query s m pkt =
     do { str \<leftarrow> c_str pkt 0;
          if take 10 str = asc ''qSupported'' then reply s m ''PacketSize=1000''
          else if take 9 str = asc ''qAttached'' then reply s m ''1''
          else if take 2 str = asc ''qC'' then reply s m ''QC1''
          else if take 12 str = asc ''qfThreadInfo'' then reply s m ''m1''
          else if take 12 str = asc ''qsThreadInfo'' then reply s m ''l''
          else reply s m [] }"

fun write_regs :: "nat list \<Rightarrow> machine \<Rightarrow> u8 list \<Rightarrow> machine option" where
  "write_regs [] m pkt = Some m"
| "write_regs (i # is) m pkt =
     do { v \<leftarrow> le_at pkt (1 + i * 8); write_regs is (set_reg m (of_nat i) v) pkt }"

text \<open>\<^verbatim>\<open>reg\<close> is an \<^verbatim>\<open>int\<close>: a number with bit 31 set is negative and indexes in front of the array.\<close>

definition gdb_read_reg :: "gdb_io \<Rightarrow> machine \<Rightarrow> u8 list \<Rightarrow> (served \<times> gdb_io \<times> machine) option" where
  "gdb_read_reg s m pkt =
     do { str \<leftarrow> c_str pkt 0;
          r \<leftarrow> hex_at pkt 1 (int (length str) - 1);
          if bit r 31 then None
          else (let v = (if r < 16 then reg m (to8 r) else if r = 16 then gdb_xpsr (cpu m) else 0)
                in map_option (\<lambda>s. (Goes_on, s, m)) (gdb_send s (hex32_le v))) }"

definition gdb_write_reg :: "gdb_io \<Rightarrow> machine \<Rightarrow> u8 list \<Rightarrow> (served \<times> gdb_io \<times> machine) option" where
  "gdb_write_reg s m pkt =
     do { eq \<leftarrow> strchr pkt 0 CHR ''='';
          case eq of
            None \<Rightarrow> reply s m ''E22''
          | Some e \<Rightarrow>
              do { r \<leftarrow> hex_at pkt 1 (int e - 1);
                   v \<leftarrow> le_at pkt (e + 1);
                   if bit r 31 then None
                   else reply s (if r < 16 then set_reg m (to8 r) v else m) ''OK'' } }"

definition gdb_read_mem :: "gdb_io \<Rightarrow> machine \<Rightarrow> u8 list \<Rightarrow> (served \<times> gdb_io \<times> machine) option" where
  "gdb_read_mem s m pkt =
     do { comma \<leftarrow> strchr pkt 0 CHR '','';
          case comma of
            None \<Rightarrow> reply s m ''E22''
          | Some k \<Rightarrow>
              do { addr \<leftarrow> hex_at pkt 1 (int k - 1);
                   rest \<leftarrow> c_str pkt (k + 1);
                   len \<leftarrow> hex_at pkt (k + 1) (int (length rest));
                   map_option (Pair Goes_on) (send_mem s m addr len) } }"

definition gdb_write_mem :: "gdb_io \<Rightarrow> machine \<Rightarrow> u8 list \<Rightarrow> (served \<times> gdb_io \<times> machine) option" where
  "gdb_write_mem s m pkt =
     do { comma \<leftarrow> strchr pkt 0 CHR '','';
          colon \<leftarrow> strchr pkt 0 CHR '':'';
          case (comma, colon) of
            (Some k, Some l) \<Rightarrow>
              do { addr \<leftarrow> hex_at pkt 1 (int k - 1);
                   len \<leftarrow> hex_at pkt (k + 1) (int l - int k - 1);
                   map_option (Pair Goes_on) (write_mem s m addr len pkt (l + 1)) }
          | _ \<Rightarrow> reply s m ''E22'' }"

text \<open>The address of \<^verbatim>\<open>Z0,<addr>,<kind>\<close>; the inner \<open>None\<close> is a missing comma.\<close>

definition bp_address :: "u8 list \<Rightarrow> u32 option option" where
  "bp_address pkt =
     do { comma \<leftarrow> strchr pkt 3 CHR '','';
          case comma of None \<Rightarrow> Some None | Some k \<Rightarrow> map_option Some (hex_at pkt 3 (int k - 3)) }"

definition gdb_set_bp :: "gdb_io \<Rightarrow> machine \<Rightarrow> u8 list \<Rightarrow> (served \<times> gdb_io \<times> machine) option" where
  "gdb_set_bp s m pkt =
     (if pkt ! 1 = ch CHR ''0'' then
        do { a \<leftarrow> bp_address pkt;
             case a of
               None \<Rightarrow> reply s m ''E22''
             | Some addr \<Rightarrow>
                 if length (bp (gdb s)) < 32
                 then reply (s\<lparr>gdb := (gdb s)\<lparr>bp := bp (gdb s) @ [addr]\<rparr>\<rparr>) m ''OK''
                 else reply s m ''E16'' }
      else reply s m [])"

text \<open>\<^verbatim>\<open>g->bp[i] = g->bp[--g->bp_n]\<close> for the first entry with the address.\<close>

fun remove_bp :: "u32 \<Rightarrow> u32 list \<Rightarrow> u32 list" where
  "remove_bp a [] = []"
| "remove_bp a (b # bs) =
     (if b = a then (if bs = [] then [] else last bs # butlast bs) else b # remove_bp a bs)"

definition gdb_clear_bp :: "gdb_io \<Rightarrow> machine \<Rightarrow> u8 list \<Rightarrow> (served \<times> gdb_io \<times> machine) option" where
  "gdb_clear_bp s m pkt =
     (if pkt ! 1 = ch CHR ''0'' then
        do { a \<leftarrow> bp_address pkt;
             case a of
               None \<Rightarrow> reply s m ''E22''
             | Some addr \<Rightarrow> reply (s\<lparr>gdb := (gdb s)\<lparr>bp := remove_bp addr (bp (gdb s))\<rparr>\<rparr>) m ''OK'' }
      else reply s m [])"

definition gdb_packet :: "gdb_io \<Rightarrow> machine \<Rightarrow> u8 list \<Rightarrow> (served \<times> gdb_io \<times> machine) option" where
  "gdb_packet s m pkt =
     (let cmd = pkt ! 0
      in if cmd = ch CHR ''q'' then gdb_query s m pkt
         else if cmd = ch CHR ''H'' then reply s m ''OK''
         else if cmd = ch CHR ''?'' then reply s m ''S05''
         else if cmd = ch CHR ''g'' then map_option (\<lambda>s. (Goes_on, s, m)) (send_regs s (cpu m))
         else if cmd = ch CHR ''G'' then do { m1 \<leftarrow> write_regs [0..<16] m pkt; reply s m1 ''OK'' }
         else if cmd = ch CHR ''p'' then gdb_read_reg s m pkt
         else if cmd = ch CHR ''P'' then gdb_write_reg s m pkt
         else if cmd = ch CHR ''m'' then gdb_read_mem s m pkt
         else if cmd = ch CHR ''M'' then gdb_write_mem s m pkt
         else if cmd = ch CHR ''Z'' then gdb_set_bp s m pkt
         else if cmd = ch CHR ''z'' then gdb_clear_bp s m pkt
         else if cmd = ch CHR ''c'' then
           Some (Resumes, s\<lparr>gdb := (gdb s)\<lparr>stepping := False, halted_for_gdb := False\<rparr>\<rparr>, m)
         else if cmd = ch CHR ''s'' then
           Some (Resumes, s\<lparr>gdb := (gdb s)\<lparr>stepping := True, halted_for_gdb := False\<rparr>\<rparr>, m)
         else if cmd = ch CHR ''k'' then Some (Exits, s\<lparr>gdb := gdb_close (gdb s)\<rparr>, m)
         else reply s m [])"

section \<open>The command loop\<close>

text \<open>Every packet takes at least its dollar sign from the connection, and no reply gives any back.\<close>

lemma recv_dollar_shorter:
  "recv_dollar cs = Started r \<Longrightarrow> length r < length cs" "recv_dollar cs = Interrupted r \<Longrightarrow> length r < length cs"
  by (induction cs) (auto split: if_splits)

lemma recv_payload_shorter: "length (snd (recv_payload room cs)) \<le> length cs"
  by (induction room cs rule: recv_payload.induct) (auto simp: case_prod_unfold Let_def intro: le_SucI)

lemma recv_rest: "length (snd (recv_payload room cs)) - 2 \<le> length cs"
  using recv_payload_shorter [of room cs] by linarith

lemma recv_shorter: "gdb_recv_packet s pkt = Some (pkt', s') \<Longrightarrow> length (inp s') < length (inp s)"
  by (auto simp: gdb_recv_packet_def Let_def case_prod_unfold split: recv_start.splits
      dest!: recv_dollar_shorter intro: le_less_trans [OF recv_rest])

lemma send_shorter: "gdb_send s p = Some s' \<Longrightarrow> length (inp s') \<le> length (inp s)"
  by (auto simp: gdb_send_def Let_def split: if_splits)

lemma send_mem_shorter: "send_mem s m a n = Some (s', m') \<Longrightarrow> length (inp s') \<le> length (inp s)"
  by (auto simp: send_mem_def split: if_splits bind_splits sum.splits dest: send_shorter)

lemma write_mem_shorter: "write_mem s m a n pkt pos = Some (s', m') \<Longrightarrow> length (inp s') \<le> length (inp s)"
  by (auto simp: write_mem_def split: bind_splits dest: send_shorter)

lemma packet_shorter: "gdb_packet s m pkt = Some (e, s', m') \<Longrightarrow> length (inp s') \<le> length (inp s)"
  unfolding gdb_packet_def gdb_query_def gdb_read_reg_def gdb_write_reg_def gdb_read_mem_def gdb_write_mem_def
    gdb_set_bp_def gdb_clear_bp_def send_regs_def Let_def
  by (auto split: if_splits bind_splits option.splits dest!: send_shorter send_mem_shorter write_mem_shorter)

function serve_loop :: "gdb_io \<Rightarrow> machine \<Rightarrow> u8 list \<Rightarrow> (served \<times> gdb_io \<times> machine) option" where
  "serve_loop s m pkt =
     (case gdb_recv_packet s pkt of
        None \<Rightarrow> Some (Resumes, s\<lparr>inp := [], gdb := gdb_close (gdb s)\<rparr>, m)
      | Some (pkt1, s1) \<Rightarrow>
          (case gdb_packet s1 m pkt1 of
             None \<Rightarrow> None
           | Some (Goes_on, s2, m2) \<Rightarrow> serve_loop s2 m2 pkt1
           | Some (e, s2, m2) \<Rightarrow> Some (e, s2, m2)))"
  by pat_completeness auto
termination
  by (relation "measure (\<lambda>(s, m, pkt). length (inp s))")
    (auto dest!: recv_shorter packet_shorter)

declare serve_loop.simps [simp del]

text \<open>\<open>junk\<close> is what the uninitialised packet buffer of 2048 bytes on the stack holds.\<close>

definition gdb_serve :: "u8 list \<Rightarrow> gdb_io \<Rightarrow> machine \<Rightarrow> (served \<times> gdb_io \<times> machine) option" where
  "gdb_serve junk s m =
     (if \<not> active (gdb s) then Some (Resumes, s, m)
      else do { s \<leftarrow> gdb_send s (asc ''S05''); serve_loop s m junk })"

section \<open>Running under the debugger\<close>

text \<open>
  \<^verbatim>\<open>run_steps_full_gdb\<close>: the debugger is served before an instruction when it asks to stop, and the
  block cache is passed by only while it steps.  \<open>d\<close> is \<open>None\<close> for a null \<^verbatim>\<open>gdb\<close>.  The result is
  how the run ended, the steps counted, the machine and the debugger.
\<close>

definition gdb_pause :: "u8 list \<Rightarrow> run_t \<Rightarrow> gdb_io option \<Rightarrow> (served \<times> run_t \<times> gdb_io option) option" where
  "gdb_pause junk s d =
     (case d of
        None \<Rightarrow> Some (Resumes, s, None)
      | Some io \<Rightarrow>
          if gdb_should_stop (gdb io) (cpu (mach s)) then
            do { (e, io, m) \<leftarrow> gdb_serve junk (io\<lparr>gdb := (gdb io)\<lparr>stepping := False, halted_for_gdb := True\<rparr>\<rparr>) (mach s);
                 Some (e, s\<lparr>mach := m\<rparr>, Some io) }
          else Some (Resumes, s, d))"

definition gdb_iter :: "run_ctx_t \<Rightarrow> nat \<Rightarrow> run_t \<Rightarrow> gdb_io option \<Rightarrow> iter option" where
  "gdb_iter ctx left s d =
     (if d \<noteq> None \<and> stepping (gdb (the d)) then step_one ctx s else run_iter ctx left s)"

function gdb_loop :: "run_ctx_t \<Rightarrow> u8 list \<Rightarrow> nat \<Rightarrow> run_t \<Rightarrow> gdb_io option \<Rightarrow> (served \<times> nat \<times> run_t \<times> gdb_io option) option" where
  "gdb_loop ctx junk left s d =
     (if left = 0 \<or> halted (cpu (mach s)) then Some (Resumes, 0, s, d)
      else case gdb_pause junk s d of
        None \<Rightarrow> None
      | Some (e, s1, d1) \<Rightarrow>
          (if e = Exits then Some (Exits, 0, s1, d1)
           else case gdb_iter ctx left s1 d1 of
             None \<Rightarrow> None
           | Some (Stop s2) \<Rightarrow> Some (Resumes, 0, s2, d1)
           | Some (Went extra s2) \<Rightarrow>
               (case gdb_loop ctx junk (left - Suc extra) s2 d1 of
                  None \<Rightarrow> None
                | Some (e, n, s3, d3) \<Rightarrow> Some (e, Suc extra + n, s3, d3))))"
  by pat_completeness auto
termination
  by (relation "measure (\<lambda>(ctx, junk, left, s, d). left)") auto

declare gdb_loop.simps [simp del]

text \<open>The context comes from the arguments and the globals, the block cache is \<^verbatim>\<open>g_jit\<close>.\<close>

definition run_steps_full_gdb :: "run_ctx_t \<Rightarrow> bool \<Rightarrow> u8 list \<Rightarrow> run_t \<Rightarrow> u64 \<Rightarrow> gdb_io option
    \<Rightarrow> (served \<times> u64 \<times> run_t \<times> gdb_io option) option" where
  "run_steps_full_gdb ctx dwt_global junk s max_steps d =
     (let ctx = ctx_of_globals ctx dwt_global (mach s);
          s = s\<lparr>dcache := dcache_invalidate (stack_insn ctx),
                jit := (case jit s of None \<Rightarrow> Some jit_init | Some g \<Rightarrow> Some g)\<rparr>
      in do { (e, s, d) \<leftarrow>
                (case d of
                   Some io \<Rightarrow>
                     if active (gdb io) \<and> halted_for_gdb (gdb io) then
                       do { (e, io, m) \<leftarrow> gdb_serve junk io (mach s); Some (e, s\<lparr>mach := m\<rparr>, Some io) }
                     else Some (Resumes, s, d)
                 | None \<Rightarrow> Some (Resumes, s, d));
              if e = Exits then Some (Exits, 0, s, d)
              else do { (e, n, s, d) \<leftarrow> gdb_loop ctx junk (unat max_steps) s d; Some (e, of_nat n, s, d) } })"

definition run_steps_full :: "run_ctx_t \<Rightarrow> bool \<Rightarrow> run_t \<Rightarrow> u64 \<Rightarrow> (u64 \<times> run_t) option" where
  "run_steps_full ctx dwt_global s max_steps =
     do { (_, n, s, _) \<leftarrow> run_steps_full_gdb ctx dwt_global [] s max_steps None; Some (n, s) }"

definition run_steps_st :: "run_ctx_t \<Rightarrow> bool \<Rightarrow> run_t \<Rightarrow> u64 \<Rightarrow> (u64 \<times> run_t) option" where
  "run_steps_st ctx dwt_global s max_steps = run_steps_full (ctx\<lparr>with_scb := False\<rparr>) dwt_global s max_steps"

definition run_steps :: "run_ctx_t \<Rightarrow> bool \<Rightarrow> run_t \<Rightarrow> u64 \<Rightarrow> (u64 \<times> run_t) option" where
  "run_steps ctx dwt_global s max_steps =
     run_steps_full (ctx\<lparr>with_st := False, with_scb := False\<rparr>) dwt_global s max_steps"

end
