(* ===== verification/Gdb_Laws.thy ===== *)
theory Gdb_Laws
  imports Gdb Run_Laws "HOL-Library.Multiset"
begin

text \<open>
  What the debugger's protocol keeps: the codes of a byte and of a register are read back where they
  stand in a packet, a frame is received as it was sent, and a stream of frames is a session.
\<close>

section \<open>Hexadecimal digits\<close>

lemma nibble_cases: "unat (d AND 0xF :: u8) < 16"
proof -
  have "d AND 0xF = take_bit 4 d" by (simp add: take_bit_eq_mask mask_eq_exp_minus_1)
  then have "unat (d AND 0xF) = take_bit 4 (unat d)" by (simp only: unsigned_take_bit_eq)
  then show ?thesis by (simp add: take_bit_eq_mod)
qed

lemma hex_digit_nth:
  assumes "n < 16"
  shows "hex_digit (asc ''0123456789abcdef'' ! n) = of_nat n"
proof -
  have "n \<in> {0,1,2,3,4,5,6,7,8,9,10,11,12,13,14,15}" using assms by (simp add: insert_iff) presburger
  then show ?thesis by (elim insertE emptyE; simp add: hex_digit_def asc_def word_le_nat_alt of_char_def)
qed

lemma hex_digit_chars [simp]: "hex_digit (hex_chars d) = to32 (d AND 0xF)"
  unfolding hex_chars_def hex_digit_nth [OF nibble_cases] by (simp add: unsigned_ucast_eq)

definition is_hex :: "u8 \<Rightarrow> bool" where
  "is_hex c \<longleftrightarrow> c \<in> set (asc ''0123456789abcdef'')"

lemma hex_chars_is_hex [simp]: "is_hex (hex_chars d)"
  unfolding is_hex_def hex_chars_def by (rule nth_mem) (use nibble_cases [of d] in \<open>simp add: asc_def\<close>)

lemma hex_no_mark: "is_hex c \<Longrightarrow> c \<noteq> 0 \<and> c \<noteq> of_char CHR ''#'' \<and> c \<noteq> of_char CHR '','' \<and> c \<noteq> of_char CHR '':'' \<and> c \<noteq> of_char CHR ''=''"
  by (auto simp: is_hex_def asc_def of_char_def)

lemma hex_byte_value: "hex_to_u32 (hex_byte b) = to32 b"
proof -
  have m: "(0xF :: u8) = mask 4" by (simp add: mask_eq_exp_minus_1)
  have hi: "bit b n \<Longrightarrow> n < 8" for n using bit_imp_le_length [of b n] by simp
  show ?thesis unfolding hex_to_u32_def hex_byte_def
    by (rule bit_word_eqI) (simp add: bit_simps m, auto simp: not_less dest: hi)
qed

section \<open>Codes of fixed width\<close>

text \<open>
  What is written with a fixed number of digits is read back at its place in a packet, whatever
  stands in front of it and behind it.  So is each entry of a row of such codes.
\<close>

locale digits_code =
  fixes put :: "'v \<Rightarrow> u8 list" and get :: "u8 list \<Rightarrow> nat \<Rightarrow> 'v option" and width :: nat
  assumes width: "length (put v) = width"
    and get_put: "pos = length pre \<Longrightarrow> get (pre @ put v @ post) pos = Some v"
    and hexes: "c \<in> set (put v) \<Longrightarrow> is_hex c"
begin

definition row :: "'v list \<Rightarrow> u8 list" where
  "row vs = concat (map put vs)"

lemma row_length: "length (row vs) = width * length vs"
  by (induction vs) (simp_all add: row_def width)

lemma row_hexes: "c \<in> set (row vs) \<Longrightarrow> is_hex c"
  by (auto simp: row_def dest: hexes)

lemma row_split:
  assumes "i < length vs"
  shows "\<exists>a b. row vs = a @ put (vs ! i) @ b \<and> length a = width * i"
proof (intro exI conjI)
  show "row vs = row (take i vs) @ put (vs ! i) @ row (drop (Suc i) vs)"
    using assms by (subst id_take_nth_drop [of i vs]) (simp_all add: row_def)
  show "length (row (take i vs)) = width * i" using assms by (simp add: row_length)
qed

lemma row_get:
  assumes "i < length vs" and "pos = length pre + width * i"
  shows "get (pre @ row vs @ post) pos = Some (vs ! i)"
proof -
  obtain a b where "row vs = a @ put (vs ! i) @ b" "length a = width * i" using row_split [OF assms(1)] by blast
  then show ?thesis using get_put [of pos "pre @ a" "vs ! i" "b @ post"] assms(2) by simp
qed

end

lemma hex_at_append: "hex_at (pre @ cs @ post) (length pre) (int (length cs)) = Some (hex_to_u32 cs)"
  by (auto simp: hex_at_def hex_to_u32_def)

definition byte_at :: "u8 list \<Rightarrow> nat \<Rightarrow> u8 option" where
  "byte_at pkt pos = map_option to8 (hex_at pkt pos 2)"

lemma hex_at_byte: "hex_at (pre @ hex_byte b @ post) (length pre) 2 = Some (to32 b)"
  using hex_at_append [of pre "hex_byte b" post] by (simp add: hex_byte_value) (simp add: hex_byte_def)

interpretation byte_code: digits_code hex_byte byte_at 2
  by (unfold_locales, simp add: hex_byte_def, simp add: byte_at_def hex_at_byte, auto simp: hex_byte_def)

text \<open>A register is the row of its four bytes.\<close>

lemma bytes_of_word: "to32 (to8 v) OR push_bit 8 (to32 (to8 (drop_bit 8 v))) OR push_bit 16 (to32 (to8 (drop_bit 16 v)))
    OR push_bit 24 (to32 (to8 (drop_bit 24 (v :: u32)))) = v"
proof (rule bit_word_eqI)
  fix n assume "n < LENGTH(32)"
  then consider "n < 8" | "8 \<le> n" "n < 16" | "16 \<le> n" "n < 24" | "24 \<le> n" "n < 32" by force
  then show "bit (to32 (to8 v) OR push_bit 8 (to32 (to8 (drop_bit 8 v))) OR push_bit 16 (to32 (to8 (drop_bit 16 v)))
      OR push_bit 24 (to32 (to8 (drop_bit 24 v)))) n = bit v n"
    by cases (auto simp: bit_simps)
qed

lemma hex32_le_row: "hex32_le v = byte_code.row (map (\<lambda>i. to8 (drop_bit (i * 8) v)) [0..<4])"
  by (simp add: hex32_le_def byte_code.row_def comp_def)

lemma le_at_put: "le_at (pre @ hex32_le v @ post) (length pre) = Some v"
proof -
  let ?bs = "map (\<lambda>i. to8 (drop_bit (i * 8) v)) [0..<4]"
  have h: "hex_at (pre @ hex32_le v @ post) (length pre + 2 * i) 2 = Some (to32 (to8 (drop_bit (i * 8) v)))"
    if i: "i < 4" for i
  proof -
    obtain a b where "byte_code.row ?bs = a @ hex_byte (?bs ! i) @ b" "length a = 2 * i"
      using byte_code.row_split [of i ?bs] i by auto
    then show ?thesis using i hex_at_byte [of "pre @ a" "?bs ! i" "b @ post"] by (simp add: hex32_le_row)
  qed
  show ?thesis
    using h [of 0] h [of 1] h [of 2] h [of 3] bytes_of_word [of v] by (simp add: le_at_def ac_simps)
qed

interpretation word_code: digits_code hex32_le le_at 8
  by (unfold_locales, simp add: hex32_le_row byte_code.row_length, simp add: le_at_put, simp add: hex32_le_row byte_code.row_hexes)

section \<open>Registers\<close>

definition with_regs :: "machine \<Rightarrow> u8 set \<Rightarrow> cpu_t \<Rightarrow> machine" where
  "with_regs m K c = m\<lparr>cpu := (cpu m)\<lparr>r_of := (\<lambda>k. if k \<in> K then r_of c k else r_of (cpu m) k)\<rparr>\<rparr>"

lemma with_regs_step: "with_regs (set_reg m k (r_of c k)) K c = with_regs m (insert k K) c"
  by (auto simp: with_regs_def intro!: arg_cong [where f = "\<lambda>x. _\<lparr>cpu := _\<lparr>r_of := x\<rparr>\<rparr>"])

lemma write_regs_all:
  assumes "\<forall>i\<in>set is. le_at pkt (1 + i * 8) = Some (r_of c (of_nat i))"
  shows "write_regs is m pkt = Some (with_regs m (of_nat ` set is) c)"
  using assms
proof (induction "is" arbitrary: m)
  case Nil then show ?case by (simp add: with_regs_def)
next
  case (Cons i "is") then show ?case by (simp add: with_regs_step)
qed

lemma regs_payload_row: "regs_payload c = word_code.row (map (\<lambda>i. r_of c (of_nat i)) [0..<16] @ [gdb_xpsr c])"
  by (simp add: regs_payload_def word_code.row_def comp_def)

lemma regs_payload_length: "length (regs_payload c) = 136"
  by (simp add: regs_payload_row word_code.row_length)

lemma write_payload: "write_regs [0..<16] m (put_str (asc ''G'' @ regs_payload c) pkt) = Some (with_regs m (of_nat ` {0..<16}) c)"
proof -
  have "le_at (put_str (asc ''G'' @ regs_payload c) pkt) (1 + i * 8) = Some (r_of c (of_nat i))" if "i < 16" for i
    using that word_code.row_get [of i "map (\<lambda>i. r_of c (of_nat i)) [0..<16] @ [gdb_xpsr c]" "1 + i * 8" "asc ''G''"]
    by (simp add: put_str_def regs_payload_row nth_append asc_def)
  then show ?thesis using write_regs_all [of "[0..<16]"] by simp
qed

lemma low_regs: "(k :: u8) \<in> of_nat ` {0..<16} \<longleftrightarrow> k < 16"
proof
  assume "k < 16"
  then have "k = of_nat (unat k)" "unat k < 16" by (simp_all add: word_less_nat_alt)
  then show "k \<in> of_nat ` {0..<16}" by (intro image_eqI) auto
qed (auto simp: word_less_nat_alt unsigned_of_nat take_bit_nat_eq_self)

section \<open>Frames\<close>

definition frame :: "u8 list \<Rightarrow> u8 list" where
  "frame p = asc ''$'' @ p @ asc ''#'' @ hex_byte (sum_list p)"

definition sendable :: "u8 list \<Rightarrow> bool" where
  "sendable p \<longleftrightarrow> of_char CHR ''#'' \<notin> set p \<and> length p < 2048"

lemma frame_length: "length (frame p) = length p + 4"
  by (simp add: frame_def asc_def hex_byte_def)

lemma send_frame:
  "length p < 2044 \<Longrightarrow> gdb_send s p = Some (s\<lparr>outp := outp s @ frame p, inp := drop 1 (inp s)\<rparr>)"
  unfolding gdb_send_def frame_def [symmetric] Let_def by (simp add: frame_length)

lemma register_transfer:
  "\<exists>s1 s2. send_regs s c = Some s1 \<and> outp s1 = outp s @ frame (regs_payload c) \<and>
    gdb_packet s1 m (put_str (asc ''G'' @ regs_payload c) pk) =
      Some (Goes_on, s2, m\<lparr>cpu := (cpu m)\<lparr>r_of := (\<lambda>k. if k < 16 then r_of c k else r_of (cpu m) k)\<rparr>\<rparr>) \<and>
    outp s2 = outp s1 @ frame (asc ''OK'')"
proof -
  have h: "put_str (asc ''G'' @ regs_payload c) pk ! 0 = of_char CHR ''G''" by (simp add: put_str_def asc_def)
  show ?thesis
    using h write_payload [of m c pk]
    by (simp add: send_regs_def send_frame regs_payload_length gdb_packet_def asc_def with_regs_def low_regs)
qed

lemma recv_dollar_skip:
  "of_char CHR ''$'' \<notin> set noise \<Longrightarrow> 3 \<notin> set noise \<Longrightarrow> recv_dollar (noise @ of_char CHR ''$'' # cs) = Started cs"
  by (induction noise) auto

lemma recv_payload_whole:
  "of_char CHR ''#'' \<notin> set p \<Longrightarrow> length p \<le> room \<Longrightarrow> recv_payload room (p @ of_char CHR ''#'' # r) = (p, r)"
  by (induction p arbitrary: room) auto

lemma recv_frame:
  assumes "sendable p" and "of_char CHR ''$'' \<notin> set noise" "3 \<notin> set noise" and "inp s = noise @ frame p @ rest"
  shows "gdb_recv_packet s pkt = Some (put_str p pkt, s\<lparr>inp := rest, outp := outp s @ asc ''+''\<rparr>)"
  using assms recv_dollar_skip [of noise "p @ of_char CHR ''#'' # hex_byte (sum_list p) @ rest"]
    recv_payload_whole [of p 2047 "hex_byte (sum_list p) @ rest"]
  by (simp add: gdb_recv_packet_def frame_def sendable_def asc_def hex_byte_def)

lemma recv_frame0: "sendable p \<Longrightarrow> inp s = frame p @ rest \<Longrightarrow>
    gdb_recv_packet s pkt = Some (put_str p pkt, s\<lparr>inp := rest, outp := outp s @ asc ''+''\<rparr>)"
  by (rule recv_frame [where noise = "[]"]) simp_all

lemma recv_nothing: "inp s = [] \<Longrightarrow> gdb_recv_packet s pkt = None"
  by (simp add: gdb_recv_packet_def)

section \<open>Sessions\<close>

text \<open>
  A command looks at the connection only to take the acknowledgement of its one reply, so it can be
  run with nothing to receive; the two commands that resume or end take nothing.
\<close>

definition keep_input :: "(served \<times> gdb_io \<times> machine) option \<Rightarrow> u8 list \<Rightarrow> (served \<times> gdb_io \<times> machine) option" where
  "keep_input x cs = map_option (\<lambda>(e, s, m). (e, s\<lparr>inp := if e = Goes_on then drop 1 cs else cs\<rparr>, m)) x"

lemma keep_input_simps [simp]:
  "keep_input None cs = None"
  "keep_input (Some (e, s, m)) cs = Some (e, s\<lparr>inp := if e = Goes_on then drop 1 cs else cs\<rparr>, m)"
  by (simp_all add: keep_input_def)

lemma keep_input_bind: "keep_input (Option.bind x f) cs = Option.bind x (\<lambda>y. keep_input (f y) cs)"
  by (cases x) simp_all

lemma send_keeps: "map_option (\<lambda>s. (Goes_on, s, m)) (gdb_send (s\<lparr>inp := cs\<rparr>) p) =
    keep_input (map_option (\<lambda>s. (Goes_on, s, m)) (gdb_send (s\<lparr>inp := []\<rparr>) p)) cs"
  by (simp add: gdb_send_def Let_def)

lemma send_keeps_bp: "map_option (\<lambda>s. (Goes_on, s, m)) (gdb_send (s\<lparr>inp := cs, gdb := g\<rparr>) p) =
    keep_input (map_option (\<lambda>s. (Goes_on, s, m)) (gdb_send (s\<lparr>inp := [], gdb := g\<rparr>) p)) cs"
  by (simp add: gdb_send_def Let_def)

lemma send_mem_keeps: "map_option (Pair Goes_on) (send_mem (s\<lparr>inp := cs\<rparr>) m a n) =
    keep_input (map_option (Pair Goes_on) (send_mem (s\<lparr>inp := []\<rparr>) m a n)) cs"
  by (simp add: send_mem_def gdb_send_def Let_def split: bind_splits sum.split)

lemma write_mem_keeps: "map_option (Pair Goes_on) (write_mem (s\<lparr>inp := cs\<rparr>) m a n pkt pos) =
    keep_input (map_option (Pair Goes_on) (write_mem (s\<lparr>inp := []\<rparr>) m a n pkt pos)) cs"
  by (auto simp: write_mem_def gdb_send_def Let_def split: bind_splits)

lemma command_keeps:
  "gdb_query (s\<lparr>inp := cs\<rparr>) m pkt = keep_input (gdb_query (s\<lparr>inp := []\<rparr>) m pkt) cs"
  "gdb_read_reg (s\<lparr>inp := cs\<rparr>) m pkt = keep_input (gdb_read_reg (s\<lparr>inp := []\<rparr>) m pkt) cs"
  "gdb_write_reg (s\<lparr>inp := cs\<rparr>) m pkt = keep_input (gdb_write_reg (s\<lparr>inp := []\<rparr>) m pkt) cs"
  "gdb_read_mem (s\<lparr>inp := cs\<rparr>) m pkt = keep_input (gdb_read_mem (s\<lparr>inp := []\<rparr>) m pkt) cs"
  "gdb_write_mem (s\<lparr>inp := cs\<rparr>) m pkt = keep_input (gdb_write_mem (s\<lparr>inp := []\<rparr>) m pkt) cs"
  "gdb_set_bp (s\<lparr>inp := cs\<rparr>) m pkt = keep_input (gdb_set_bp (s\<lparr>inp := []\<rparr>) m pkt) cs"
  "gdb_clear_bp (s\<lparr>inp := cs\<rparr>) m pkt = keep_input (gdb_clear_bp (s\<lparr>inp := []\<rparr>) m pkt) cs"
  unfolding gdb_query_def gdb_read_reg_def gdb_write_reg_def gdb_read_mem_def gdb_write_mem_def gdb_set_bp_def gdb_clear_bp_def
  by (auto simp: send_keeps [where cs = cs] send_keeps_bp [where cs = cs] send_mem_keeps [where cs = cs] write_mem_keeps [where cs = cs] Let_def keep_input_bind
      split: option.split bind_split intro!: option.case_cong)

lemma packet_keeps: "gdb_packet (s\<lparr>inp := cs\<rparr>) m pkt = keep_input (gdb_packet (s\<lparr>inp := []\<rparr>) m pkt) cs"
  unfolding gdb_packet_def Let_def send_regs_def
  by (simp add: command_keeps [where cs = cs] send_keeps [where cs = cs] keep_input_bind)

text \<open>What a session means, with the frames and the acknowledgements left out.\<close>

fun session :: "gdb_io \<Rightarrow> machine \<Rightarrow> u8 list \<Rightarrow> u8 list list \<Rightarrow> (served \<times> gdb_io \<times> machine) option" where
  "session s m pk [] = Some (Resumes, s\<lparr>gdb := gdb_close (gdb s)\<rparr>, m)"
| "session s m pk (p # ps) =
     (case gdb_packet (s\<lparr>outp := outp s @ asc ''+''\<rparr>) m (put_str p pk) of
        None \<Rightarrow> None
      | Some (Goes_on, s1, m1) \<Rightarrow> session s1 m1 (put_str p pk) ps
      | Some (e, s1, m1) \<Rightarrow> Some (e, s1, m1))"

definition client :: "u8 list list \<Rightarrow> u8 list" where
  "client ps = concat (map (\<lambda>p. frame p @ asc ''+'') ps)"

definition deaf :: "(served \<times> gdb_io \<times> machine) option \<Rightarrow> (served \<times> gdb_io \<times> machine) option" where
  "deaf x = map_option (\<lambda>(e, s, m). (e, s\<lparr>inp := []\<rparr>, m)) x"

lemma packet_silent: "gdb_packet (s\<lparr>inp := []\<rparr>) m pkt = Some (e, s1, m1) \<Longrightarrow> inp s1 = []"
  using packet_keeps [where s = s and cs = "[]" and m = m and pkt = pkt] by (cases s1) auto

lemma serve_loop_session:
  assumes "\<forall>p\<in>set ps. sendable p" and "inp s = []"
  shows "deaf (serve_loop (s\<lparr>inp := client ps\<rparr>) m pk) = session s m pk ps"
  using assms
proof (induction ps arbitrary: s m pk)
  case Nil
  then show ?case by (cases s) (simp add: serve_loop.simps recv_nothing client_def deaf_def)
next
  case (Cons p ps)
  let ?s = "s\<lparr>outp := outp s @ asc ''+''\<rparr>" and ?b = "put_str p pk" and ?cs = "asc ''+'' @ client ps"
  have s: "?s\<lparr>inp := []\<rparr> = ?s" using Cons.prems(2) by (cases s) simp
  have k: "gdb_packet (?s\<lparr>inp := ?cs\<rparr>) m ?b = keep_input (gdb_packet ?s m ?b) ?cs"
    using packet_keeps [where s = ?s and cs = ?cs and m = m and pkt = ?b] unfolding s .
  have r: "gdb_recv_packet (s\<lparr>inp := client (p # ps)\<rparr>) pk = Some (?b, ?s\<lparr>inp := ?cs\<rparr>)"
    using Cons.prems(1) by (subst recv_frame0 [where p = p and rest = ?cs]) (simp_all add: client_def)
  show ?case
  proof (cases "gdb_packet ?s m ?b")
    case None
    then show ?thesis using k r by (simp add: serve_loop.simps deaf_def)
  next
    case (Some x)
    obtain e s1 m1 where x: "x = (e, s1, m1)" by (cases x)
    have i: "inp s1 = []" using packet_silent [where s = ?s and m = m and pkt = ?b and e = e and ?s1.0 = s1 and ?m1.0 = m1] Some x s by simp
    then have s1: "s1\<lparr>inp := []\<rparr> = s1" by (cases s1) simp
    have "deaf (serve_loop (s1\<lparr>inp := client ps\<rparr>) m1 ?b) = session s1 m1 ?b ps"
      using Cons.IH Cons.prems(1) i by simp
    then show ?thesis using k r Some x s1
      by (subst serve_loop.simps) (cases e; simp add: asc_def deaf_def)
  qed
qed

section \<open>Single steps\<close>

text \<open>\<open>ask c\<close> is what a client sends for a one-letter command: it acknowledges the stop reply first.\<close>

definition ask :: "char \<Rightarrow> u8 list" where
  "ask c = asc ''+'' @ frame (asc [c])"

definition stopped :: "gdb_io \<Rightarrow> u8 list \<Rightarrow> gdb_io" where
  "stopped io rest = io\<lparr>inp := rest, outp := outp io @ frame (asc ''S05'') @ asc ''+''\<rparr>"

lemma serve_ask:
  assumes "active (gdb io)" "inp io = ask c @ rest" "sendable (asc [c])"
  shows "gdb_serve junk io m = (case gdb_packet (stopped io rest) m (put_str (asc [c]) junk) of
      None \<Rightarrow> None
    | Some (Goes_on, s2, m2) \<Rightarrow> serve_loop s2 m2 (put_str (asc [c]) junk)
    | Some (e, s2, m2) \<Rightarrow> Some (e, s2, m2))"
proof -
  have s: "gdb_send io (asc ''S05'') = Some (io\<lparr>outp := outp io @ frame (asc ''S05''), inp := frame (asc [c]) @ rest\<rparr>)"
    using assms(2) by (simp add: send_frame ask_def asc_def)
  show ?thesis
    using assms(1,3)
    by (simp add: gdb_serve_def s serve_loop.simps [where s = "io\<lparr>outp := _, inp := _\<rparr>"] recv_frame0 [where p = "asc [c]" and rest = rest] stopped_def)
qed

lemma serve_step:
  assumes "active (gdb io)" "inp io = ask CHR ''s'' @ rest"
  shows "gdb_serve junk io m =
    Some (Resumes, (stopped io rest)\<lparr>gdb := (gdb io)\<lparr>stepping := True, halted_for_gdb := False\<rparr>\<rparr>, m)"
  using serve_ask [OF assms] by (simp add: sendable_def gdb_packet_def put_str_def asc_def stopped_def)

lemma serve_kill:
  assumes "active (gdb io)" "inp io = ask CHR ''k'' @ rest"
  shows "gdb_serve junk io m = Some (Exits, (stopped io rest)\<lparr>gdb := gdb_close (gdb io)\<rparr>, m)"
  using serve_ask [OF assms] by (simp add: sendable_def gdb_packet_def put_str_def asc_def stopped_def)

fun steps :: "run_ctx_t \<Rightarrow> nat \<Rightarrow> run_t \<Rightarrow> run_t option" where
  "steps ctx 0 s = Some s"
| "steps ctx (Suc n) s =
     (if halted (cpu (mach s)) then None
      else case step_one ctx s of Some (Went k s1) \<Rightarrow> steps ctx n s1 | _ \<Rightarrow> None)"

definition step_session :: "nat \<Rightarrow> u8 list" where
  "step_session n = concat (replicate n (ask CHR ''s'')) @ ask CHR ''k''"

lemma step_session_simps [simp]:
  "step_session 0 = ask CHR ''k'' @ []" "step_session (Suc n) = ask CHR ''s'' @ step_session n"
  by (simp_all add: step_session_def)

lemma step_one_single: "step_one ctx s = Some (Went k s1) \<Longrightarrow> k = 0"
  by (auto simp: step_one_def Let_def case_prod_unfold split: bind_splits if_splits)

abbreviation (input) ended :: "run_t \<Rightarrow> served" where
  "ended s \<equiv> (if halted (cpu (mach s)) then Resumes else Exits)"

lemma gdb_loop_steps:
  assumes "active (gdb io)" "stepping (gdb io)" "inp io = step_session n" "n < left" "steps ctx n s = Some s'"
  shows "\<exists>io'. gdb_loop ctx junk left s (Some io) = Some (ended s', n, s', Some io')"
  using assms
proof (induction n arbitrary: left s io)
  case 0
  then show ?case
    by (simp add: gdb_loop.simps gdb_pause_def gdb_should_stop_def serve_kill [where rest = "[]"])
next
  case (Suc n)
  let ?io = "io\<lparr>gdb := (gdb io)\<lparr>stepping := False, halted_for_gdb := True\<rparr>\<rparr>"
  let ?io1 = "(stopped ?io (step_session n))\<lparr>gdb := (gdb ?io)\<lparr>stepping := True, halted_for_gdb := False\<rparr>\<rparr>"
  have h: "\<not> halted (cpu (mach s))" using Suc.prems(5) by (auto split: if_splits)
  obtain s1 where s1: "step_one ctx s = Some (Went 0 s1)" "steps ctx n s1 = Some s'"
    using Suc.prems(5) step_one_single [of ctx s] h by (auto split: option.splits iter.splits)
  have p: "gdb_pause junk s (Some io) = Some (Resumes, s, Some ?io1)"
    using Suc.prems serve_step [of ?io "step_session n"] by (simp add: gdb_pause_def gdb_should_stop_def)
  have "\<exists>io'. gdb_loop ctx junk (left - 1) s1 (Some ?io1) = Some (ended s', n, s', Some io')"
    using Suc.prems by (intro Suc.IH) (simp_all add: s1 stopped_def)
  then show ?case
    using Suc.prems(4) h p s1(1) by (subst gdb_loop.simps) (auto simp: gdb_iter_def)
qed

text \<open>A plain run without the block compiler takes the same steps, whatever block cache there is.\<close>

lemma step_one_jit:
  "step_one ctx (s\<lparr>jit := j\<rparr>) = map_option (\<lambda>r. case r of Stop s1 \<Rightarrow> Stop (s1\<lparr>jit := j\<rparr>) | Went k s1 \<Rightarrow> Went k (s1\<lparr>jit := j\<rparr>)) (step_one ctx s)"
  by (auto simp: step_one_def Let_def case_prod_unfold split: bind_splits)

lemma steps_jit: "steps ctx n s = Some s' \<Longrightarrow> steps ctx n (s\<lparr>jit := j\<rparr>) = Some (s'\<lparr>jit := j\<rparr>)"
  by (induction n arbitrary: s) (auto simp: step_one_jit split: if_splits option.splits iter.splits)

lemma step_one_keeps_jit: "step_one ctx s = Some (Went k s1) \<Longrightarrow> jit s1 = jit s"
  by (auto simp: step_one_def Let_def case_prod_unfold split: bind_splits if_splits)

lemma run_loop_steps:
  assumes "jit s = None" "run_loop ctx n s = Some (n, s')"
  shows "steps ctx n s = Some s'"
  using assms
proof (induction n arbitrary: s)
  case 0
  then show ?case by (simp add: run_loop.simps)
next
  case (Suc n)
  have h: "\<not> halted (cpu (mach s))" using Suc.prems(2) by (subst (asm) run_loop.simps) (auto split: if_splits)
  have r: "run_iter ctx (Suc n) s = step_one ctx s" using Suc.prems(1) by (simp add: run_iter_def try_chain_def)
  obtain k s1 where s1: "step_one ctx s = Some (Went k s1)"
    using Suc.prems(2) h by (subst (asm) run_loop.simps) (auto simp: r split: option.splits iter.splits)
  have k: "k = 0" by (rule step_one_single [OF s1])
  have "run_loop ctx n s1 = Some (n, s')"
    using Suc.prems(2) h s1 k by (subst (asm) run_loop.simps) (auto simp: r split: option.splits)
  then have "steps ctx n s1 = Some s'" using Suc.IH step_one_keeps_jit [OF s1] Suc.prems(1) by simp
  then show ?case using h s1 by simp
qed

lemma run_gdb_steps:
  assumes "active (gdb io)" "halted_for_gdb (gdb io)" "inp io = step_session (Suc n)" "n < unat max_steps"
    and "run_steps_full_gc (ctx_of_globals ctx g (mach s)) (s\<lparr>jit := None\<rparr>) (of_nat n) = Some (of_nat n, s')"
  shows "\<exists>s'' io'. run_steps_full_gdb ctx g junk s max_steps (Some io) = Some (ended s', of_nat n, s'', Some io') \<and>
    mach s'' = mach s'"
proof -
  let ?c = "ctx_of_globals ctx g (mach s)" and ?j = "Some (case jit s of None \<Rightarrow> jit_init | Some j \<Rightarrow> j)"
  let ?s = "s\<lparr>jit := None, dcache := dcache_invalidate (stack_insn ?c)\<rparr>"
  let ?io = "(stopped io (step_session n))\<lparr>gdb := (gdb io)\<lparr>stepping := True, halted_for_gdb := False\<rparr>\<rparr>"
  have n: "n < 2 ^ 64" using assms(4) unsigned_less [of max_steps, where ?'a = nat] by simp
  then have u: "unat (of_nat n :: u64) = n" by (simp add: unsigned_of_nat take_bit_nat_eq_self)
  obtain i where i: "run_loop ?c n ?s = Some (i, s')" "of_nat i = (of_nat n :: u64)"
    using assms(5) u by (auto simp: run_steps_full_gc_def split: bind_splits)
  have "i \<le> n" using run_loop_count [OF _ n i(1)] by (simp add: run_ok_def)
  then have "unat (of_nat i :: u64) = i" using n by (simp add: unsigned_of_nat take_bit_nat_eq_self)
  then have "i = n" using i(2) u by simp
  then have "steps ?c n (?s\<lparr>jit := ?j\<rparr>) = Some (s'\<lparr>jit := ?j\<rparr>)"
    using run_loop_steps i(1) by (intro steps_jit) simp
  moreover have "active (gdb ?io)" "stepping (gdb ?io)" "inp ?io = step_session n"
    using assms(1) by (simp_all add: stopped_def)
  ultimately obtain io' where "gdb_loop ?c junk (unat max_steps) (?s\<lparr>jit := ?j\<rparr>) (Some ?io) =
      Some (ended (s'\<lparr>jit := ?j\<rparr>), n, s'\<lparr>jit := ?j\<rparr>, Some io')"
    using gdb_loop_steps [OF _ _ _ assms(4)] by blast
  moreover have "gdb_serve junk io (mach s) = Some (Resumes, ?io, mach s)"
    using assms by (intro serve_step) simp_all
  moreover have "?s\<lparr>jit := ?j\<rparr> = s\<lparr>mach := mach s, dcache := dcache_invalidate (stack_insn ?c), jit := ?j\<rparr>"
    by simp
  ultimately show ?thesis
    using assms(1,2) by (cases "jit s") (simp_all add: run_steps_full_gdb_def Let_def)
qed

section \<open>Breakpoints\<close>

lemma mset_last_butlast: "bs \<noteq> [] \<Longrightarrow> add_mset (last bs) (mset (butlast bs)) = mset bs"
  by (induction bs) auto

lemma remove_bp_mset: "mset (remove_bp a bs) = mset bs - {#a#}"
  by (induction bs) (auto simp: mset_last_butlast diff_add_mset_swap)

lemma bp_address_digits:
  assumes "\<forall>c\<in>set ds. is_hex c"
  shows "bp_address (put_str (asc [z, CHR ''0'', CHR '',''] @ ds @ asc '','' @ kd) pk) = Some (Some (hex_to_u32 ds))"
proof -
  let ?t = "ds @ asc '','' @ kd" and ?r = "drop (Suc (length (asc [z, CHR ''0'', CHR '',''] @ ds @ asc '','' @ kd))) pk"
  have p: "put_str (asc [z, CHR ''0'', CHR '',''] @ ?t) pk = asc [z, CHR ''0'', CHR '',''] @ ds @ asc '','' @ kd @ [0] @ ?r"
    by (simp add: put_str_def)
  have nz: "\<forall>c\<in>set ds. c \<noteq> 0 \<and> c \<noteq> of_char CHR '',''" using assms hex_no_mark by blast
  have tw: "takeWhile (\<lambda>b. b \<noteq> 0) (ds @ asc '','' @ kd @ [0] @ ?r) = ds @ asc '','' @ takeWhile (\<lambda>b. b \<noteq> 0) kd"
    using nz by (subst takeWhile_append2) (auto simp: asc_def takeWhile_append takeWhile_eq_all_conv [THEN iffD2])
  show ?thesis
    using nz hex_at_append [of "asc [z, CHR ''0'', CHR '','']" ds "asc '','' @ kd @ [0] @ ?r"]
    unfolding p bp_address_def strchr_def c_str_def
    by (auto simp: tw takeWhile_append asc_def numeral_3_eq_3)
qed

lemma set_bp_packet:
  assumes "\<forall>c\<in>set ds. is_hex c"
  shows "gdb_packet s m (put_str (asc ''Z0,'' @ ds @ asc '','' @ kd) pk) =
    (if length (bp (gdb s)) < 32
     then Some (Goes_on, s\<lparr>gdb := (gdb s)\<lparr>bp := bp (gdb s) @ [hex_to_u32 ds]\<rparr>, outp := outp s @ frame (asc ''OK''), inp := drop 1 (inp s)\<rparr>, m)
     else Some (Goes_on, s\<lparr>outp := outp s @ frame (asc ''E16''), inp := drop 1 (inp s)\<rparr>, m))"
proof -
  have "put_str (asc ''Z0,'' @ ds @ asc '','' @ kd) pk ! 0 = of_char CHR ''Z''"
    "put_str (asc ''Z0,'' @ ds @ asc '','' @ kd) pk ! 1 = of_char CHR ''0''"
    by (simp_all add: put_str_def asc_def)
  then show ?thesis
    using bp_address_digits [OF assms, of "CHR ''Z''" kd pk]
    by (simp add: gdb_packet_def gdb_set_bp_def send_frame asc_def)
qed

lemma clear_bp_packet:
  assumes "\<forall>c\<in>set ds. is_hex c"
  shows "gdb_packet s m (put_str (asc ''z0,'' @ ds @ asc '','' @ kd) pk) =
    Some (Goes_on, s\<lparr>gdb := (gdb s)\<lparr>bp := remove_bp (hex_to_u32 ds) (bp (gdb s))\<rparr>, outp := outp s @ frame (asc ''OK''), inp := drop 1 (inp s)\<rparr>, m)"
proof -
  have "put_str (asc ''z0,'' @ ds @ asc '','' @ kd) pk ! 0 = of_char CHR ''z''"
    "put_str (asc ''z0,'' @ ds @ asc '','' @ kd) pk ! 1 = of_char CHR ''0''"
    by (simp_all add: put_str_def asc_def)
  then show ?thesis
    using bp_address_digits [OF assms, of "CHR ''z''" kd pk]
    by (simp add: gdb_packet_def gdb_clear_bp_def send_frame asc_def)
qed

text \<open>Setting and clearing: what the commands do to the list, and when the run stops after them.\<close>

lemma breakpoints:
  assumes ds: "\<forall>c\<in>set ds. is_hex c"
    and z: "gdb_packet s m (put_str (asc ''Z0,'' @ ds @ asc '','' @ kd) pk) = Some (e, s1, m1)"
    and c: "gdb_packet s m (put_str (asc ''z0,'' @ ds @ asc '','' @ kd) pk) = Some (e2, s2, m2)"
  shows "e = Goes_on \<and> m1 = m \<and> e2 = Goes_on \<and> m2 = m \<and>
    active (gdb s1) = active (gdb s) \<and> stepping (gdb s1) = stepping (gdb s) \<and>
    active (gdb s2) = active (gdb s) \<and> stepping (gdb s2) = stepping (gdb s) \<and>
    mset (bp (gdb s1)) = (if length (bp (gdb s)) < 32 then add_mset (hex_to_u32 ds) (mset (bp (gdb s))) else mset (bp (gdb s))) \<and>
    mset (bp (gdb s2)) = mset (bp (gdb s)) - {#hex_to_u32 ds#} \<and>
    (length (bp (gdb s)) < 32 \<longrightarrow> (gdb_should_stop (gdb s1) cp \<longleftrightarrow>
        gdb_should_stop (gdb s) cp \<or> active (gdb s) \<and> r_of cp REG_PC = hex_to_u32 ds)) \<and>
    (\<not> length (bp (gdb s)) < 32 \<longrightarrow> gdb s1 = gdb s \<and> outp s1 = outp s @ frame (asc ''E16'')) \<and>
    (gdb_should_stop (gdb s2) cp \<longleftrightarrow> active (gdb s) \<and>
       (stepping (gdb s) \<or> r_of cp REG_PC \<in># mset (bp (gdb s)) - {#hex_to_u32 ds#}))"
proof -
  have "set (remove_bp (hex_to_u32 ds) (bp (gdb s))) = set_mset (mset (bp (gdb s)) - {#hex_to_u32 ds#})"
    by (metis remove_bp_mset set_mset_mset)
  then show ?thesis
    using z c unfolding set_bp_packet [OF ds] clear_bp_packet [OF ds]
    by (auto simp: remove_bp_mset gdb_should_stop_def split: if_splits)
qed

end
