(* ===== verification/Gdb_Demo.thy ===== *)
theory Gdb_Demo
  imports Demo Gdb_Laws
begin

text \<open>A debugger on the board of Demo: its connection, and one instruction of the firmware under it.\<close>

definition demo_dbg :: "u8 list \<Rightarrow> gdb_io" where
  "demo_dbg cs = the (gdb_listen (Some cs))"

lemma demo_dbg_fields [simp]:
  "active (gdb (demo_dbg cs))" "halted_for_gdb (gdb (demo_dbg cs))" "bp (gdb (demo_dbg cs)) = []"
  "inp (demo_dbg cs) = cs" "outp (demo_dbg cs) = []" "(demo_dbg cs)\<lparr>inp := cs'\<rparr> = demo_dbg cs'"
  by (simp_all add: demo_dbg_def gdb_listen_def)

definition gdb_ctx :: run_ctx_t where
  "gdb_ctx = ctx_of_globals demo_ctx True (mach demo_run)"

lemma demo_no_nvic: "\<not> g_nvic_for_run demo_machine"
  unfolding demo_flashed
  by (simp add: demo_new_def board_create_known [OF demo_profile] attach_all_def uart_attach_def systick_attach_def
      scb_attach_def mpu_attach_def stm32_attach_def dwt_attach_def nvic_attach_def eth_attach_def Let_def calloc_machine_def)

lemma gdb_ctx_eq: "gdb_ctx = demo_ctx\<lparr>with_nvic := False\<rparr>"
  using demo_no_nvic by (simp add: gdb_ctx_def ctx_of_globals_def demo_run_def demo_ctx_def)

lemma demo_one_step:
  "\<exists>s'. run_steps_full_gc gdb_ctx (demo_run\<lparr>jit := None\<rparr>) 1 = Some (1, s') \<and> reg (mach s') 0 = 5 \<and> \<not> halted (cpu (mach s'))"
proof -
  let ?i0 = "stack_insn gdb_ctx" and ?m = demo_machine
  have i0: "?i0 = stack_insn demo_ctx" by (simp add: gdb_ctx_eq)
  obtain rs where r: "regions ?m = demo_rom # rs" using demo_regions by simp
  note D = demo_decode(1) [OF r, of ?i0]
  obtain f where f: "execute ?m (fst (snd (decode ?m 8 ?i0))) = Some (True, cpu_update f ?m)" "stepped (cpu ?m) 5 (f (cpu ?m))"
    using demo_exec(1) [of "fst (snd (decode ?m 8 ?i0))" ?m] demo_cpu unfolding D by auto
  let ?m1 = "(cpu_update f ?m)\<lparr>d_dwt := dwt_tick (d_dwt ?m)\<rparr>"
  have t: "tick_one gdb_ctx (cpu_update f ?m) = ?m1"
    using demo_quiet by (simp add: tick_one_def gdb_ctx_eq demo_ctx_def quiet_def systick_tick_def)
  have c: "check_irqs gdb_ctx ?m1 = Some ?m1"
    using demo_quiet f(2) by (simp add: check_irqs_def gdb_ctx_eq demo_ctx_def quiet_def stepped_def)
  have pc: "reg ?m REG_PC = 8" by (simp add: demo_cpu)
  obtain e where "step_one gdb_ctx (demo_run\<lparr>jit := None, dcache := dcache_invalidate ?i0\<rparr>) = Some (Went 0
      (demo_run\<lparr>jit := None, dcache := e, mach := ?m1\<rparr>))"
    using D f(1) t c pc
    by (auto simp: step_one_def cache_decode_def Let_def dcache_invalidate_def demo_run_def)
  then have "run_loop gdb_ctx 1 (demo_run\<lparr>jit := None, dcache := dcache_invalidate ?i0\<rparr>) =
      Some (1, demo_run\<lparr>jit := None, dcache := e, mach := ?m1\<rparr>)"
    using demo_quiet
    by (simp add: run_loop.simps [of _ "Suc 0"] run_loop.simps [of _ 0] run_iter_def try_chain_def quiet_def demo_run_def)
  then show ?thesis
    using f(2) demo_quiet by (auto simp: run_steps_full_gc_def stepped_def quiet_def)
qed

end
