(* ===== verification/Tt_Files.thy ===== *)
theory Tt_Files
  imports Tt
begin

text \<open>
  The rest of \<^verbatim>\<open>src/core/tt.c\<close>: recording through a run context, the end of a recording, snapshots
  in files and the report of the differences between two snapshots.
\<close>

section \<open>Recording through a context\<close>

text \<open>\<open>tt\<close> and \<open>replay\<close> are the fields of the \<^verbatim>\<open>run_ctx_t\<close>; the length is the frame's.\<close>

definition tt_record_irq_ctx :: "(nat \<Rightarrow> bool) \<Rightarrow> tt_t option \<Rightarrow> bool \<Rightarrow> u64 \<Rightarrow> u8 \<Rightarrow> tt_t option" where
  "tt_record_irq_ctx alloc tt replay cyc irq =
     (if replay then tt
      else map_option (\<lambda>t. t\<lparr>tt_log := snd (ev_log_append alloc (tt_log t) cyc EVENT_IRQ_INJECT (to32 irq))\<rparr>) tt)"

definition tt_record_uart_rx_ctx :: "(nat \<Rightarrow> bool) \<Rightarrow> tt_t option \<Rightarrow> bool \<Rightarrow> u64 \<Rightarrow> u8 \<Rightarrow> tt_t option" where
  "tt_record_uart_rx_ctx alloc tt replay cyc b =
     (if replay then tt
      else map_option (\<lambda>t. t\<lparr>tt_log := snd (ev_log_append alloc (tt_log t) cyc EVENT_UART_RX (to32 b))\<rparr>) tt)"

definition tt_record_eth_rx_ctx :: "(nat \<Rightarrow> bool) \<Rightarrow> tt_t option \<Rightarrow> bool \<Rightarrow> u64 \<Rightarrow> u8 list \<Rightarrow> tt_t option" where
  "tt_record_eth_rx_ctx alloc tt replay cyc pkt =
     (if replay \<or> pkt = [] then tt
      else map_option
        (\<lambda>t. if length (frames t) \<ge> TT_ETH_MAX then t
             else
               (let cap = (if length pkt < TT_ETH_MTU then length pkt else TT_ETH_MTU);
                    n = length (frames t);
                    (ok, lg) = ev_log_append alloc (tt_log t) cyc EVENT_ETH_RX (of_nat n)
                in if ok then t\<lparr>frames := frames t @ [\<lparr>fr_bytes = take cap pkt\<rparr>], tt_log := lg\<rparr>
                   else t\<lparr>tt_log := lg\<rparr>)) tt)"

text \<open>Both ways of recording agree.\<close>

lemma record_ctx:
  "tt_record_irq_ctx alloc tt replay cyc irq = tt_record_irq alloc replay tt cyc irq"
  "tt_record_uart_rx_ctx alloc tt replay cyc b = tt_record_uart_rx alloc replay tt cyc b"
  "tt_record_eth_rx_ctx alloc tt replay cyc pkt = snd (tt_record_eth_rx alloc replay tt cyc pkt)"
  by (cases tt; simp add: tt_record_irq_ctx_def tt_record_irq_def tt_record_uart_rx_ctx_def tt_record_uart_rx_def
      tt_record_eth_rx_ctx_def tt_record_eth_rx_def case_prod_unfold Let_def)+

definition tt_ev_log_count :: "tt_t option \<Rightarrow> nat" where
  "tt_ev_log_count tt = (case tt of Some t \<Rightarrow> length (lg_buf (tt_log t)) | None \<Rightarrow> 0)"

definition ev_log_free :: "ev_log_t \<Rightarrow> ev_log_t" where
  "ev_log_free lg = lg\<lparr>lg_buf := [], lg_cap := 0, lg_pos := 0\<rparr>"

text \<open>The global \<^verbatim>\<open>g_tt\<close> after the recording is gone; \<open>same\<close> is whether it pointed to it.\<close>

definition tt_destroy :: "bool \<Rightarrow> tt_t option \<Rightarrow> tt_t option" where
  "tt_destroy same g_tt = (if same then None else g_tt)"

section \<open>Files\<close>

text \<open>
  \<open>raw\<close> is the whole struct as bytes and \<open>fill\<close> overwrites its first bytes, as \<open>fread\<close> does; both
  are the host's.  \<open>room\<close> is how many bytes the file takes, \<open>None\<close> for a file that cannot be opened.
\<close>

definition snap_save_to_file :: "(snap_blob_t \<Rightarrow> u8 list) \<Rightarrow> nat option \<Rightarrow> snap_blob_t \<Rightarrow> bool \<times> u8 list option" where
  "snap_save_to_file raw room b =
     (case room of
        None \<Rightarrow> (False, None)
      | Some n \<Rightarrow> (let cs = take n (raw b) in (length cs = length (raw b), Some cs)))"

definition snap_load_from_file :: "(snap_blob_t \<Rightarrow> u8 list) \<Rightarrow> (u8 list \<Rightarrow> snap_blob_t \<Rightarrow> snap_blob_t) \<Rightarrow> nat
    \<Rightarrow> u8 list option \<Rightarrow> snap_blob_t \<Rightarrow> bool \<times> snap_blob_t" where
  "snap_load_from_file bytes fill len file b =
     (case file of
        None \<Rightarrow> (False, b)
      | Some cs \<Rightarrow>
          (let b = fill (take len cs) b
           in if length (take len cs) \<noteq> len then (False, b)
              else if magic b \<noteq> SNAP_MAGIC \<or> version b \<noteq> SNAP_VERSION then (False, b)
              else (snap_xor32 (bytes (b\<lparr>checksum := 0\<rparr>)) = checksum b, b)))"

lemma saved_file_loads:
  assumes "fill (raw b) b0 = b" "length (raw b) = len" "blob_valid bytes b" "len \<le> n"
  shows "snap_load_from_file bytes fill len (snd (snap_save_to_file raw (Some n) b)) b0 = (True, b)"
  using assms by (simp add: snap_load_from_file_def snap_save_to_file_def blob_valid_def Let_def)

lemma full_disk: "n < length (raw b) \<Longrightarrow> \<not> fst (snap_save_to_file raw (Some n) b)"
  by (simp add: snap_save_to_file_def Let_def)

section \<open>Differences\<close>

text \<open>A line of the report is what is printed in it; \<open>D_SRAM\<close> has the first and the last address.\<close>

datatype diff_line = D_CYCLE u64 u64 | D_REG nat u32 u32 | D_APSR u32 u32 | D_SRAM u32 u32 u32

text \<open>The loops over the bytes below \<^verbatim>\<open>sz\<close>: \<open>run_end\<close> is the inner one.\<close>

lemma unat_next: "k < sz \<Longrightarrow> unat (k + 1 :: u32) = Suc (unat k)"
  using unat_lt32 [of sz] by (simp add: word_less_nat_alt unat_word_ariths)

function run_end :: "(u32 \<Rightarrow> u8) \<Rightarrow> (u32 \<Rightarrow> u8) \<Rightarrow> u32 \<Rightarrow> u32 \<Rightarrow> u32" where
  "run_end a b sz k = (if k < sz \<and> a k \<noteq> b k then run_end a b sz (k + 1) else k)"
  by pat_completeness auto
termination
  by (relation "measure (\<lambda>(a, b, sz, k). unat sz - unat k)") (auto simp: unat_next word_less_nat_alt)

declare run_end.simps [simp del]

lemma run_end_spec:
  "k \<le> run_end a b sz k \<and> (k \<le> sz \<longrightarrow> run_end a b sz k \<le> sz) \<and>
   (\<forall>i. k \<le> i \<and> i < run_end a b sz k \<longrightarrow> a i \<noteq> b i) \<and>
   (run_end a b sz k < sz \<longrightarrow> a (run_end a b sz k) = b (run_end a b sz k))"
proof (induction a b sz k rule: run_end.induct)
  case (1 a b sz k)
  show ?case
  proof (cases "k < sz \<and> a k \<noteq> b k")
    case True
    then have e: "run_end a b sz k = run_end a b sz (k + 1)" by (simp add: run_end.simps [of _ _ _ k])
    have n: "unat (k + 1) = Suc (unat k)" using True unat_next by blast
    have "i = k \<or> k + 1 \<le> i" if "k \<le> i" for i
    proof -
      have "unat i = unat k \<or> Suc (unat k) \<le> unat i" using that by (auto simp: word_le_nat_alt)
      then show ?thesis using n by (auto simp: word_le_nat_alt word_unat_eq_iff [of i k])
    qed
    then show ?thesis using "1.IH" [OF True] True n e by (auto simp: word_le_nat_alt word_less_nat_alt)
  next
    case False
    then show ?thesis by (auto simp: run_end.simps [of _ _ _ k])
  qed
qed

lemma run_end_more: "k < sz \<Longrightarrow> a k \<noteq> b k \<Longrightarrow> k < run_end a b sz k"
proof -
  assume k: "k < sz" "a k \<noteq> b k"
  then have "run_end a b sz k = run_end a b sz (k + 1)" by (simp add: run_end.simps [of _ _ _ k])
  then have "k + 1 \<le> run_end a b sz k" using run_end_spec [where k = "k + 1"] by simp
  then show ?thesis using unat_next [OF k(1)] by (simp add: word_le_nat_alt word_less_nat_alt)
qed

function diff_sram :: "(u32 \<Rightarrow> u8) \<Rightarrow> (u32 \<Rightarrow> u8) \<Rightarrow> u32 \<Rightarrow> u32 \<Rightarrow> diff_line list" where
  "diff_sram a b sz j =
     (if j < sz then
        if a j \<noteq> b j then
          (let k = run_end a b sz j
           in D_SRAM (SRAM_BASE_ADDR + j) (SRAM_BASE_ADDR + k - 1) (k - j) # diff_sram a b sz k)
        else diff_sram a b sz (j + 1)
      else [])"
  by pat_completeness auto
termination
  using run_end_more
  by (relation "measure (\<lambda>(a, b, sz, j). unat sz - unat j)") (auto simp: unat_next word_less_nat_alt intro!: diff_less_mono2)

declare diff_sram.simps [simp del]

definition tt_diff :: "snap_blob_t \<Rightarrow> snap_blob_t \<Rightarrow> diff_line list" where
  "tt_diff a b =
     (if sn_cycle a \<noteq> sn_cycle b then [D_CYCLE (sn_cycle a) (sn_cycle b)] else []) @
     concat (map (\<lambda>i. let x = r_of (sn_cpu a) (of_nat i); y = r_of (sn_cpu b) (of_nat i)
                      in if x \<noteq> y then [D_REG i x y] else []) [0..<16]) @
     (if apsr (sn_cpu a) \<noteq> apsr (sn_cpu b) then [D_APSR (apsr (sn_cpu a)) (apsr (sn_cpu b))] else []) @
     diff_sram (sram a) (sram b) (if sram_size a < sram_size b then sram_size a else sram_size b) 0"

text \<open>The report names exactly the bytes that differ, in ranges that cannot be extended.\<close>

definition in_line :: "u32 \<Rightarrow> diff_line \<Rightarrow> bool" where
  "in_line i l \<longleftrightarrow> (case l of D_SRAM x y n \<Rightarrow> x - SRAM_BASE_ADDR \<le> i \<and> i < x - SRAM_BASE_ADDR + n | _ \<Rightarrow> False)"

lemma diff_sram_exact:
  "(\<exists>l\<in>set (diff_sram a b sz j). in_line i l) \<longleftrightarrow> j \<le> i \<and> i < sz \<and> a i \<noteq> b i"
proof (induction a b sz j rule: diff_sram.induct)
  case (1 a b sz j)
  consider "\<not> j < sz" | "j < sz" "a j = b j" | "j < sz" "a j \<noteq> b j" by blast
  then show ?case
  proof cases
    case 1
    then show ?thesis by (auto simp: diff_sram.simps [of _ _ _ j])
  next
    case 2
    have "j \<le> i \<longleftrightarrow> i = j \<or> j + 1 \<le> i"
    proof -
      have "unat j \<le> unat i \<longleftrightarrow> unat i = unat j \<or> Suc (unat j) \<le> unat i" by auto
      then show ?thesis using unat_next [OF 2(1)] by (auto simp: word_le_nat_alt word_unat_eq_iff [of i j])
    qed
    then show ?thesis using "1.IH"(2) 2 by (auto simp: diff_sram.simps [of _ _ _ j])
  next
    case 3
    let ?k = "run_end a b sz j"
    have k: "j < ?k" "?k \<le> sz" "\<And>i. j \<le> i \<Longrightarrow> i < ?k \<Longrightarrow> a i \<noteq> b i"
      using run_end_more [of j sz a b] run_end_spec [of j a b sz] 3 by auto
    have "(\<exists>l\<in>set (diff_sram a b sz j). in_line i l) \<longleftrightarrow>
        (j \<le> i \<and> i < ?k) \<or> (\<exists>l\<in>set (diff_sram a b sz ?k). in_line i l)"
      using 3 by (subst diff_sram.simps) (simp add: Let_def in_line_def)
    also have "\<dots> \<longleftrightarrow> (j \<le> i \<and> i < ?k) \<or> (?k \<le> i \<and> i < sz \<and> a i \<noteq> b i)"
      using "1.IH"(1) [OF 3 refl] by simp
    also have "\<dots> \<longleftrightarrow> j \<le> i \<and> i < sz \<and> a i \<noteq> b i"
      using k by (meson less_le_trans less_imp_le order_trans not_le)
    finally show ?thesis .
  qed
qed

lemma diff_sram_maximal:
  "D_SRAM x y n \<in> set (diff_sram a b sz j) \<Longrightarrow>
    n \<noteq> 0 \<and> y = x + n - 1 \<and> (x - SRAM_BASE_ADDR + n < sz \<longrightarrow> a (x - SRAM_BASE_ADDR + n) = b (x - SRAM_BASE_ADDR + n))"
proof (induction a b sz j rule: diff_sram.induct)
  case (1 a b sz j)
  let ?k = "run_end a b sz j"
  have k: "a j \<noteq> b j \<Longrightarrow> j < sz \<Longrightarrow> ?k \<noteq> j" "?k < sz \<longrightarrow> a ?k = b ?k"
    using run_end_more [of j sz a b] run_end_spec [of j a b sz] by auto
  show ?case
    using "1.prems" "1.IH"(1) [OF _ _ refl] "1.IH"(2) k
    by (subst (asm) diff_sram.simps) (auto simp: Let_def split: if_splits)
qed

text \<open>A range begins at the first byte, or behind one that agrees.\<close>

lemma diff_sram_start:
  "(j \<noteq> 0 \<and> j < sz \<and> a j \<noteq> b j \<longrightarrow> a (j - 1) = b (j - 1)) \<Longrightarrow> D_SRAM x y n \<in> set (diff_sram a b sz j) \<Longrightarrow>
    x - SRAM_BASE_ADDR \<noteq> 0 \<longrightarrow> a (x - SRAM_BASE_ADDR - 1) = b (x - SRAM_BASE_ADDR - 1)"
proof (induction a b sz j rule: diff_sram.induct)
  case (1 a b sz j)
  let ?k = "run_end a b sz j"
  have k: "?k < sz \<longrightarrow> a ?k = b ?k" using run_end_spec [of j a b sz] by blast
  consider "\<not> j < sz" | "j < sz" "a j = b j" | "j < sz" "a j \<noteq> b j" by blast
  then show ?case
  proof cases
    case 1
    then show ?thesis using "1.prems"(2) by (simp add: diff_sram.simps [of _ _ _ j])
  next
    case 2
    then show ?thesis using "1.IH"(2) "1.prems"(2) by (simp add: diff_sram.simps [of _ _ _ j])
  next
    case 3
    then show ?thesis using "1.IH"(1) [OF 3 refl] k "1.prems" by (auto simp: diff_sram.simps [of _ _ _ j] Let_def)
  qed
qed

lemma diff_sram_from: "D_SRAM x y n \<in> set (diff_sram a b sz j) \<Longrightarrow> j \<le> x - SRAM_BASE_ADDR"
proof (induction a b sz j rule: diff_sram.induct)
  case (1 a b sz j)
  let ?k = "run_end a b sz j"
  consider "\<not> j < sz" | "j < sz" "a j = b j" | "j < sz" "a j \<noteq> b j" by blast
  then show ?case
  proof cases
    case 1
    then show ?thesis using "1.prems" by (simp add: diff_sram.simps [of _ _ _ j])
  next
    case 2
    then have "j + 1 \<le> x - SRAM_BASE_ADDR" using "1.IH"(2) "1.prems" by (simp add: diff_sram.simps [of _ _ _ j])
    then show ?thesis using unat_next [OF 2(1)] by (simp add: word_le_nat_alt)
  next
    case 3
    then show ?thesis using "1.IH"(1) [OF 3 refl] run_end_spec [of j a b sz] "1.prems"
      by (auto simp: diff_sram.simps [of _ _ _ j] Let_def intro: order_trans)
  qed
qed

lemma diff_sram_distinct: "distinct (diff_sram a b sz j)"
proof (induction a b sz j rule: diff_sram.induct)
  case (1 a b sz j)
  show ?case
  proof (cases "j < sz \<and> a j \<noteq> b j")
    case True
    let ?k = "run_end a b sz j"
    have "j < ?k" using run_end_more True by blast
    then have "D_SRAM (SRAM_BASE_ADDR + j) y n \<notin> set (diff_sram a b sz ?k)" for y n
      using diff_sram_from [of "SRAM_BASE_ADDR + j" y n a b sz ?k] by auto
    then show ?thesis using "1.IH"(1) True by (simp add: diff_sram.simps [of _ _ _ j] Let_def)
  next
    case False
    then show ?thesis using "1.IH"(2) by (simp add: diff_sram.simps [of _ _ _ j])
  qed
qed

lemma diff_sram_lines: "l \<in> set (diff_sram a b sz j) \<Longrightarrow> \<exists>x y n. l = D_SRAM x y n"
proof (induction a b sz j rule: diff_sram.induct)
  case (1 a b sz j)
  then show ?case by (subst (asm) diff_sram.simps) (auto simp: Let_def split: if_splits)
qed

lemma tt_diff_sram:
  "l \<in> set (tt_diff a b) \<and> (\<exists>x y n. l = D_SRAM x y n) \<longleftrightarrow> l \<in> set (diff_sram (sram a) (sram b) (min (sram_size a) (sram_size b)) 0)"
  using diff_sram_lines [of l]
  by (auto simp: tt_diff_def Let_def min_def split: if_splits)

lemma in_line_sram: "in_line i l \<Longrightarrow> \<exists>x y n. l = D_SRAM x y n"
  by (cases l) (simp_all add: in_line_def)

lemma tt_diff_bytes:
  "(\<exists>l\<in>set (tt_diff a b). in_line i l) \<longleftrightarrow> i < min (sram_size a) (sram_size b) \<and> sram a i \<noteq> sram b i"
proof -
  have "(\<exists>l\<in>set (tt_diff a b). in_line i l) \<longleftrightarrow>
      (\<exists>l. (l \<in> set (tt_diff a b) \<and> (\<exists>x y n. l = D_SRAM x y n)) \<and> in_line i l)"
    using in_line_sram by blast
  also have "\<dots> \<longleftrightarrow> i < min (sram_size a) (sram_size b) \<and> sram a i \<noteq> sram b i"
    unfolding tt_diff_sram using diff_sram_exact [of "sram a" "sram b" "min (sram_size a) (sram_size b)" 0 i] by auto
  finally show ?thesis .
qed

lemma tt_diff_regs:
  "D_REG i x y \<in> set (tt_diff a b) \<longleftrightarrow> i < 16 \<and> x = r_of (sn_cpu a) (of_nat i) \<and> y = r_of (sn_cpu b) (of_nat i) \<and> x \<noteq> y"
  using diff_sram_lines [of "D_REG i x y"] by (auto simp: tt_diff_def Let_def split: if_splits)

lemma tt_diff_ranges:
  assumes "D_SRAM x y n \<in> set (tt_diff a b)"
  shows "n \<noteq> 0" "y = x + n - 1"
    "x - SRAM_BASE_ADDR + n < min (sram_size a) (sram_size b) \<Longrightarrow>
      sram a (x - SRAM_BASE_ADDR + n) = sram b (x - SRAM_BASE_ADDR + n)"
    "x - SRAM_BASE_ADDR \<noteq> 0 \<Longrightarrow> sram a (x - SRAM_BASE_ADDR - 1) = sram b (x - SRAM_BASE_ADDR - 1)"
proof -
  have d: "D_SRAM x y n \<in> set (diff_sram (sram a) (sram b) (min (sram_size a) (sram_size b)) 0)"
    using tt_diff_sram assms by blast
  note m = diff_sram_maximal [OF d]
  show "n \<noteq> 0" "y = x + n - 1"
    "x - SRAM_BASE_ADDR + n < min (sram_size a) (sram_size b) \<Longrightarrow>
      sram a (x - SRAM_BASE_ADDR + n) = sram b (x - SRAM_BASE_ADDR + n)"
    using m by blast+
  show "x - SRAM_BASE_ADDR \<noteq> 0 \<Longrightarrow> sram a (x - SRAM_BASE_ADDR - 1) = sram b (x - SRAM_BASE_ADDR - 1)"
    using diff_sram_start [OF _ d] by simp
qed

text \<open>No line is printed twice.\<close>

lemma distinct_lines:
  assumes "distinct xs" "inj g"
  shows "distinct (concat (map (\<lambda>i. if p i then [g i] else []) xs))"
  using assms(1)
proof (induction xs)
  case (Cons x xs)
  then show ?case using assms(2) by (auto dest: injD)
qed simp

lemma tt_diff_distinct: "distinct (tt_diff a b)"
proof -
  let ?g = "\<lambda>i. D_REG i (r_of (sn_cpu a) (of_nat i)) (r_of (sn_cpu b) (of_nat i))"
  have "inj ?g" by (auto simp: inj_def)
  from distinct_lines [OF distinct_upt this]
  have "distinct (concat (map (\<lambda>i. let x = r_of (sn_cpu a) (of_nat i); y = r_of (sn_cpu b) (of_nat i)
      in if x \<noteq> y then [D_REG i x y] else []) [0..<16]))" by (simp only: Let_def)
  then show ?thesis using diff_sram_distinct diff_sram_lines
    by (fastforce simp: tt_diff_def Let_def split: if_splits)
qed

end
