(* ===== verification/Kernel.thy ===== *)
theory Kernel
  imports Prelude
begin

text \<open>
  The small kernel that the firmware of \<^verbatim>\<open>firmware/test13_zephyr_lite\<close> links
  (\<^verbatim>\<open>zephyr_lite.c\<close>): threads, round-robin choice, sleeping and counting semaphores.  Threads and
  semaphores are named by their addresses; the stacks are words of a memory apart from them.  A
  function that waits in a loop on \<^verbatim>\<open>wfi\<close> is modelled up to that loop, whose condition the other
  operations change.
\<close>

section \<open>State\<close>

record k_thread_t =
  th_sp :: u32
  th_stack_lo :: u32
  th_delay :: u32
  th_prio :: u8
  th_state :: u8
  th_blocked_on :: u32

record k_sem_t =
  sem_count :: int
  sem_max :: int

abbreviation (input) K_MAX_THREADS :: nat where "K_MAX_THREADS \<equiv> 4"

text \<open>\<open>thr\<close> and \<open>sems\<close> are the structs behind the pointers, \<open>svc\<close> counts supervisor calls.\<close>

record kernel =
  thr :: "u32 \<Rightarrow> k_thread_t"
  sems :: "u32 \<Rightarrow> k_sem_t"
  stacks :: "u32 \<Rightarrow> u32"
  threads :: "u32 list"
  n_threads :: nat
  k_current :: u32
  k_next :: u32
  pendsvset :: bool
  irqs_off :: bool
  stk :: "u32 \<times> u32 \<times> u32"
  svcs :: nat

section \<open>Threads\<close>

definition k_init :: "kernel \<Rightarrow> kernel" where
  "k_init k = k\<lparr>n_threads := 0\<rparr>"

text \<open>\<^verbatim>\<open>*(--sp) = v\<close> for each value.\<close>

fun push_words :: "u32 list \<Rightarrow> (u32 \<Rightarrow> u32) \<times> u32 \<Rightarrow> (u32 \<Rightarrow> u32) \<times> u32" where
  "push_words [] s = s"
| "push_words (v # vs) (m, p) = push_words vs (m(p - 4 := v), p - 4)"

definition k_thread_create :: "kernel \<Rightarrow> u32 \<Rightarrow> u32 \<Rightarrow> u32 \<Rightarrow> u32 \<Rightarrow> u32 \<Rightarrow> u8 \<Rightarrow> int \<times> kernel" where
  "k_thread_create k t stack stack_size entry arg prio =
     (if n_threads k \<ge> K_MAX_THREADS then (-1, k)
      else
        (let (m, p) = push_words ([0x01000000, entry OR 1, 0xFFFFFFFD, 12, 3, 2, 1, arg] @ replicate 8 0)
                        (stacks k, stack + 4 * (stack_size div 4))
         in (0, k\<lparr>stacks := m,
                  thr := (thr k)(t := \<lparr>th_sp = p, th_stack_lo = stack, th_delay = 0, th_prio = prio,
                                       th_state = 0, th_blocked_on = 0\<rparr>),
                  threads := (threads k)[n_threads k := t], n_threads := n_threads k + 1\<rparr>)))"

abbreviation ready :: "kernel \<Rightarrow> nat \<Rightarrow> bool" where
  "ready k i \<equiv> th_state (thr k (threads k ! i)) = 0"

text \<open>The three loops of \<^verbatim>\<open>pick_next\<close>.\<close>

definition start_after :: "kernel \<Rightarrow> u32 \<Rightarrow> nat" where
  "start_after k exclude = fold (\<lambda>i st. if threads k ! i = exclude then Suc i else st) [0..<n_threads k] 0"

definition pick_next :: "kernel \<Rightarrow> u32 \<Rightarrow> u32" where
  "pick_next k exclude =
     (let start = start_after k exclude; n = n_threads k
      in case find (\<lambda>j. ready k ((start + j) mod n)) [0..<n] of
           Some j \<Rightarrow> threads k ! ((start + j) mod n)
         | None \<Rightarrow>
             (case find (ready k) [0..<n] of Some i \<Rightarrow> threads k ! i | None \<Rightarrow> threads k ! 0))"

definition schedule :: "kernel \<Rightarrow> kernel" where
  "schedule k =
     (let k = k\<lparr>k_next := pick_next k (k_current k)\<rparr>
      in if k_next k \<noteq> k_current k then k\<lparr>pendsvset := True\<rparr> else k)"

definition k_yield :: "kernel \<Rightarrow> kernel" where
  "k_yield k = schedule k"

definition upd_thread :: "kernel \<Rightarrow> u32 \<Rightarrow> (k_thread_t \<Rightarrow> k_thread_t) \<Rightarrow> kernel" where
  "upd_thread k t f = k\<lparr>thr := (thr k)(t := f (thr k t))\<rparr>"

definition k_sleep :: "kernel \<Rightarrow> u32 \<Rightarrow> kernel" where
  "k_sleep k ticks = schedule (upd_thread k (k_current k) (\<lambda>t. t\<lparr>th_delay := ticks, th_state := 1\<rparr>))"

section \<open>Semaphores\<close>

definition k_sem_init :: "kernel \<Rightarrow> u32 \<Rightarrow> int \<Rightarrow> int \<Rightarrow> kernel" where
  "k_sem_init k s initial mx = k\<lparr>sems := (sems k)(s := \<lparr>sem_count = initial, sem_max = mx\<rparr>)\<rparr>"

text \<open>One round of the loop in \<^verbatim>\<open>k_sem_take\<close>: whether it returned, or else waits.\<close>

definition k_sem_take :: "kernel \<Rightarrow> u32 \<Rightarrow> bool \<times> kernel" where
  "k_sem_take k s =
     (if sem_count (sems k s) > 0 then
        (True, k\<lparr>sems := (sems k)(s := (sems k s)\<lparr>sem_count := sem_count (sems k s) - 1\<rparr>), irqs_off := False\<rparr>)
      else
        (False, schedule ((upd_thread k (k_current k) (\<lambda>t. t\<lparr>th_state := 2, th_blocked_on := s\<rparr>))\<lparr>irqs_off := False\<rparr>)))"

definition waits_on :: "kernel \<Rightarrow> u32 \<Rightarrow> nat \<Rightarrow> bool" where
  "waits_on k s i \<longleftrightarrow> th_state (thr k (threads k ! i)) = 2 \<and> th_blocked_on (thr k (threads k ! i)) = s"

definition k_sem_give :: "kernel \<Rightarrow> u32 \<Rightarrow> kernel" where
  "k_sem_give k s =
     (let k = (if sem_count (sems k s) < sem_max (sems k s)
               then k\<lparr>sems := (sems k)(s := (sems k s)\<lparr>sem_count := sem_count (sems k s) + 1\<rparr>)\<rparr> else k);
          k = (case find (waits_on k s) [0..<n_threads k] of
                 Some i \<Rightarrow> upd_thread k (threads k ! i) (\<lambda>t. t\<lparr>th_state := 0, th_blocked_on := 0\<rparr>)
               | None \<Rightarrow> k)
      in schedule (k\<lparr>irqs_off := False\<rparr>))"

section \<open>The tick\<close>

definition tick_thread :: "k_thread_t \<Rightarrow> k_thread_t" where
  "tick_thread t =
     (if th_state t = 1 then
        (let t = (if th_delay t > 0 then t\<lparr>th_delay := th_delay t - 1\<rparr> else t)
         in if th_delay t = 0 then t\<lparr>th_state := 0\<rparr> else t)
      else t)"

definition systick_tick_c :: "kernel \<Rightarrow> kernel" where
  "systick_tick_c k =
     schedule (fold (\<lambda>i k. upd_thread k (threads k ! i) tick_thread) [0..<n_threads k] k)"

text \<open>Up to the endless loop behind the supervisor call, which enters the first thread.\<close>

definition k_start :: "kernel \<Rightarrow> kernel" where
  "k_start k = k\<lparr>stk := (7, 200, 0), k_current := threads k ! 0, k_next := threads k ! 0, svcs := svcs k + 1\<rparr>"

end
