(* ===== verification/Kernel_Laws.thy ===== *)
theory Kernel_Laws
  imports Kernel
begin

text \<open>
  The scheduler of the kernel is a fair round robin, sleeping threads wake after the ticks they asked
  for, and semaphores stay within their bounds.
\<close>

section \<open>Threads\<close>

definition kernel_ok :: "kernel \<Rightarrow> bool" where
  "kernel_ok k \<longleftrightarrow> length (threads k) = 4 \<and> n_threads k \<le> 4 \<and> distinct (take (n_threads k) (threads k))"

lemma threads_inj:
  assumes "kernel_ok k" "i < n_threads k" "j < n_threads k"
  shows "threads k ! i = threads k ! j \<longleftrightarrow> i = j"
  using assms nth_eq_iff_index_eq [of "take (n_threads k) (threads k)" i j] by (simp add: kernel_ok_def)

lemma create_ok:
  assumes "kernel_ok k" "t \<notin> set (take (n_threads k) (threads k))"
  shows "kernel_ok (snd (k_thread_create k t stack sz e a p))"
proof (cases "n_threads k < 4")
  case True
  then have "take (Suc (n_threads k)) ((threads k)[n_threads k := t]) = take (n_threads k) (threads k) @ [t]"
    using assms(1) by (simp add: kernel_ok_def take_Suc_conv_app_nth)
  then show ?thesis
    using assms True by (simp add: kernel_ok_def k_thread_create_def Let_def case_prod_unfold)
qed (use assms in \<open>simp add: k_thread_create_def\<close>)

lemma schedule_keeps [simp]:
  "thr (schedule k) = thr k" "threads (schedule k) = threads k" "n_threads (schedule k) = n_threads k"
  "sems (schedule k) = sems k" "k_current (schedule k) = k_current k"
  by (simp_all add: schedule_def Let_def)

section \<open>Round robin\<close>

lemma no_index: "\<forall>i<n. xs ! i \<noteq> x \<Longrightarrow> fold (\<lambda>i st. if xs ! i = x then Suc i else st) [0..<n] st = st"
  by (induction n) auto

lemma last_index:
  assumes "p < n" "xs ! p = x" "\<forall>i<n. xs ! i = x \<longrightarrow> i = p"
  shows "fold (\<lambda>i st. if xs ! i = x then Suc i else st) [0..<n] st = Suc p"
  using assms
proof (induction n)
  case (Suc n)
  show ?case
  proof (cases "p = n")
    case True
    then show ?thesis using Suc.prems(2) by simp
  next
    case False
    then have p: "p < n" "\<forall>i<n. xs ! i = x \<longrightarrow> i = p" using Suc.prems(1) Suc.prems(3) less_SucI by (simp, blast)
    have "xs ! n \<noteq> x" using Suc.prems(3) False by blast
    then show ?thesis using Suc.IH [OF p(1) Suc.prems(2) p(2)] by simp
  qed
qed simp

lemma start_after_index: "kernel_ok k \<Longrightarrow> p < n_threads k \<Longrightarrow> start_after k (threads k ! p) = Suc p"
  unfolding start_after_def by (rule last_index) (auto simp: threads_inj)

lemma rotation_onto:
  assumes "p < n" "q < (n :: nat)"
  shows "\<exists>j<n. (Suc p + j) mod n = q"
proof (intro exI conjI)
  show "(q + n - Suc p) mod n < n" using assms by simp
  have "(Suc p + (q + n - Suc p) mod n) mod n = (Suc p + (q + n - Suc p)) mod n" by (rule mod_add_right_eq)
  then show "(Suc p + (q + n - Suc p) mod n) mod n = q" using assms by simp
qed

lemma pick_next_first:
  assumes k: "kernel_ok k" and p: "p < n_threads k" and q: "q < n_threads k" "ready k q"
  shows "\<exists>j < n_threads k. ready k ((Suc p + j) mod n_threads k) \<and> (\<forall>i<j. \<not> ready k ((Suc p + i) mod n_threads k)) \<and>
    pick_next k (threads k ! p) = threads k ! ((Suc p + j) mod n_threads k)"
proof -
  let ?n = "n_threads k" and ?r = "\<lambda>j. ready k ((Suc p + j) mod n_threads k)"
  obtain j0 where "j0 < ?n" "?r j0" using rotation_onto [OF p q(1)] q(2) by auto
  then have "find ?r [0..<?n] \<noteq> None" by (auto simp: find_None_iff)
  then obtain j where j: "find ?r [0..<?n] = Some j" by auto
  then have "j < ?n" "?r j" "\<forall>i<j. \<not> ?r i" by (auto simp: find_Some_iff)
  then show ?thesis using j start_after_index [OF k p] by (auto simp: pick_next_def Let_def)
qed

text \<open>Going round from any thread, each ready thread is picked within one round.\<close>

lemma round_robin:
  assumes k: "kernel_ok k" and q: "ready k q" and d: "d < n_threads k"
    and p: "p < n_threads k" "q = (Suc p + d) mod n_threads k"
  shows "\<exists>m. 0 < m \<and> m \<le> Suc d \<and> (pick_next k ^^ m) (threads k ! p) = threads k ! q"
  using d p
proof (induction d arbitrary: p rule: less_induct)
  case (less d)
  let ?n = "n_threads k"
  have "q < ?n" using less.prems by simp
  then obtain j where j: "j < ?n" "\<forall>i<j. \<not> ready k ((Suc p + i) mod ?n)"
      "pick_next k (threads k ! p) = threads k ! ((Suc p + j) mod ?n)"
    using pick_next_first [OF k less.prems(2) _ q] by blast
  then have "j \<le> d" using q less.prems(3) by (meson not_le)
  show ?case
  proof (cases "j = d")
    case True
    then show ?thesis using j(3) less.prems(3) by (intro exI [of _ 1]) simp
  next
    case False
    let ?p = "(Suc p + j) mod ?n" and ?d = "d - Suc j"
    have "(Suc ?p + ?d) mod ?n = (Suc (Suc p + j) + ?d) mod ?n" by (metis add_Suc mod_Suc_eq mod_add_left_eq)
    also have "\<dots> = q" using False \<open>j \<le> d\<close> less.prems(3) by simp
    finally obtain m where m: "0 < m" "m \<le> Suc ?d" "(pick_next k ^^ m) (threads k ! ?p) = threads k ! q"
      using less.IH [of ?d ?p] False \<open>j \<le> d\<close> less.prems by force
    then show ?thesis using j(3) False \<open>j \<le> d\<close>
      by (intro exI [of _ "Suc m"]) (simp add: funpow_Suc_right del: funpow.simps)
  qed
qed

lemma pick_next_fair:
  assumes "kernel_ok k" "p < n_threads k" "q < n_threads k" "ready k q"
  shows "\<exists>m. 0 < m \<and> m \<le> n_threads k \<and> (pick_next k ^^ m) (threads k ! p) = threads k ! q"
proof -
  obtain d where "d < n_threads k" "(Suc p + d) mod n_threads k = q" using rotation_onto [OF assms(2,3)] by blast
  then show ?thesis using round_robin [OF assms(1,4), of d p] assms(2) by (meson Suc_leI le_trans)
qed

section \<open>Sleeping\<close>

lemma tick_loop:
  assumes "kernel_ok k" "n \<le> n_threads k"
  shows "thr (fold (\<lambda>i k. upd_thread k (threads k ! i) tick_thread) [0..<n] k) =
      (\<lambda>t. if t \<in> set (take n (threads k)) then tick_thread (thr k t) else thr k t) \<and>
    threads (fold (\<lambda>i k. upd_thread k (threads k ! i) tick_thread) [0..<n] k) = threads k \<and>
    n_threads (fold (\<lambda>i k. upd_thread k (threads k ! i) tick_thread) [0..<n] k) = n_threads k"
  using assms(2)
proof (induction n)
  case (Suc n)
  have l: "n < length (threads k)" using Suc.prems assms(1) by (simp add: kernel_ok_def)
  have "threads k ! n \<notin> set (take n (threads k))"
    using Suc.prems threads_inj [OF assms(1), where j = n] l by (fastforce simp: in_set_conv_nth)
  then show ?case using Suc l by (auto simp: upd_thread_def take_Suc_conv_app_nth)
qed simp

lemma tick_keeps [simp]:
  assumes "kernel_ok k"
  shows "thr (systick_tick_c k) = (\<lambda>t. if t \<in> set (take (n_threads k) (threads k)) then tick_thread (thr k t) else thr k t)"
    "threads (systick_tick_c k) = threads k" "n_threads (systick_tick_c k) = n_threads k"
    "kernel_ok (systick_tick_c k)"
  using tick_loop [OF assms, of "n_threads k"] assms by (simp_all add: systick_tick_c_def kernel_ok_def)

lemma ticks_thread:
  assumes "kernel_ok k" "p < n_threads k"
  shows "kernel_ok ((systick_tick_c ^^ m) k) \<and> threads ((systick_tick_c ^^ m) k) = threads k \<and>
    n_threads ((systick_tick_c ^^ m) k) = n_threads k \<and>
    thr ((systick_tick_c ^^ m) k) (threads k ! p) = (tick_thread ^^ m) (thr k (threads k ! p))"
proof (induction m)
  case (Suc m)
  have "threads k ! p \<in> set (take (n_threads k) (threads k))"
    using assms by (auto simp: in_set_conv_nth kernel_ok_def intro!: exI [of _ p])
  then show ?case using Suc by simp
qed (use assms in simp)

lemma tick_thread_state:
  assumes "th_state t = 1"
  shows "th_state ((tick_thread ^^ m) t) = (if 0 < m \<and> unat (th_delay t) \<le> m then 0 else 1)"
  using assms
proof (induction m arbitrary: t)
  case (Suc m)
  show ?case
  proof (cases "th_delay t \<le> 1")
    case True
    have "th_state ((tick_thread ^^ i) u) = 0" if "th_state u = 0" for i u
      using that by (induction i) (simp_all add: tick_thread_def)
    moreover have "th_state (tick_thread t) = 0"
      using Suc.prems True by (auto simp: tick_thread_def Let_def word_le_nat_alt word_less_nat_alt unat_sub_if_size word_unat_eq_iff)
    ultimately show ?thesis using True by (simp add: funpow_Suc_right word_le_nat_alt del: funpow.simps)
  next
    case False
    then have g: "1 < unat (th_delay t)" by (simp add: word_le_nat_alt)
    then have "tick_thread t = t\<lparr>th_delay := th_delay t - 1\<rparr>" "unat (th_delay t - 1) = unat (th_delay t) - 1"
      using Suc.prems by (auto simp: tick_thread_def Let_def word_less_nat_alt word_unat_eq_iff unat_sub_if')
    then show ?thesis using Suc.IH [of "tick_thread t"] Suc.prems g
      by (auto simp add: funpow_Suc_right simp del: funpow.simps)
  qed
qed simp

lemma sleeper_wakes:
  assumes "kernel_ok k" "p < n_threads k" "k_current k = threads k ! p"
  shows "th_state (thr ((systick_tick_c ^^ m) (k_sleep k d)) (threads k ! p)) = (if 0 < m \<and> unat d \<le> m then 0 else 1)"
proof -
  have "kernel_ok (k_sleep k d)" "threads (k_sleep k d) = threads k" "n_threads (k_sleep k d) = n_threads k"
    "th_state (thr (k_sleep k d) (threads k ! p)) = 1" "th_delay (thr (k_sleep k d) (threads k ! p)) = d"
    using assms by (simp_all add: k_sleep_def upd_thread_def kernel_ok_def)
  then show ?thesis using ticks_thread [of "k_sleep k d" p m] assms(2) by (simp add: tick_thread_state)
qed

section \<open>Semaphores\<close>

definition sem_ok :: "kernel \<Rightarrow> u32 \<Rightarrow> bool" where
  "sem_ok k s \<longleftrightarrow> 0 \<le> sem_count (sems k s) \<and> sem_count (sems k s) \<le> sem_max (sems k s)"

lemma sem_keeps:
  assumes "sem_ok k s"
  shows "sem_ok (snd (k_sem_take k s')) s" "sem_ok (k_sem_give k s') s"
  using assms by (auto simp: sem_ok_def k_sem_take_def k_sem_give_def upd_thread_def Let_def split: option.split)

lemma give_wakes:
  assumes "find (waits_on k s) [0..<n_threads k] = Some i"
  shows "th_state (thr (k_sem_give k s) (threads k ! i)) = 0"
proof -
  have "waits_on (k\<lparr>sems := x\<rparr>) s = waits_on k s" for x by (rule ext) (simp add: waits_on_def)
  then show ?thesis using assms by (simp add: k_sem_give_def Let_def upd_thread_def)
qed

section \<open>Three threads\<close>

definition demo_kernel :: kernel where
  "demo_kernel =
     (let t = \<lparr>th_sp = 0, th_stack_lo = 0, th_delay = 0, th_prio = 1, th_state = 0, th_blocked_on = 0\<rparr>
      in \<lparr>thr = (\<lambda>_. t)(0x200 := t\<lparr>th_state := 2, th_blocked_on := 0x40\<rparr>), sems = (\<lambda>_. \<lparr>sem_count = 0, sem_max = 1\<rparr>),
          stacks = (\<lambda>_. 0), threads = [0x100, 0x200, 0x300, 0], n_threads = 3, k_current = 0x100, k_next = 0x100,
          pendsvset = False, irqs_off = False, stk = (7, 200, 0), svcs = 1\<rparr>)"

lemma demo_kernel_ok:
  "kernel_ok demo_kernel" "n_threads demo_kernel = 3" "k_current demo_kernel = threads demo_kernel ! 0"
  "threads demo_kernel ! 0 = 0x100" "threads demo_kernel ! 2 = 0x300" "ready demo_kernel 2"
  by (simp_all add: kernel_ok_def demo_kernel_def Let_def)

end
