(* ===== verification/Uart_Laws.thy ===== *)
theory Uart_Laws
  imports Uart_Fifo Run_Laws Replay_Laws Board
begin

text \<open>
  What becomes of the input of the UART on a board.  The device delivers what is in its receive
  ring only in replay mode, and no operation of the program turns that mode on.
\<close>

section \<open>The mode\<close>

definition same_mode :: "machine \<Rightarrow> machine \<Rightarrow> bool" where
  "same_mode m m' \<longleftrightarrow> replay_mode (d_uart m') = replay_mode (d_uart m)"

lemma uart_read_mode: "replay_mode (snd (uart_read u off)) = replay_mode u"
  by (simp add: uart_read_def)

lemma dev_read_mode: "same_mode m (snd (dev_read m d off))"
  by (cases "(m, d, off)" rule: dev_read.cases) (simp_all add: same_mode_def case_prod_unfold uart_read_mode Let_def)

lemma dev_write_mode: "same_mode m (dev_write m d off v)"
  by (cases "(m, d, off, v)" rule: dev_write.cases)
    (simp_all add: same_mode_def case_prod_unfold Let_def uart_write_def uart_capture_def emit_stdout_def
      split: option.split uart_sink.split)

interpretation input_mode: run_x86_preorder same_mode
  by unfold_locales
    (simp_all add: dev_read_mode dev_write_mode, simp_all add: same_mode_def put_flat_def)

section \<open>What a board goes through\<close>

text \<open>
  The states of a board: created, and then any sequence of flashing an image, running, storing and
  loading over the bus and changing the registers as the debugger does, draining the captured
  output, raising an interrupt, injecting a received byte or a recorded event, and restoring a
  snapshot taken on the way.
\<close>

inductive board_life :: "machine \<Rightarrow> bool" where
  life_new: "board_create h nm = Some b \<Longrightarrow> board_life (b_mach b)"
| life_flash: "board_life (b_mach b) \<Longrightarrow> board_life (b_mach (snd (board_flash b data)))"
| life_run: "board_life (mach s) \<Longrightarrow> run_steps_full_gc ctx s k = Some (n, s') \<Longrightarrow> board_life (mach s')"
| life_store: "board_life m \<Longrightarrow> bus_write m a sz v = Some (ok, m') \<Longrightarrow> board_life m'"
| life_load: "board_life m \<Longrightarrow> board_life (snd (bus_read m a sz))"
| life_cpu: "board_life m \<Longrightarrow> board_life (cpu_update f m)"
| life_irq: "board_life m \<Longrightarrow> board_life (m\<lparr>d_nvic := nvic_set_pending (d_nvic m) irq\<rparr>)"
| life_drain: "board_life m \<Longrightarrow> board_life (m\<lparr>uart_buf := xs\<rparr>)"
| life_rx: "board_life m \<Longrightarrow> board_life (m\<lparr>d_uart := uart_inject_rx (d_uart m) byte\<rparr>)"
| life_event: "board_life m \<Longrightarrow> tt_inject_event frs m e = Some m' \<Longrightarrow> board_life m'"
| life_restore: "board_life m \<Longrightarrow> snap_save bytes b0 m = (True, b) \<Longrightarrow> board_life (mach s) \<Longrightarrow>
    snap_restore bytes att i0 b s = Some (True, s') \<Longrightarrow> board_life (mach s')"

lemma created_mode: "board_create h nm = Some b \<Longrightarrow> \<not> replay_mode (d_uart (b_mach b))"
  by (auto simp: board_create_def Let_def attach_all_def uart_attach_def systick_attach_def scb_attach_def
      mpu_attach_def stm32_attach_def dwt_attach_def nvic_attach_def eth_attach_def calloc_machine_def
      split: option.splits bind_splits)

lemma bus_r32_mode: "same_mode m (snd (bus_r32 m a))"
  using input_mode.bus_read_R [of m a 4] by (simp add: bus_r32_def case_prod_unfold Let_def)

lemma load_blob_mode: "same_mode m (snd (bus_load_blob m a data))"
  by (simp add: bus_load_blob_def same_mode_def Let_def split: option.split)

lemma flash_mode: "same_mode (b_mach b) (b_mach (snd (board_flash b data)))"
  using load_blob_mode [of "b_mach b" "flash_base (b_prof b)" data] bus_r32_mode
  by (simp add: board_flash_def Let_def case_prod_unfold same_mode_def)

lemma inject_loop_mode: "inject_loop m i bs = Some m' \<Longrightarrow> same_mode m m'"
proof (induction bs arbitrary: m i)
  case (Cons b bs)
  then obtain ok m1 where w: "bus_write m (rx_addr (d_eth m) + i) 1 (to32 b) = Some (ok, m1)"
    "inject_loop m1 (i + 1) bs = Some m'" by (auto split: bind_splits)
  show ?case using input_mode.bus_write_R [OF w(1)] Cons.IH [OF w(2)] by (simp add: same_mode_def)
qed (simp add: same_mode_def)

lemma event_mode: "tt_inject_event frs m e = Some m' \<Longrightarrow> same_mode m m'"
  by (auto simp: tt_inject_event_def eth_inject_rx_def uart_inject_rx_def Let_def same_mode_def
      split: ev_type.splits option.splits if_splits bind_splits dest!: inject_loop_mode)

lemma restore_mode:
  assumes "snap_save bytes b0 m = (True, b)" "snap_restore bytes att i0 b s = Some (True, s')"
  shows "same_mode m (mach s')"
  using assms by (auto simp: snap_save_def snap_restore_def restore_machine_def same_mode_def Let_def
      split: option.splits if_splits)

lemma life_mode: "board_life m \<Longrightarrow> \<not> replay_mode (d_uart m)"
proof (induction rule: board_life.induct)
  case (life_run s ctx k n s')
  then show ?case using input_mode.run_steps_keeps by (simp add: same_mode_def)
next
  case (life_restore m bytes b0 b s att i0 s')
  then show ?case using restore_mode by (simp add: same_mode_def)
next
  case (life_store m a sz v ok m')
  then show ?case using input_mode.bus_write_R by (simp add: same_mode_def)
next
  case (life_load m a sz)
  then show ?case using input_mode.bus_read_R by (simp add: same_mode_def)
qed (use created_mode flash_mode event_mode in \<open>auto simp: same_mode_def uart_inject_rx_def\<close>)

lemma life_uart:
  assumes "board_life m"
  shows "uart_read (d_uart m) off = (if off = 4 then 1 else 0, d_uart m) \<and>
    uart_tx (d_uart m) 0 v = Some (to8 (v AND 0xFF))"
  using life_mode [OF assms] by (simp add: uart_read_def uart_tx_def)

end
