(* ===== verification/Api.thy ===== *)
theory Api
  imports Board
begin

text \<open>
  The C interface \<^verbatim>\<open>src/lecerf_api.c\<close>, which the Python binding calls: each function forwards to
  the board, with booleans as 0 and 1.
\<close>

definition lecerf_board_create :: "float_ops \<Rightarrow> string \<Rightarrow> board_t option" where
  "lecerf_board_create h n = board_create h n"

definition lecerf_board_flash :: "board_t \<Rightarrow> u8 list \<Rightarrow> int \<times> board_t" where
  "lecerf_board_flash b data = (let (ok, b) = board_flash b data in (if ok then 1 else 0, b))"

definition lecerf_board_run :: "x86_host \<Rightarrow> insn_t \<Rightarrow> (u32 \<Rightarrow> dcache_e) \<Rightarrow> board_t \<Rightarrow> u64
    \<Rightarrow> (u64 \<times> exit_cause \<times> board_t \<times> (u32 \<Rightarrow> dcache_e)) option" where
  "lecerf_board_run h i0 d b max_steps = board_run h i0 d b max_steps"

definition lecerf_board_uart_drain :: "board_t \<Rightarrow> nat \<Rightarrow> u8 list \<times> board_t" where
  "lecerf_board_uart_drain b cap = board_uart_drain b cap"

definition lecerf_board_gpio_get :: "board_t \<Rightarrow> u32 \<Rightarrow> u32 \<Rightarrow> u32" where
  "lecerf_board_gpio_get b port pin = board_gpio_get b port pin"

definition lecerf_board_cpu_reg :: "board_t \<Rightarrow> u32 \<Rightarrow> u32" where
  "lecerf_board_cpu_reg b n = board_cpu_reg b n"

definition lecerf_board_cycles :: "board_t \<Rightarrow> u64" where
  "lecerf_board_cycles b = board_cycles b"

definition lecerf_board_enable_timetravel :: "(nat \<Rightarrow> bool) \<Rightarrow> board_t \<Rightarrow> u32 \<Rightarrow> nat \<Rightarrow> board_t" where
  "lecerf_board_enable_timetravel alloc b strd mx = board_enable_timetravel alloc b strd mx"

definition lecerf_board_inject_irq :: "(nat \<Rightarrow> bool) \<Rightarrow> board_t \<Rightarrow> u32 \<Rightarrow> board_t" where
  "lecerf_board_inject_irq alloc b irq = board_inject_irq alloc b irq"

definition lecerf_board_get_ev_log_count :: "board_t \<Rightarrow> nat" where
  "lecerf_board_get_ev_log_count b = board_get_ev_log_count b"

end
