(* ===== verification/Tool.thy ===== *)
theory Tool
  imports Board Gdb
begin

text \<open>
  The command line tool \<^verbatim>\<open>tools/main.c\<close>: its arguments, the run of a firmware file with or without
  a debugger, and what it prints.  Times are not measured.
\<close>

section \<open>Numbers in arguments\<close>

text \<open>\<^verbatim>\<open>strtoull\<close> with base 0 and \<^verbatim>\<open>atoi\<close> of the C library.\<close>

definition is_space :: "char \<Rightarrow> bool" where
  "is_space c \<longleftrightarrow> c = CHR '' '' \<or> (9 \<le> (of_char c :: nat) \<and> (of_char c :: nat) \<le> 13)"

definition digit_of :: "char \<Rightarrow> nat" where
  "digit_of c =
     (let n = of_char c
      in if 48 \<le> n \<and> n \<le> 57 then n - 48
         else if 97 \<le> n \<and> n \<le> 122 then n - 87
         else if 65 \<le> n \<and> n \<le> 90 then n - 55
         else 36)"

definition digits_value :: "nat \<Rightarrow> string \<Rightarrow> nat" where
  "digits_value b s = foldl (\<lambda>v c. b * v + digit_of c) 0 (takeWhile (\<lambda>c. digit_of c < b) s)"

definition split_sign :: "string \<Rightarrow> bool \<times> string" where
  "split_sign s =
     (case dropWhile is_space s of
        CHR ''-'' # cs \<Rightarrow> (True, cs)
      | CHR ''+'' # cs \<Rightarrow> (False, cs)
      | cs \<Rightarrow> (False, cs))"

definition strtoull0 :: "string \<Rightarrow> u64" where
  "strtoull0 s =
     (let (neg, cs) = split_sign s;
          hex = (length cs > 2 \<and> cs ! 0 = CHR ''0'' \<and> (cs ! 1 = CHR ''x'' \<or> cs ! 1 = CHR ''X'') \<and> digit_of (cs ! 2) < 16);
          v = (if hex then digits_value 16 (drop 2 cs)
               else if cs \<noteq> [] \<and> cs ! 0 = CHR ''0'' then digits_value 8 cs
               else digits_value 10 cs)
      in if v \<ge> 2 ^ 64 then - 1 else if neg then - of_nat v else of_nat v)"

text \<open>A value that is no \<^verbatim>\<open>int\<close> is undefined behaviour, \<open>None\<close>.\<close>

definition atoi :: "string \<Rightarrow> int option" where
  "atoi s =
     (let (neg, cs) = split_sign s; v = int (digits_value 10 cs); v = (if neg then - v else v)
      in if - (2 ^ 31) \<le> v \<and> v < 2 ^ 31 then Some v else None)"

fun parse_args :: "string list \<Rightarrow> u64 \<Rightarrow> int \<Rightarrow> (u64 \<times> int) option" where
  "parse_args [] steps port = Some (steps, port)"
| "parse_args (a # as) steps port =
     (if take 6 a = ''--gdb='' then do { p \<leftarrow> atoi (drop 6 a); parse_args as steps p }
      else parse_args as (strtoull0 a) port)"

section \<open>The tool\<close>

text \<open>What is printed on the error stream, one constructor for each message.\<close>

datatype msg =
    Usage | Cannot_read string | Not_listening int | Create_failed | Flash_failed
  | Halted_after u64 | Regs_are "u32 list" | State_is u32 u32 u32

record tool_end =
  exit_code :: int
  printed :: "u8 list"
  msgs :: "msg list"

text \<open>
  The surroundings: \<open>read_file\<close> is what a file holds, \<open>None\<close> when it cannot be read; \<open>conn\<close> is what
  the debugger sends, \<open>None\<close> when no connection comes about; \<open>junk\<close> and the decode cache are what
  memory held before.
\<close>

record tool_env =
  te_fpu :: float_ops
  te_host :: x86_host
  te_insn :: insn_t
  te_dcache :: "u32 \<Rightarrow> dcache_e"
  te_junk :: "u8 list"
  te_conn :: "u8 list option"
  read_file :: "string \<Rightarrow> u8 list option"

definition state_msgs :: "u64 \<Rightarrow> board_t \<Rightarrow> msg list" where
  "state_msgs n b =
     [Halted_after n, Regs_are (map (board_cpu_reg b) [0, 1, 2, 3]),
      State_is (board_cpu_reg b 15) (board_cpu_reg b 13) (board_cpu_reg b 16)]"

text \<open>Nothing in the tool sets \<^verbatim>\<open>g_dwt_for_run\<close>, and \<^verbatim>\<open>g_nvic_for_run\<close> is the machine's.\<close>

definition main_gdb :: "tool_env \<Rightarrow> u8 list \<Rightarrow> u64 \<Rightarrow> int \<Rightarrow> tool_end option" where
  "main_gdb e fw max_steps port =
     (case board_create (te_fpu e) ''generic-m4'' of
        None \<Rightarrow> Some \<lparr>exit_code = 1, printed = [], msgs = []\<rparr>
      | Some b \<Rightarrow>
          (let (ok, b) = board_flash b fw;
               d = gdb_listen (te_conn e);
               ctx = \<lparr>with_st = True, with_scb = True, with_dwt = False, with_nvic = False,
                      host = te_host e, stack_insn = te_insn e\<rparr>
           in do { (how, n, s, d1) \<leftarrow> run_steps_full_gdb ctx False (te_junk e)
                      \<lparr>mach = b_mach b, jit = None, dcache = te_dcache e\<rparr> max_steps d;
                   if how = Exits then Some \<lparr>exit_code = 0, printed = stdout (mach s), msgs = []\<rparr>
                   else Some \<lparr>exit_code = 0, printed = stdout (mach s),
                              msgs = (if d = None then [Not_listening port] else []) @
                                     state_msgs n (b\<lparr>b_mach := mach s\<rparr>)\<rparr> }))"

definition main_board :: "tool_env \<Rightarrow> u8 list \<Rightarrow> u64 \<Rightarrow> tool_end option" where
  "main_board e fw max_steps =
     (case board_create (te_fpu e) ''generic-m4'' of
        None \<Rightarrow> Some \<lparr>exit_code = 1, printed = [], msgs = [Create_failed]\<rparr>
      | Some b \<Rightarrow>
          (let (ok, b) = board_flash b fw
           in if \<not> ok then Some \<lparr>exit_code = 1, printed = stdout (b_mach b), msgs = [Flash_failed]\<rparr>
              else do { (n, cause, b, d) \<leftarrow> board_run (te_host e) (te_insn e) (te_dcache e) b max_steps;
                        let (out, b) = board_uart_drain b 4096;
                        Some \<lparr>exit_code = 0, printed = stdout (b_mach b) @ out, msgs = state_msgs n b\<rparr> }))"

text \<open>\<open>argv\<close> is without the name of the program.  The size of a file is cut to 32 bits.\<close>

definition main :: "tool_env \<Rightarrow> string list \<Rightarrow> tool_end option" where
  "main e argv =
     (case argv of
        [] \<Rightarrow> Some \<lparr>exit_code = 1, printed = [], msgs = [Usage]\<rparr>
      | path # as \<Rightarrow>
          do { (max_steps, port) \<leftarrow> parse_args as 10000000 0;
               (case read_file e path of
                  None \<Rightarrow> Some \<lparr>exit_code = 1, printed = [], msgs = [Cannot_read path]\<rparr>
                | Some file \<Rightarrow>
                    (let fw = take (length file mod 2 ^ 32) file
                     in if port > 0 then main_gdb e fw max_steps port else main_board e fw max_steps)) })"

section \<open>Arguments\<close>

text \<open>The last number and the last port count, whatever their order.\<close>

lemma parse_args_append:
  "parse_args (xs @ ys) n p = Option.bind (parse_args xs n p) (\<lambda>(n, p). parse_args ys n p)"
  by (induction xs n p rule: parse_args.induct) (auto split: bind_splits)

lemma numbers: "strtoull0 ''1000'' = 1000" "strtoull0 '' 0x10'' = 16" "strtoull0 ''010'' = 8" "strtoull0 ''-1'' = 0xFFFFFFFFFFFFFFFF"
  by (simp_all add: strtoull0_def split_sign_def is_space_def digits_value_def digit_of_def Let_def of_char_def)

text \<open>The tool prints at most 4096 of the bytes that the firmware sent.\<close>

lemma main_board_output:
  assumes "main_board e fw k = Some t" "board_create (te_fpu e) ''generic-m4'' = Some b"
    and "board_flash b fw = (True, b1)" "board_run (te_host e) (te_insn e) (te_dcache e) b1 k = Some (n, c, b2, d)"
  shows "printed t = stdout (b_mach b2) @ take 4096 (uart_buf (b_mach b2))"
  using assms by (auto simp: main_board_def board_uart_drain_def Let_def split: if_splits)

end
