(* ===== verification/Spec2Isabelle.thy ===== *)
theory Spec2Isabelle
  imports Scenarios Gdb_Demo Tt_Files Kernel_Laws Uart_Laws Api Tool
begin

text \<open>
  LECERF emulates a Cortex-M microcontroller: a CPU (\<^verbatim>\<open>src/core/cpu.c\<close>, decoder.c, executor.c)
  on a bus of memory regions and devices (bus.c, \<^verbatim>\<open>src/periph\<close>), with exceptions and an
  interrupt controller (nvic.c), a block cache in front of an x86 code generator (jit.c,
  codegen.c), a run loop that advances the timers and dispatches interrupts (run.c), a debugger
  stub (gdb.c), snapshots and replay (tt.c), a board API over all of it (board.c, lecerf_api.c)
  and a command line tool (\<^verbatim>\<open>tools/main.c\<close>).

  \<^bold>\<open>Model.\<close>  The C structs are records with the C field names, the shared state reached
  through pointers is one record \<open>machine\<close> that every operation takes and returns, integers keep
  their width as words.  A C function that returns false becomes a boolean in the result; an
  \<open>option\<close> result is \<open>None\<close> where the C code has undefined behaviour or does not return.

  \<^item> Cpu: cpu.c, fpu.c and the condition codes.  Systick, Nvic, Periph: the devices.
  \<^item> Machine: bus.c with the device callbacks, blob loading, the Ethernet echo.
    \<open>bus_write\<close> is the least fixed point, since a store to the Ethernet device stores again.
  \<^item> Insn, Decoder: \<open>insn_t\<close> and decoder.c.  Executor: the switch of executor.c, one definition
    per group of cases.
  \<^item> Exceptions: entry, return and faults of nvic.c.
  \<^item> Codegen: every emitter of codegen.c as the bytes it emits.  X86 is the processor that runs
    them, behaviour of the host: the instructions that occur and the WIN64 call of the bus.  The
    emitted calls are made with RSP at 8 mod 16, outside the convention; \<open>realigns\<close>, a parameter of
    the host, says whether the bus functions accept that, and without it the call is \<open>None\<close>.
  \<^item> Jit: jit.c, with a block either interpreted or run as the bytes of Codegen.  Run: run.c.
    Gdb: gdb.c and the run under a debugger; the connection is the bytes still to be received and
    the bytes sent.
  \<^item> Tt, Tt_Files: tt.c and run_until_cycle; restoring into a region smaller than the snapshot is
    \<open>None\<close>.  Board, Api: board.c and lecerf_api.c.  Tool: main.c.
  \<^item> Kernel: the scheduler, sleeping and semaphores of \<^verbatim>\<open>firmware/test13_zephyr_lite\<close>, the one guest
    program with logic of its own.

  \<^bold>\<open>Lemmas.\<close>  The interfaces are locales: \<open>word_store\<close> (memory as words, interpreted on flat
  regions), \<open>machine_preorder\<close> and its extensions \<open>run_preorder\<close> in Exec_Laws, \<open>x86_preorder\<close> in
  X86_Keeps and \<open>run_x86_preorder\<close> in Run_Laws (a relation that every change of the machine respects holds along any
  run, native code included; interpreted for the clock, the contents of ROM, the output and the mode
  of the UART),
  \<open>bus_blind\<close> in Blind (what does not look at a part of the machine), \<open>tick_counter\<close> in Systick,
  \<open>bounded_queue\<close> in Uart_Fifo (interpreted for the receive ring, as it would work in the replay
  mode that nothing turns on) and
  \<open>digits_code\<close> in Gdb_Laws (fixed-width hexadecimal codes, interpreted for bytes and registers).
  \<^item> Exec_Laws, Bits_Laws, Decoder_Laws, Stack_Laws: instructions.  Exc_Laws, Irq_Laws: exceptions
    and interrupts.  Bus_Laws, Map_Laws, Eth_Laws, Uart_Fifo: memory and devices.
    Uart_Laws: what a board's UART ever delivers.
  \<^item> Run_Laws, Cache_Laws: runs and their caches.  Gdb_Laws: digits, frames, sessions, single steps,
    breakpoints.
  \<^item> X86_Laws, Codegen_Laws, Codegen_Branch, Codegen_Mem, Codegen_Block, Codegen_Size,
    Codegen_Native: what the emitted bytes do, up to whole blocks, how long they are, and where they
    part from the interpreter: refused loads, IT blocks, the stack at a call.
  \<^item> Tt_Laws, Replay_Laws, Replay_Total: the log, the snapshots, rewinding as a
    trace of runs and injected events.  Board_Laws: boards.
    Kernel_Laws: the firmware kernel.
  \<^item> Demo, Gdb_Demo, Scenarios: a board with a small firmware and other concrete situations, for
    the witnesses.

  \<^bold>\<open>Loops.\<close>  Counted loops are recursions on their bound.  The run loops recurse on the
  remaining steps, and each of their iterations takes at least one, so the bound is enough; the
  command loop of the debugger recurses on the bytes left to receive.  run_until_cycle and the
  bus write have no bound in the code and are least fixed points.

  \<^bold>\<open>Not modelled.\<close>  Sockets, the layout of structs in files, freeing and failed allocation of
  memory, the wording of messages and the measuring of time; the float arithmetic of the host is
  a parameter.  The test programs, the other guest programs, their assembly and the Python
  bindings.
\<close>

section \<open>Exceptions\<close>

text \<open>
  C1: an exception taken in thread mode stacks eight words and enters the handler through
  its vector; whatever the handler does, if it leaves the frame, the two banked stack pointers
  and CONTROL alone, the return through the EXC_RETURN value in LR restores R0-R3, R12, SP,
  LR, the PC and the flags of the interrupted code, and thread mode.  IPSR keeps the number of
  the exception: the stacked word holds that number and not the interrupted one.
\<close>
theorem exception_round_trip:
  assumes "frame_ok m (reg m REG_SP - 32)" "mode (cpu m) = MODE_THREAD" "flat_read_ok m (4 * to32 exc)"
  shows "\<exists>m1 v. exc_enter m exc = Some (True, m1) \<and>
    ld_word m1 (4 * to32 exc) = Some v \<and> reg m1 REG_PC = v AND NOT 1 \<and>
    mode (cpu m1) = MODE_HANDLER \<and> ipsr (cpu m1) = to32 exc \<and>
    frame_at m1 (reg m REG_SP - 32) (frame_of (cpu m) (entry_xpsr (cpu m) exc)) \<and>
    (\<forall>m2. handler_kept m1 m2 (reg m REG_SP - 32) \<longrightarrow>
      (\<exists>m3. exc_return m2 (reg m1 REG_LR) = (True, m3) \<and>
        r_of (cpu m3) = (r_of (cpu m2))(0 := reg m 0, 1 := reg m 1, 2 := reg m 2, 3 := reg m 3, 12 := reg m 12,
          REG_LR := reg m REG_LR, REG_PC := reg m REG_PC AND NOT 1, REG_SP := reg m REG_SP) \<and>
        apsr (cpu m3) = apsr (cpu m) AND 0xF8000000 \<and> mode (cpu m3) = MODE_THREAD \<and>
        control (cpu m3) = control (cpu m) \<and> ipsr (cpu m3) = to32 exc))"
proof -
  obtain m1 v where m1: "exc_enter m exc = Some (True, m1)" "ld_word m1 (4 * to32 exc) = Some v"
    "reg m1 REG_PC = v AND NOT 1"
    using exc_enter_returns [OF assms(1,3)] by blast
  note f = exc_enter_flat [OF assms(1) refl m1(1)] and rt = round_trip [OF assms(1,2) m1(1)]
  show ?thesis
    by (rule exI [of _ m1], rule exI [of _ v]) (use m1 f rt in blast)
qed

theorem exception_round_trip_witness:
  "\<exists>m1 m3. exc_enter demo_machine EXC_SVC = Some (True, m1) \<and> ipsr (cpu m1) = 11 \<and>
    exc_return m1 (reg m1 REG_LR) = (True, m3) \<and> reg m3 REG_PC = 8 \<and> reg m3 REG_SP = 0x20000100"
proof -
  have fr: "frame_ok demo_machine (reg demo_machine REG_SP - 32)" using demo_frame by (simp add: demo_cpu)
  have vec: "4 * to32 EXC_SVC = (44 :: u32)" by simp
  obtain m1 v where m1: "exc_enter demo_machine EXC_SVC = Some (True, m1)" "ipsr (cpu m1) = to32 EXC_SVC"
    "\<forall>m2. handler_kept m1 m2 (reg demo_machine REG_SP - 32) \<longrightarrow>
      (\<exists>m3. exc_return m2 (reg m1 REG_LR) = (True, m3) \<and>
        r_of (cpu m3) = (r_of (cpu m2))(0 := reg demo_machine 0, 1 := reg demo_machine 1, 2 := reg demo_machine 2,
          3 := reg demo_machine 3, 12 := reg demo_machine 12, REG_LR := reg demo_machine REG_LR,
          REG_PC := reg demo_machine REG_PC AND NOT 1, REG_SP := reg demo_machine REG_SP))"
    using exception_round_trip [OF fr demo_cpu(2), of EXC_SVC] demo_vector by (simp add: vec) meson
  have "frame_ok m1 (reg demo_machine REG_SP - 32)" using exc_enter_flat [OF fr refl m1(1)] by blast
  then have "handler_kept m1 m1 (reg demo_machine REG_SP - 32)" by (simp add: handler_kept_def)
  then obtain m3 where m3: "exc_return m1 (reg m1 REG_LR) = (True, m3)"
    "r_of (cpu m3) = (r_of (cpu m1))(0 := reg demo_machine 0, 1 := reg demo_machine 1, 2 := reg demo_machine 2,
          3 := reg demo_machine 3, 12 := reg demo_machine 12, REG_LR := reg demo_machine REG_LR,
          REG_PC := reg demo_machine REG_PC AND NOT 1, REG_SP := reg demo_machine REG_SP)"
    using m1(3) by blast
  then show ?thesis using m1(1,2) by (intro exI [of _ m1] exI [of _ m3]) (simp add: demo_cpu)
qed

section \<open>Running\<close>

text \<open>
  C2: no run writes to flash: for any number of steps, whatever the firmware does and with
  whatever interrupts, regions that are not writable keep their contents and the address map
  its shape, native code included, provided the region at 0x20000000 is writable: the fast path
  of native code writes there without asking.
\<close>
theorem run_keeps_rom:
  assumes "run_steps_full_gc ctx s k = Some (n, s')" "sram_writable (mach s)"
  shows "rom_of (mach s') = rom_of (mach s)"
  using flash.run_steps_keeps [OF assms(1)] assms(2) by (simp add: rom_kept_def same_rom_def)

theorem run_keeps_rom_witness:
  "\<exists>s. run_steps_full_gc demo_ctx demo_run 2 = Some (2, s) \<and> rom_of (mach s) = rom_of demo_machine \<and> reg (mach s) 0 = 8"
proof -
  have "sram_writable (mach demo_run)" by (simp add: demo_run_def demo_sram_writable)
  then show ?thesis
    using demo_runs run_keeps_rom [of demo_ctx demo_run 2 2] by (auto simp: demo_run_def)
qed

text \<open>
  C7: the output of a board only grows during a run: the bytes on standard output and in the
  UART capture buffer stay, in order, and the capture buffer never exceeds its capacity.
\<close>
theorem run_output_grows:
  assumes "run_steps_full_gc ctx s k = Some (n, s')"
  shows "(\<exists>xs. stdout (mach s') = stdout (mach s) @ xs) \<and> (\<exists>ys. uart_buf (mach s') = uart_buf (mach s) @ ys) \<and>
    (length (uart_buf (mach s)) \<le> uart_buf_cap (mach s) \<longrightarrow> length (uart_buf (mach s')) \<le> uart_buf_cap (mach s'))"
  using printed.run_steps_keeps [OF assms] by (auto simp: out_grows_def)

theorem run_output_grows_witness:
  "\<exists>s. run_steps_full_gc demo_ctx demo_run 2 = Some (2, s) \<and> (\<exists>ys. uart_buf (mach s) = uart_buf demo_machine @ ys)"
  using demo_runs run_output_grows [of demo_ctx demo_run 2 2] by (auto simp: demo_run_def)

text \<open>
  C8: a run takes at most the steps it is given, and the cycle counter advances by at most
  the number of steps it reports (by less where native code ran, which leaves the counter alone).
\<close>
theorem run_counts:
  assumes "run_steps_full_gc ctx s k = Some (n, s')" "run_ok s"
  shows "n \<le> k \<and> (\<exists>j \<le> unat n. cycles (cpu (mach s')) = cycles (cpu (mach s)) + of_nat j)"
proof -
  let ?s0 = "s\<lparr>dcache := dcache_invalidate (stack_insn ctx)\<rparr>"
  obtain i where i: "run_loop ctx (unat k) ?s0 = Some (i, s')" "n = of_nat i"
    using assms(1) by (auto simp: run_steps_full_gc_def split: bind_splits)
  have k: "unat k < 2 ^ 64" using unsigned_less [of k, where ?'a = nat] by simp
  have "run_ok ?s0" using assms(2) by (simp add: run_ok_def)
  then have "i \<le> unat k" using run_loop_count k i(1) by blast
  moreover have "i < 2 ^ 64" using calculation k by (rule le_less_trans)
  then have "unat n = i" unfolding i(2) by (simp add: unsigned_of_nat take_bit_nat_eq_self)
  moreover have "advanced i (mach ?s0) (mach s')" using run_loop_clock [OF i(1)] .
  ultimately show ?thesis by (auto simp: advanced_def word_le_nat_alt)
qed

theorem run_counts_witness:
  "\<exists>s j. run_steps_full_gc demo_ctx demo_run 2 = Some (2, s) \<and> j \<le> 2 \<and> cycles (cpu (mach s)) = of_nat j"
proof -
  have "run_ok demo_run" by (rule demo_run_ok)
  then show ?thesis
    using demo_runs run_counts [of demo_ctx demo_run 2 2] demo_cpu(5) by (fastforce simp: demo_run_def)
qed

section \<open>Timers and interrupts\<close>

text \<open>
  SysTick may be advanced in batches: advancing by \<open>n\<close> cycles at once is advancing \<open>n\<close>
  times by one, flags, counter and pending interrupt included.
\<close>
theorem systick_batch:
  assumes "0 < n" "n < 2 ^ 32"
  shows "systick_tick t (of_nat n) = ((\<lambda>u. systick_tick u 1) ^^ n) t"
  using assms by (rule systick.tick_singles)

theorem systick_batch_witness:
  "cvr (((\<lambda>u. systick_tick u 1) ^^ 7) \<lparr>csr = 3, rvr = 5, cvr = 2, count_flag = False, irq_pending = False\<rparr>) = 5"
  by (subst systick_batch [symmetric]) (simp_all add: systick_tick_def st_count.simps st_wrap_def Let_def)

text \<open>
  C13: closed form of SysTick.  An enabled timer with a reload value and \<open>c\<close> cycles to go
  wraps exactly when a batch reaches \<open>c\<close>: the wrap raises COUNTFLAG and, with TICKINT, the
  interrupt, and the counter then runs with the period of the reload register.
\<close>
theorem systick_closed_form:
  assumes "csr t AND 1 \<noteq> 0" "rvr t \<noteq> 0" "c = (if cvr t = 0 then rvr t else cvr t)"
  shows "unat (cvr (systick_tick t n)) =
      (if n < c then unat c - unat n else unat (rvr t) - (unat n - unat c) mod unat (rvr t)) \<and>
    count_flag (systick_tick t n) = (count_flag t \<or> c \<le> n) \<and>
    irq_pending (systick_tick t n) = (irq_pending t \<or> (c \<le> n \<and> csr t AND 2 \<noteq> 0))"
  using systick_tick_closed [OF assms(1,2), of n] unfolding assms(3) by blast

theorem systick_closed_form_witness:
  "unat (cvr (systick_tick \<lparr>csr = 3, rvr = 5, cvr = 2, count_flag = False, irq_pending = False\<rparr> 14)) = 3"
  using systick_closed_form [of "\<lparr>csr = 3, rvr = 5, cvr = 2, count_flag = False, irq_pending = False\<rparr>" 2 14]
  by simp

text \<open>
  C14: the interrupt controller picks, of the lines that are enabled, pending and not active,
  one of the numerically lowest priority and among those the lowest number; it picks none
  only when every ready line has priority 255.  That is so when no line of 240 or more is ready;
  when one is, and firmware can enable and pend them, the scan reads behind the 240 priorities
  and has no defined result.
\<close>
theorem nvic_picks_best:
  "(nvic_pick n = None \<longleftrightarrow> (\<exists>i. 240 \<le> i \<and> i < 256 \<and> is_ready n i)) \<and>
   ((\<forall>i. 240 \<le> i \<and> i < 256 \<longrightarrow> \<not> is_ready n i) \<longrightarrow>
    (nvic_pick n = Some None \<longleftrightarrow> (\<forall>i < 240. is_ready n i \<longrightarrow> nv_prio n i = 0xFF)) \<and>
    (\<forall>i. nvic_pick n = Some (Some i) \<longleftrightarrow>
       i < 240 \<and> is_ready n i \<and> nv_prio n i \<noteq> 0xFF \<and>
       (\<forall>j < 240. is_ready n j \<longrightarrow>
          nv_prio n i \<le> nv_prio n j \<and> (nv_prio n j = nv_prio n i \<longrightarrow> i \<le> j))))"
  by (rule conjI [OF nvic_pick_beyond], rule impI, rule nvic_pick_spec)

theorem nvic_picks_best_witness:
  "nvic_pick demo_nvic = Some (Some 4) \<and>
   nvic_pick (nvic_write (nvic_write nvic_init 0x1C 0x10000) 0x11C 0x10000) = None"
proof
  have "\<forall>i. 240 \<le> i \<and> i < 256 \<longrightarrow> \<not> is_ready demo_nvic i" by (auto simp: demo_nvic_ready)
  with nvic_picks_best [of demo_nvic] show "nvic_pick demo_nvic = Some (Some 4)" by (simp add: demo_nvic_ready)
next
  let ?n = "nvic_write (nvic_write nvic_init 0x1C 0x10000) 0x11C 0x10000"
  have "is_ready ?n 240" by (simp add: is_ready_def line_def nvic_write_def nvic_init_def Let_def)
  then have "\<exists>i. 240 \<le> i \<and> i < 256 \<and> is_ready ?n i" by (intro exI [of _ 240]) simp
  with nvic_picks_best [of ?n] show "nvic_pick ?n = None" by blast
qed

section \<open>Conditions\<close>

text \<open>
  C37: after a comparison of \<open>a\<close> with \<open>b\<close> the condition codes EQ, NE, CS, CC, HI, LS, GE, LT,
  GT and LE mean exactly the unsigned and signed comparisons of \<open>a\<close> and \<open>b\<close>.
\<close>
theorem compare_conditions:
  "(let f = apsr (cpu_set_flags_nzcv_sub c a b (a - b)) in
     (cond_pass f 0x0 \<longleftrightarrow> a = b) \<and> (cond_pass f 0x1 \<longleftrightarrow> a \<noteq> b) \<and>
     (cond_pass f 0x2 \<longleftrightarrow> b \<le> a) \<and> (cond_pass f 0x3 \<longleftrightarrow> a < b) \<and>
     (cond_pass f 0x8 \<longleftrightarrow> b < a) \<and> (cond_pass f 0x9 \<longleftrightarrow> a \<le> b) \<and>
     (cond_pass f 0xA \<longleftrightarrow> sint b \<le> sint a) \<and> (cond_pass f 0xB \<longleftrightarrow> sint a < sint b) \<and>
     (cond_pass f 0xC \<longleftrightarrow> sint b < sint a) \<and> (cond_pass f 0xD \<longleftrightarrow> sint a \<le> sint b))"
  unfolding Let_def by (intro conjI; rule cond_after_cmp)

text \<open>
  C38: the flags of an addition with carry: N is the sign of the result, Z says that it is
  zero, C is the carry out of bit 31 and V signed overflow.
\<close>
theorem addition_flags:
  "(let r = a + b + b2w ci; f = apsr (cpu_set_flags_nzcv_add c a b r ci) in
     (bit f 31 \<longleftrightarrow> sint r < 0) \<and> (bit f 30 \<longleftrightarrow> r = 0) \<and>
     (bit f 29 \<longleftrightarrow> 2 ^ 32 \<le> unat a + unat b + of_bool ci) \<and>
     (bit f 28 \<longleftrightarrow> sint r \<noteq> sint a + sint b + of_bool ci))"
  unfolding Let_def by (intro conjI add_flags)

text \<open>
  C39: the schedule of an IT block: after \<open>k\<close> instructions the block is active exactly while
  the mask, shifted by \<open>k\<close>, has a bit left, the condition is then the base condition with the
  \<open>k\<close>-th mask bit as its lowest, and no block outlasts four instructions.
\<close>
theorem it_block_runs:
  "(cpu_in_it ((cpu_it_advance ^^ k) c) \<longleftrightarrow> push_bit k (itstate c) AND 0xF \<noteq> 0) \<and>
   (cpu_in_it ((cpu_it_advance ^^ k) c) \<longrightarrow>
      cpu_it_cond ((cpu_it_advance ^^ k) c) = fld (itstate c) 4 0xE OR b2w (bit (itstate c) (4 - k))) \<and>
   \<not> cpu_in_it ((cpu_it_advance ^^ 4) c)"
  by (rule it_block_schedule)

theorem it_block_runs_witness:
  "cpu_in_it ((cpu_it_advance ^^ 1) ((cpu_reset CORE_M4)\<lparr>itstate := 0x0C\<rparr>))"
  using it_block_runs [of 1 "(cpu_reset CORE_M4)\<lparr>itstate := 0x0C\<rparr>"] by simp

section \<open>Snapshots and replay\<close>

text \<open>
  C12: restoring a snapshot brings back the CPU, every device and the 256 KB of SRAM that were
  saved; what the blob leaves out (the sink of the UART, the back pointers of the devices) and
  the other regions stay as they are, and no decoded instruction survives.  The machine restored
  to must have the 256 KB of SRAM: on a smaller one the same call has no defined behaviour, since
  it copies them all the same.
\<close>

theorem snapshot_round_trip:
  assumes "snap_save bytes b0 m = (True, b)" "bus_find_flat (regions (mach s)) SRAM_BASE_ADDR = Some k"
  shows "(rsize (regions (mach s) ! k) < SRAM_SIZE \<longrightarrow> snap_restore bytes att i0 b s = None) \<and>
   (\<not> rsize (regions (mach s) ! k) < SRAM_SIZE \<longrightarrow>
    (\<exists>s' j. snap_restore bytes att i0 b s = Some (True, s') \<and> bus_find_flat (regions m) SRAM_BASE_ADDR = Some j \<and>
    cpu (mach s') = cpu m \<and> d_st (mach s') = d_st m \<and> d_nvic (mach s') = d_nvic m \<and> d_mpu (mach s') = d_mpu m \<and>
    d_dwt (mach s') = d_dwt m \<and> d_stm32 (mach s') = d_stm32 m \<and>
    d_scb (mach s') = (d_scb m)\<lparr>scb_ctx := scb_ctx (d_scb (mach s))\<rparr> \<and>
    d_eth (mach s') = (d_eth m)\<lparr>eth_bus := True\<rparr> \<and>
    d_uart (mach s') = (d_uart m)\<lparr>u_sink := u_sink (d_uart (mach s))\<rparr> \<and>
    (\<forall>a < SRAM_SIZE. buf (regions (mach s') ! k) a = buf (regions m ! j) a) \<and>
    (\<forall>i. i \<noteq> k \<longrightarrow> regions (mach s') ! i = regions (mach s) ! i) \<and>
    map shape (regions (mach s')) = map shape (regions (mach s)) \<and>
    (\<forall>p. \<not> dvalid (dcache s' p)) \<and> stdout (mach s') = stdout (mach s) \<and> uart_buf (mach s') = uart_buf (mach s)))"
  using snap_restore_overflow [OF snap_save_valid [OF assms(1)] assms(2)] snap_restore_save [OF assms] by blast

theorem snapshot_round_trip_witness:
  "\<exists>s'. snap_restore demo_bytes True (stack_insn demo_ctx) demo_blob
       (demo_run\<lparr>mach := set_reg demo_machine 3 77\<rparr>) = Some (True, s') \<and> reg (mach s') 3 = 0"
proof -
  let ?s = "demo_run\<lparr>mach := set_reg demo_machine 3 77\<rparr>"
  have "bus_find_flat (regions (mach ?s)) SRAM_BASE_ADDR = Some 1" "\<not> rsize (regions (mach ?s) ! 1) < SRAM_SIZE"
    using demo_sram [of "set_reg demo_machine 3 77"] by simp_all
  with snapshot_round_trip [OF demo_saved this(1), of True "stack_insn demo_ctx"] show ?thesis
    using demo_cpu(1) [of 3] by auto
qed

text \<open>
  C30: a snapshot with one byte changed, its checksum field kept, is refused and changes nothing.
\<close>

theorem snapshot_corruption:
  assumes "blob_valid bytes b" "checksum b' = checksum b" "i < length (bytes (b\<lparr>checksum := 0\<rparr>))"
    "bytes (b'\<lparr>checksum := 0\<rparr>) = (bytes (b\<lparr>checksum := 0\<rparr>))[i := v]" "v \<noteq> bytes (b\<lparr>checksum := 0\<rparr>) ! i"
  shows "snap_restore bytes att i0 b' s = Some (False, s)"
  using blob_corruption [OF assms] by blast

theorem snapshot_corruption_witness:
  "snap_restore demo_bytes True (stack_insn demo_ctx) (demo_blob\<lparr>version := 9\<rparr>) demo_run = Some (False, demo_run)"
  by (rule snapshot_corruption [OF demo_blob_valid, of _ 1 9])
    (simp_all add: demo_bytes_def demo_blob_fields)

text \<open>
  C3: rewinding restores the latest snapshot that is not later than the target and replays the log
  from there: the state it returns is reached from the restored one by runs and by injections of
  the logged events, in the order of the log and none left out, each at the very cycle it was
  logged with and no run going past the cycle of the next event.  It ends at the target, or before
  it where a run makes no progress, and every event before that cycle has been injected.
\<close>

theorem rewind_lands:
  assumes "tt_ok tt" "log_sorted (lg_buf (tt_log tt))" "run_ok s"
    "tt_rewind bytes att rp tt target s = Some (True, s')"
  shows "\<exists>i s1 pos evs. i < length (snaps tt) \<and> last_le (tt_idx tt) target (int i) \<and>
    snap_restore bytes att (stack_insn (rp_ctx rp)) (snaps tt ! i) s = Some (True, s1) \<and>
    cycles (cpu (mach s1)) = se_cycle (tt_idx tt ! i) \<and>
    splits_at (lg_buf (tt_log tt)) (cycles (cpu (mach s1))) pos \<and>
    replayed (rp\<lparr>rp_log := lg_buf (tt_log tt)\<rparr>) (s1, pos) evs (s', pos + length evs) \<and>
    evs = take (length evs) (drop pos (lg_buf (tt_log tt))) \<and>
    due_at (lg_buf (tt_log tt)) pos (pos + length evs) (cycles (cpu (mach s'))) \<and>
    cycles (cpu (mach s')) \<le> target \<and>
    (cycles (cpu (mach s')) = target \<or> no_progress (rp\<lparr>rp_log := lg_buf (tt_log tt)\<rparr>) s')"
  using tt_rewind_lands [OF assms] unfolding replayed_to_def replay_t.select_convs replay_t.update_convs by fastforce

theorem rewind_lands_witness:
  "\<exists>s' s1 pos evs. tt_rewind demo_bytes False demo_replay demo_rewound 2 demo_run = Some (True, s') \<and>
    replayed (demo_replay\<lparr>rp_log := demo_events\<rparr>) (s1, pos) evs (s', pos + length evs) \<and>
    evs = take (length evs) (drop pos demo_events) \<and> length demo_events = 2"
proof -
  obtain s' where s': "tt_rewind demo_bytes False demo_replay demo_rewound 2 demo_run = Some (True, s')"
    using demo_rewind by blast
  from rewind_lands [OF demo_rewound_ok(1,2) demo_run_ok s'] obtain s1 pos evs where
    "replayed (demo_replay\<lparr>rp_log := demo_events\<rparr>) (s1, pos) evs (s', pos + length evs)"
    "evs = take (length evs) (drop pos demo_events)" unfolding demo_rewound_ok(3) by blast
  moreover have "length demo_events = 2" by (simp add: demo_events_def)
  ultimately show ?thesis using s' by blast
qed

text \<open>
  C27: the search in the event log returns the first event that is not earlier than the cycle
  asked for.
\<close>

theorem seek_lower_bound:
  assumes "log_sorted (lg_buf lg)"
  shows "ev_log_seek lg t \<le> length (lg_buf lg) \<and> (\<forall>i < ev_log_seek lg t. ev_cycle (lg_buf lg ! i) < t) \<and>
    (\<forall>i. ev_log_seek lg t \<le> i \<and> i < length (lg_buf lg) \<longrightarrow> t \<le> ev_cycle (lg_buf lg ! i))"
  using ev_log_seek_splits [OF assms] by (simp add: splits_at_def)

theorem seek_lower_bound_witness: "ev_cycle (lg_buf demo_log ! ev_log_seek demo_log 6) = 7"
proof -
  have "log_sorted (lg_buf demo_log)" by (simp add: log_sorted_def demo_log_def)
  note s = seek_lower_bound [OF this, of 6]
  have "ev_log_seek demo_log 6 \<noteq> 0" using s by (auto simp: demo_log_def)
  moreover have "ev_log_seek demo_log 6 \<le> 1"
  proof (rule ccontr)
    assume "\<not> ev_log_seek demo_log 6 \<le> 1"
    then have "1 < ev_log_seek demo_log 6" by simp
    then have "ev_cycle (lg_buf demo_log ! 1) < 6" using s by blast
    then show False by (simp add: demo_log_def)
  qed
  ultimately have "ev_log_seek demo_log 6 = 1" by linarith
  then show ?thesis by (simp add: demo_log_def)
qed

text \<open>
  C28: appending to the event log keeps the events in order and never passes the maximal
  capacity; an append fails, and then changes nothing, only when the log is full and has its
  maximal size or the allocation of the larger buffer fails.
\<close>

theorem log_append:
  assumes "log_ok lg" "ev_log_append alloc lg cyc ty pl = (b, lg')"
  shows "log_ok lg' \<and> lg_cap lg \<le> lg_cap lg' \<and>
    lg_buf lg' = (if b then lg_buf lg @ [\<lparr>ev_cycle = cyc, ev_kind = ty, payload = pl\<rparr>] else lg_buf lg) \<and>
    (\<not> b \<longrightarrow> lg' = lg \<and> length (lg_buf lg) = lg_cap lg \<and> (lg_cap lg = TT_LOG_MAX \<or> (\<exists>n. \<not> alloc n)))"
  by (rule ev_log_append_spec [OF assms])

theorem log_append_witness:
  "snd (ev_log_append (\<lambda>_. False) demo_log 11 EVENT_UART_RX 65) = demo_log \<and>
   length (lg_buf (snd (ev_log_append (\<lambda>_. True) demo_log 11 EVENT_UART_RX 65))) = 5"
proof -
  have ok: "log_ok demo_log" by (simp add: log_ok_def demo_log_def)
  obtain b lg where a: "ev_log_append (\<lambda>_. False) demo_log 11 EVENT_UART_RX 65 = (b, lg)" by fastforce
  obtain b' lg' where a': "ev_log_append (\<lambda>_. True) demo_log 11 EVENT_UART_RX 65 = (b', lg')" by fastforce
  have "\<not> b" using a by (simp add: ev_log_append_def demo_log_def)
  moreover have "b'" using a' by (auto simp: ev_log_append_def demo_log_def Let_def)
  ultimately show ?thesis using log_append [OF ok a] log_append [OF ok a'] a a' by (simp add: demo_log_def)
qed

text \<open>
  C29: the snapshot store keeps its invariant at every cycle: one index entry per snapshot, in
  the order of their cycles, at least a stride apart, never more than the maximum.
\<close>

theorem snapshots_spaced:
  assumes "tt_ok t" "unat (cycles (cpu m)) < 2 ^ 63"
  shows "tt_ok (tt_on_cycle bytes rp b0 t m)"
  by (rule tt_on_cycle_ok [OF assms])

theorem snapshots_spaced_witness:
  "tt_ok (tt_on_cycle demo_bytes False demo_blob0 demo_tt (cpu_update (cycles_update (\<lambda>_. 25)) demo_machine))"
  by (rule snapshots_spaced [OF demo_tt_ok(1)]) simp

section \<open>The UART\<close>

text \<open>
  C19: no program ever receives a byte from the UART: in every state a board reaches by
  flashing, running, stores, loads and register changes from outside, interrupts raised, bytes
  injected, events replayed and snapshots restored, the data register reads 0, the status register
  shows nothing received, no read takes a byte from the ring, and every byte written is transmitted,
  in a replay as well.  The device delivers its input in replay mode only, which nothing turns on.
\<close>

theorem uart_input_unread:
  assumes "board_life m"
  shows "uart_read (d_uart m) off = (if off = 4 then 1 else 0, d_uart m) \<and>
    uart_tx (d_uart m) 0 v = Some (to8 (v AND 0xFF))"
  by (rule life_uart [OF assms])

theorem uart_input_unread_witness:
  "uart_read (uart_inject_rx (d_uart demo_machine) 65) 0 = (0, uart_inject_rx (d_uart demo_machine) 65)"
proof -
  have "board_create demo_fpu ''generic-m4'' = Some demo_new"
    by (simp add: demo_new_def board_create_known [OF demo_profile])
  then have "board_life demo_machine"
    using life_flash [OF life_new, of demo_fpu "''generic-m4''" demo_new demo_fw] by (simp add: demo_machine_def demo_board_def)
  from uart_input_unread [OF life_rx [OF this, of 65], of 0] show ?thesis by simp
qed

section \<open>Caches\<close>

text \<open>
  C4: the decode cache is not observable: a run without the block compiler whose instructions
  all come from memory that is not writable gives the same count and the same machine as the
  reference interpreter, which decodes every instruction anew.
\<close>

theorem decode_cache_transparent:
  assumes "jit s = None" "rom_trace ctx (unat k) (mach s)"
  shows "map_option (\<lambda>(n, s'). (n, mach s')) (run_steps_full_gc ctx s k) =
    map_option (\<lambda>(n, m'). (of_nat n, m')) (run_ref ctx (unat k) (mach s))"
  by (rule run_steps_ref [OF assms])

theorem decode_cache_transparent_witness:
  "map_option (\<lambda>(n, s'). (n, mach s')) (run_steps_full_gc demo_ctx demo_run 1) =
    map_option (\<lambda>(n, m'). (of_nat n, m')) (run_ref demo_ctx 1 demo_machine)"
  using decode_cache_transparent [of demo_run demo_ctx 1] demo_trace by (simp add: demo_run_def)

text \<open>
  C5: a pre-decoded block does what decoding and executing instruction by instruction does,
  when the block lies in memory that is not writable and its instructions before the last
  fall through to the next address.
\<close>

theorem block_equivalent:
  assumes "straight i0 n (reg m REG_PC) m"
  shows "interp_block (fst (compile_loop n m (reg m REG_PC) i0)) m =
    exec_ref i0 (length (fst (compile_loop n m (reg m REG_PC) i0))) m"
  by (rule interp_block_ref [OF assms refl]) (simp add: same_rom_def)

theorem block_equivalent_witness:
  "interp_block (fst (compile_loop 2 demo_machine 8 (stack_insn demo_ctx))) demo_machine =
    exec_ref (stack_insn demo_ctx) (length (fst (compile_loop 2 demo_machine 8 (stack_insn demo_ctx)))) demo_machine"
  using block_equivalent [of "stack_insn demo_ctx" "Suc (Suc 0)" demo_machine] demo_straight demo_cpu(1) unfolding numeral_2_eq_2 by simp

text \<open>
  C10: PUSH and POP are inverse: PUSH stores the listed registers below SP, the lowest first;
  whatever runs in between, if it keeps SP and the stored words, the matching POP restores the
  registers and SP, jumps to the pushed LR when it was pushed, and leaves the other registers.
\<close>

theorem push_pop_restores:
  assumes "pop_of i j" "\<not> cpu_in_it (cpu m)"
    "\<forall>k < length (pushed i). flat_ok m (reg m REG_SP - 4 * of_nat (length (pushed i)) + 4 * of_nat k)"
  shows "\<exists>m1. execute m i = Some (True, m1) \<and> reg m1 REG_SP = reg m REG_SP - 4 * of_nat (length (pushed i)) \<and>
    (\<forall>k < length (pushed i). ld_word m1 (reg m REG_SP - 4 * of_nat (length (pushed i)) + 4 * of_nat k) =
      Some (reg m (of_nat (pushed i ! k)))) \<and>
    (\<forall>m2. kept_stack m1 m2 (length (pushed i)) \<and>
       (bit (ireg_list i) 14 \<longrightarrow> \<not> is_exc_return m2 (reg m REG_LR)) \<longrightarrow>
      (\<exists>m3. execute m2 j = Some (True, m3) \<and>
        (\<forall>k<8. bit (ireg_list i) k \<longrightarrow> reg m3 (of_nat k) = reg m (of_nat k)) \<and>
        (\<forall>k<13. \<not> bit (ireg_list i) k \<longrightarrow> reg m3 (of_nat k) = reg m2 (of_nat k)) \<and>
        reg m3 REG_LR = reg m2 REG_LR \<and> reg m3 REG_SP = reg m REG_SP \<and>
        reg m3 REG_PC = (if bit (ireg_list i) 14 then reg m REG_LR AND NOT 1
                         else reg m2 REG_PC + to32 (isize j))))"
  by (rule push_pop [OF assms])

theorem push_pop_restores_witness:
  "\<exists>m1. execute demo_machine demo_push = Some (True, m1) \<and> reg m1 REG_SP = 0x200000F4 \<and>
     ld_word m1 0x200000F8 = Some 0"
proof -
  have pp: "pop_of demo_push demo_pop" by (simp add: pop_of_def demo_push_def demo_pop_def)
  have it: "\<not> cpu_in_it (cpu demo_machine)" by (simp add: cpu_in_it_def demo_cpu)
  have ok: "\<forall>k < length (pushed demo_push). flat_ok demo_machine
      (reg demo_machine REG_SP - 4 * of_nat (length (pushed demo_push)) + 4 * of_nat k)"
  proof (intro allI impI)
    fix k assume "k < length (pushed demo_push)"
    then have "k = 0 \<or> k = 1 \<or> k = 2" by (auto simp: demo_pushed)
    then show "flat_ok demo_machine (reg demo_machine REG_SP - 4 * of_nat (length (pushed demo_push)) + 4 * of_nat k)"
      by (intro demo_flat) (auto simp: demo_pushed demo_cpu)
  qed
  from push_pop_restores [OF pp it ok] obtain m1 where m1: "execute demo_machine demo_push = Some (True, m1)"
    "reg m1 REG_SP = 0x200000F4"
    "\<forall>k < 3. ld_word m1 (0x200000F4 + 4 * of_nat k) = Some (reg demo_machine (of_nat ([0, 4, 14] ! k)))"
    by (auto simp: demo_pushed demo_cpu)
  from m1(3) [rule_format, of 1] have "ld_word m1 0x200000F8 = Some (reg demo_machine 4)" by simp
  then show ?thesis using m1(1,2) demo_cpu(1) [of 4] by auto
qed

section \<open>Bits\<close>

text \<open>
  C40: the bit-field instructions of Thumb-2 do what their names say: BFI replaces the bits from
  lsb to msb, BFC clears them, UBFX extracts a field with zeros above it and SBFX with copies
  of its highest bit.
\<close>

theorem bit_fields:
  fixes imm w d n :: u32
  assumes "imm AND 0x1F \<le> fld imm 8 0x1F" "k < 32"
  shows "bit (bfi d n imm) k = (if unat (imm AND 0x1F) \<le> k \<and> k \<le> unat (fld imm 8 0x1F)
      then bit n (k - unat (imm AND 0x1F)) else bit d k) \<and>
    (bit (bfc d imm) k \<longleftrightarrow> bit d k \<and> \<not> (unat (imm AND 0x1F) \<le> k \<and> k \<le> unat (fld imm 8 0x1F))) \<and>
    (bit (ubfx n w) k \<longleftrightarrow> k \<le> unat (fld w 8 0x1F) \<and> bit n (unat (w AND 0x1F) + k)) \<and>
    (bit (sbfx n w) k \<longleftrightarrow> bit n (unat (w AND 0x1F) + min k (unat (fld w 8 0x1F))))"
  using bfi_bits [OF assms(1)] bfc_bits [OF assms(1)] ubfx_bits sbfx_bits [OF assms(2)] by blast

theorem bit_fields_witness: "\<not> bit (bfc 0xFF 0x704) 5 \<and> bit (bfc 0xFF 0x704) 2"
  using bit_fields [of "0x704" 5 "0xFF" 0 0] bit_fields [of "0x704" 2 "0xFF" 0 0] by simp

text \<open>
  CLZ counts the zeros above the highest set bit, RBIT mirrors the word, REV reverses its
  bytes and is its own inverse, and UMULL writes the exact 64-bit product into its two registers.
\<close>

theorem bit_counts_and_products:
  "clz 0 = 32 \<and>
   (v \<noteq> 0 \<longrightarrow> unat (clz v) < 32 \<and> bit v (31 - unat (clz v)) \<and> (\<forall>j. 31 - unat (clz v) < j \<longrightarrow> \<not> bit v j)) \<and>
   (\<forall>n<32. bit (rbit v) n = bit v (31 - n)) \<and> rev_word (rev_word v) = v \<and>
   (ird i \<noteq> irs i \<longrightarrow>
      unat (reg (put_pair m i (to64 v * to64 (w :: u32))) (irs i)) * 2 ^ 32 + unat (reg (put_pair m i (to64 v * to64 w)) (ird i))
        = unat v * unat w)"
  using clz_top [of v] rbit_bits [of _ v] rev_word_twice [of v] put_pair_regs [of i m "to64 v * to64 w"]
    halves [of "to64 v * to64 w"] umull_value [of v w] by (simp add: clz_def)

theorem bit_counts_and_products_witness:
  "bit (0x00F00000 :: u32) (31 - unat (clz 0x00F00000)) \<and> bit (rbit 0x80000000) 0"
proof -
  have "(0x00F00000 :: u32) \<noteq> 0" by simp
  then have "bit (0x00F00000 :: u32) (31 - unat (clz 0x00F00000))" using bit_counts_and_products by blast
  moreover have "\<forall>n<32. bit (rbit 0x80000000) n = bit (0x80000000 :: u32) (31 - n)"
    using bit_counts_and_products by blast
  then have "bit (rbit 0x80000000) 0" by (auto dest: spec [of _ 0])
  ultimately show ?thesis by blast
qed

section \<open>Decoding\<close>

text \<open>
  C11: whatever the memory holds, decoding gives an instruction of 2 or 4 bytes at the address
  asked for whose register numbers are below 16, so that the executor indexes the sixteen
  registers within bounds.
\<close>

theorem decoded_well_formed:
  "case decode m pc i0 of (sz, i, m') \<Rightarrow> (sz = 2 \<or> sz = 4) \<and> ipc i = pc \<and> isize i = sz \<and>
     ird i < 16 \<and> irn i < 16 \<and> irm i < 16 \<and> irs i < 16 \<and> icond i < 16"
  using decode_insn_ok [where m = m and pc = pc and ?i0.0 = i0] by (auto simp: insn_ok_def)

section \<open>Interrupts\<close>

text \<open>
  C15: an interrupt that may be taken is taken: in thread mode with nothing masked and neither
  SysTick nor PendSV pending, the line that the controller picks is entered through its vector,
  becomes active and is no longer pending.
\<close>

theorem interrupt_taken:
  assumes "open_to_irqs (cpu m)" "\<not> irq_pending (d_st m)" "\<not> pendsv_pending (d_scb m)"
    "with_nvic ctx" "nvic_pick (d_nvic m) = Some (Some irq)" "irq < 240"
    "frame_ok m (reg m REG_SP - 32)" "flat_read_ok m (4 * to32 (irq_exc irq))"
  shows "\<exists>m' v. check_irqs ctx m = Some m' \<and> ld_word m' (4 * to32 (irq_exc irq)) = Some v \<and>
    reg m' REG_PC = v AND NOT 1 \<and> mode (cpu m') = MODE_HANDLER \<and> ipsr (cpu m') = to32 (irq_exc irq) \<and>
    line (nv_active (d_nvic m')) irq \<and> \<not> line (nv_pending (d_nvic m')) irq"
  by (rule irq_taken [OF assms])

theorem interrupt_taken_witness:
  "\<exists>m'. check_irqs demo_ctx (demo_machine\<lparr>d_nvic := demo_nvic\<rparr>) = Some m' \<and> ipsr (cpu m') = 20 \<and> mode (cpu m') = MODE_HANDLER"
proof -
  let ?m = "demo_machine\<lparr>d_nvic := demo_nvic\<rparr>"
  have q: "\<not> irq_pending (d_st ?m)" "\<not> pendsv_pending (d_scb ?m)" using demo_quiet by (simp_all add: quiet_def)
  have o: "open_to_irqs (cpu ?m)" using demo_quiet by (simp add: quiet_def open_to_irqs_def)
  have fr: "frame_ok ?m (reg ?m REG_SP - 32)" using frame_regions(1) [OF demo_frame, of ?m] demo_cpu(1) by simp
  have v: "flat_read_ok ?m (4 * to32 (irq_exc 4))" by (simp add: flat_read_ok_def demo_regions irq_exc_def)
  have nv: "with_nvic demo_ctx" "nvic_pick (d_nvic ?m) = Some (Some 4)" by (simp_all add: demo_ctx_def demo_nvic_pick)
  from interrupt_taken [OF o q nv _ fr v] show ?thesis by (auto simp: irq_exc_def)
qed

text \<open>
  C34: an interrupt whose frame cannot be stacked is lost.  When a store of the frame is refused,
  be it the first or one behind words that were stored, because there is no region, it is not
  writable or the word runs over its end, then for a SysTick, a PendSV and a line of the controller
  alike the pending bit is gone, no handler is entered, the registers and the fault status are
  those of the interrupted code, which goes on; the line stays active.
\<close>

theorem interrupt_lost:
  assumes "open_to_irqs (cpu m)" "frame_refused m (reg m REG_SP - 32)"
  shows "(with_st ctx \<and> irq_pending (d_st m) \<longrightarrow>
      (\<exists>m'. check_irqs ctx m = Some m' \<and> \<not> irq_pending (d_st m') \<and> not_entered m m')) \<and>
    (\<not> (with_st ctx \<and> irq_pending (d_st m)) \<and> with_scb ctx \<and> pendsv_pending (d_scb m) \<longrightarrow>
      (\<exists>m'. check_irqs ctx m = Some m' \<and> \<not> pendsv_pending (d_scb m') \<and> not_entered m m')) \<and>
    (\<not> (with_st ctx \<and> irq_pending (d_st m)) \<and> \<not> (with_scb ctx \<and> pendsv_pending (d_scb m)) \<and> with_nvic ctx \<and>
       nvic_pick (d_nvic m) = Some (Some irq) \<and> irq < 240 \<longrightarrow>
      (\<exists>m'. check_irqs ctx m = Some m' \<and> \<not> line (nv_pending (d_nvic m')) irq \<and> line (nv_active (d_nvic m')) irq \<and>
        not_entered m m'))"
  by (rule irq_lost [OF assms])

theorem interrupt_lost_witness:
  "\<exists>m'. check_irqs demo_ctx (set_reg (demo_machine\<lparr>d_st := (d_st demo_machine)\<lparr>irq_pending := True\<rparr>\<rparr>) REG_SP 0x20000010) = Some m' \<and>
     \<not> irq_pending (d_st m') \<and> mode (cpu m') = MODE_THREAD"
proof -
  let ?m = "set_reg (demo_machine\<lparr>d_st := (d_st demo_machine)\<lparr>irq_pending := True\<rparr>\<rparr>) REG_SP 0x20000010"
  have o: "open_to_irqs (cpu ?m)" using demo_quiet by (simp add: quiet_def open_to_irqs_def)
  have "store_refused ?m (reg ?m REG_SP - 32 + 4 * of_nat 0)"
    by (simp add: store_refused_def demo_regions peripheral_map_def)
  then have u: "frame_refused ?m (reg ?m REG_SP - 32)" unfolding frame_refused_def by (intro exI [of _ 0]) simp
  have st: "with_st demo_ctx" "irq_pending (d_st ?m)" by (simp_all add: demo_ctx_def)
  show ?thesis using interrupt_lost [OF o u, of demo_ctx] st by (auto simp: not_entered_def)
qed

text \<open>
  C33: a fault raised while a handler runs is escalated: HardFault is entered, whatever the fault.
\<close>

theorem fault_escalates:
  assumes "mode (cpu m) = MODE_HANDLER" "frame_ok m (reg m REG_SP - 32)" "flat_read_ok m 12"
  shows "\<exists>m'. raise_fault m fault a st = Some m' \<and> ipsr (cpu m') = 3 \<and> mode (cpu m') = MODE_HANDLER"
  by (rule fault_in_handler [OF assms])

theorem fault_escalates_witness:
  "\<exists>m'. raise_fault (cpu_update (mode_update (\<lambda>_. MODE_HANDLER)) demo_machine) EXC_USAGE_FAULT 0 1 = Some m' \<and>
     ipsr (cpu m') = 3"
proof -
  let ?m = "cpu_update (mode_update (\<lambda>_. MODE_HANDLER)) demo_machine"
  have fr: "frame_ok ?m (reg ?m REG_SP - 32)" using frame_regions(1) [OF demo_frame, of ?m] demo_cpu(1) by simp
  have v: "flat_read_ok ?m 12" by (simp add: flat_read_ok_def demo_regions)
  show ?thesis using fault_escalates [OF _ fr v, of EXC_USAGE_FAULT 0 1] by auto
qed

section \<open>Memory and the Ethernet loopback\<close>

text \<open>
  C17: the writable flat memory behind the bus is a map from word addresses: any sequence of
  word stores through the bus to aligned addresses succeeds and changes the words that loads
  find exactly as the sequence of map updates does.
\<close>

theorem memory_is_a_map:
  assumes "\<forall>(a, v) \<in> set ws. flat_ok m a \<and> aligned a"
  shows "\<exists>m'. flat_word.stores m ws = Some m' \<and>
    flat_word.words m' = foldl (\<lambda>f (a, v). f(a \<mapsto> v)) (flat_word.words m) ws"
  by (rule flat_word.stores_words [OF assms])

theorem memory_is_a_map_witness:
  "\<exists>m'. flat_word.stores demo_machine [(0x20000010, 1), (0x20000014, 2), (0x20000010, 3)] = Some m' \<and>
     flat_word.words m' 0x20000010 = Some 3 \<and> flat_word.words m' 0x20000014 = Some 2"
proof -
  have "\<forall>(a, v) \<in> set [(0x20000010, 1 :: u32), (0x20000014, 2), (0x20000010, 3)]. flat_ok demo_machine a \<and> aligned a"
    by (simp add: demo_flat aligned_def)
  from memory_is_a_map [OF this] show ?thesis by auto
qed

text \<open>
  C26: a bus write returns: the write to the TX_LEN register of the Ethernet device stores the
  reply through the bus, and that comes to an end when the reply is not addressed to the
  Ethernet registers themselves; every other write returns at once.
\<close>

theorem bus_write_terminates:
  assumes "at_eth m a \<longrightarrow> (\<forall>i < unat v. \<not> at_eth m (rx_addr (d_eth m) + of_nat i))"
  shows "\<exists>ok m'. bus_write m a sz v = Some (ok, m')"
  by (rule bus_write_returns [OF assms])

theorem bus_write_terminates_witness:
  "\<exists>ok m'. bus_write (demo_machine\<lparr>d_eth := (d_eth demo_machine)\<lparr>rx_addr := 0x20000000, eth_bus := True\<rparr>\<rparr>) 0x40028008 4 2
     = Some (ok, m')"
proof -
  have "\<not> at_eth (demo_machine\<lparr>d_eth := e\<rparr>) (0x20000000 + of_nat i)" if "i < 2" for i e
    using that by (auto simp: less_2_cases_iff at_eth_def demo_regions)
  then show ?thesis by (intro bus_write_terminates) simp
qed

text \<open>
  C36: the ICMP checksum of the loopback's reply, judged by the internet checksum of RFC 1071
  over the whole message, is valid exactly when the frame has an even length or ends in a zero
  byte: the loop of the code leaves the last byte of an odd message out.
\<close>

theorem echo_checksum_valid:
  assumes "42 \<le> length b" "length b \<le> 1600"
  shows "checksum_ok (drop 34 (echo_frame b)) \<longleftrightarrow> even (length b) \<or> last b = 0"
  by (rule echo_checksum_ok [OF assms])

theorem echo_checksum_valid_witness:
  "checksum_ok (drop 34 (echo_frame (replicate 42 0x5A))) \<and> \<not> checksum_ok (drop 34 (echo_frame (replicate 43 0x5A)))"
  using echo_checksum_valid [of "replicate 42 0x5A"] echo_checksum_valid [of "replicate 43 0x5A"] by simp

text \<open>
  C23: the replaying run ends: its loop has no bound of its own, but when the calls inside every
  iteration it can reach return, it returns.
\<close>

theorem replay_terminates:
  assumes "replay_inv rp target pos s pos"
    "\<forall>s' pos'. (until_step rp target)\<^sup>*\<^sup>* (s, pos) (s', pos') \<and> cycles (cpu (mach s')) < target \<longrightarrow>
     iteration_returns rp target s' pos'"
  shows "\<exists>y. run_until_cycle rp target s pos = Some y"
  by (rule run_until_returns [OF assms])

theorem replay_terminates_witness: "\<exists>y. run_until_cycle demo_replay 5 halted_run 0 = Some y"
proof -
  have i: "replay_inv demo_replay 5 0 halted_run 0"
    using demo_cpu(5) by (simp add: replay_inv_def run_ok_def halted_run_def demo_run_def demo_replay_def due_at_def)
  have "s' = halted_run \<and> pos' = 0"
    if "(until_step demo_replay 5)\<^sup>*\<^sup>* (halted_run, 0) (s', pos')" for s' pos'
    using that halted_iteration(2) by (metis converse_rtranclpE prod.inject)
  then show ?thesis using halted_iteration(1) by (intro replay_terminates [OF i]) blast
qed

section \<open>Native code\<close>



text \<open>
  The stack of the emitted bus calls: entered as WIN64 prescribes, with RSP at 8 mod 16, a thunk
  that begins with a load calls \<^verbatim>\<open>bus_read\<close> with RSP at 8 mod 16 again, so that it has no defined
  behaviour unless the bus functions realign the stack.
\<close>

theorem native_call_misaligned:
  assumes "at_rsp h AND 0xF = 8" "\<not> realigns h" "iop i \<in> {OP_LDR_IMM, OP_LDRB_IMM, OP_LDRH_IMM}" "irn i < 16"
  shows "x86_call h (thunk_code h flat (i # is)) m = None"
  by (rule load_misaligned [OF assms])

theorem native_call_misaligned_witness:
  "x86_call (demo_host\<lparr>realigns := False\<rparr>) (thunk_code (demo_host\<lparr>realigns := False\<rparr>) None [far_load]) demo_machine = None"
  by (rule native_call_misaligned) (simp_all add: demo_host_def far_load_def)

text \<open>
  C21: the estimate of 160 bytes per instruction and 64 for the rest is enough for every block
  without a register list: its thunk lies in the buffer whole, behind what was there.
\<close>

theorem native_code_fits:
  assumes "length (buffer g) \<le> capacity g" "is \<noteq> []" "list_all (\<lambda>i. \<not> register_list_op (iop i)) is"
    "codegen_emit h g m is = (Some code, g')"
  shows "code = thunk_code h (flat_sram m) is \<and> buffer g' = buffer g @ code \<and> capacity g' = capacity g \<and>
    length (buffer g') \<le> capacity g'"
  by (rule codegen_complete [OF assms])

theorem native_code_fits_witness:
  "\<exists>code. codegen_emit demo_host codegen_init demo_machine [demo_insn1, demo_insn2] = (Some code, \<lparr>buffer = code, capacity = CG_BUFFER_SIZE\<rparr>)"
proof -
  obtain code where c: "codegen_emit demo_host codegen_init demo_machine [demo_insn1, demo_insn2] = (Some code, snd native_demo)"
    using native_demo_ok(2,5) by (auto simp: native_block_demo_def prod_eq_iff)
  have "list_all (\<lambda>i. \<not> register_list_op (iop i)) [demo_insn1, demo_insn2]"
    by (simp add: demo_insn1_def demo_insn2_def register_list_op_def)
  from native_code_fits [OF _ _ this c] have "buffer (snd native_demo) = code" "capacity (snd native_demo) = CG_BUFFER_SIZE"
    by (simp_all add: codegen_init_def)
  then show ?thesis unfolding c by (cases "snd native_demo") simp
qed



section \<open>The board\<close>

text \<open>
  A board is created exactly for the three known names, with flash at 0, SRAM at
  0x20000000, the fixed map of the peripherals and a CPU after reset.
\<close>

theorem board_create_known_names:
  "(board_create h nm \<noteq> None \<longleftrightarrow> nm \<in> {''stm32f103'', ''stm32f407'', ''generic-m4''}) \<and>
   (\<forall>b. board_create h nm = Some b \<longrightarrow> board_profile_find nm = Some (b_prof b) \<and>
      regions (b_mach b) = flat_region ''flash'' 0 (flash_size (b_prof b)) False #
        flat_region ''sram'' 0x20000000 (prof_sram_size (b_prof b)) True # peripheral_map \<and>
      cpu (b_mach b) = cpu_reset (prof_core (b_prof b)))"
  by (rule conjI, rule board_create_names, intro allI impI, drule created, elim conjE, intro conjI)

theorem board_create_known_names_witness: "\<exists>b. board_create demo_fpu ''stm32f103'' = Some b \<and>
    board_profile_find ''stm32f103'' = Some (b_prof b)"
  using board_create_known_names [of demo_fpu "''stm32f103''"] by blast

text \<open>
  C35: flashing an image that fits succeeds and boots it: every byte of the image is read back
  from flash, SP is its first word, the PC its second without the Thumb bit, and the CPU runs.
\<close>

theorem board_flash_boots:
  assumes "board_create h nm = Some b" "8 \<le> length data" "length data \<le> unat (flash_size (b_prof b))"
  shows "\<exists>b'. board_flash b data = (True, b') \<and>
    (\<forall>i < length data. bus_read (b_mach b') (of_nat i) 1 = (Some (to32 (data ! i)), b_mach b')) \<and>
    reg (b_mach b') REG_SP = le_word (data ! 0) (data ! 1) (data ! 2) (data ! 3) \<and>
    msp (cpu (b_mach b')) = reg (b_mach b') REG_SP \<and>
    reg (b_mach b') REG_PC = le_word (data ! 4) (data ! 5) (data ! 6) (data ! 7) AND NOT 1 \<and>
    \<not> halted (cpu (b_mach b'))"
  by (rule flash_boots [OF assms])

theorem board_flash_boots_witness:
  "\<exists>b'. board_flash demo_new demo_fw = (True, b') \<and> reg (b_mach b') REG_PC = 8"
proof -
  have c: "board_create demo_fpu ''generic-m4'' = Some demo_new"
    by (simp add: demo_new_def board_create_known [OF demo_profile])
  moreover have "flash_size (b_prof demo_new) = 0x100000"
    using created [OF c] demo_profile by (auto dest!: sym [of _ "b_prof demo_new"])
  ultimately show ?thesis
    using board_flash_boots [OF c, of demo_fw] by (auto simp: demo_fw_def le_word_def)
qed

text \<open>
  The registers of the MPU cannot be reached: on every board their addresses lie in the
  window of the SCB, which was added first and answers for them.
\<close>

theorem mpu_unreachable:
  assumes "board_create h nm = Some b" "0xE000ED90 \<le> a" "a \<le> 0xE000EDEF"
  shows "find_region (regions (b_mach b)) a = Some 4 \<and> kind (regions (b_mach b) ! 4) = REGION_MMIO DEV_SCB"
  by (rule mpu_shadowed [OF assms])

theorem mpu_unreachable_witness: "find_region (regions (b_mach demo_new)) 0xE000ED94 = Some 4"
proof -
  have "board_create demo_fpu ''generic-m4'' = Some demo_new"
    by (simp add: demo_new_def board_create_known [OF demo_profile])
  from mpu_unreachable [OF this, of "0xE000ED94"] show ?thesis by simp
qed

section \<open>Chained blocks\<close>

text \<open>
  C16: a chain of blocks does not run over the interrupt of the timer: with SysTick and its
  interrupt enabled before the chain, and the firmware leaving the timer alone inside it, the
  accounting for the \<open>k\<close> steps of the chain at once is \<open>k\<close> single ticks of the timer, and no tick
  before the last makes the interrupt pending: the chain ends at the latest with the step at
  which it becomes due.
\<close>

theorem chain_stops_at_timer:
  assumes "run_ok s" "try_chain ctx s left = Some (k, s1)" "with_st ctx"
    "csr (d_st (mach s)) AND 1 \<noteq> 0" "csr (d_st (mach s)) AND 2 \<noteq> 0" "rvr (d_st (mach s)) \<noteq> 0"
    "d_st (mach s1) = d_st (mach s)"
  shows "(\<forall>j < k. irq_pending (d_st (tick_batch ctx j (mach s1))) = irq_pending (d_st (mach s))) \<and>
    (0 < k \<longrightarrow> d_st (tick_batch ctx k (mach s1)) = ((\<lambda>t. systick_tick t 1) ^^ k) (d_st (mach s)))"
  by (rule chain_before_wrap [OF assms])

theorem chain_stops_at_timer_witness:
  "\<exists>s1. try_chain demo_ctx hot_run 33 = Some (2, s1) \<and> \<not> irq_pending (d_st (tick_batch demo_ctx 1 (mach s1)))"
proof -
  obtain s1 where t: "try_chain demo_ctx hot_run 33 = Some (2, s1)" "d_st (mach s1) = d_st (mach hot_run)" using hot_chain by blast
  have "jit_ok hot_jit" by (simp add: jit_ok_def hot_jit_def install_def Let_def)
  then have r: "run_ok hot_run" by (simp add: run_ok_def hot_run_def)
  from chain_stops_at_timer [OF r t(1) _ _ _ _ t(2)] have
    "\<forall>j < 2. irq_pending (d_st (tick_batch demo_ctx j (mach s1))) = irq_pending (d_st (mach hot_run))"
    by (simp add: hot_run_def demo_ctx_def)
  then have "irq_pending (d_st (tick_batch demo_ctx 1 (mach s1))) = irq_pending (d_st (mach hot_run))" by simp
  then show ?thesis using t(1) by (simp add: hot_run_def)
qed

section \<open>The debugger\<close>

text \<open>
  C18: a session is its packets.  When the client frames each packet, none of which is longer than
  the buffer or holds a number sign, and acknowledges each reply, the command loop does what
  handling the packets one after the other does, up to the one that resumes or ends, and the end
  of the connection closes the debugger.
\<close>

theorem gdb_session:
  assumes "\<forall>p\<in>set ps. sendable p" "inp s = []"
  shows "deaf (serve_loop (s\<lparr>inp := client ps\<rparr>) m pkt) = session s m pkt ps"
  by (rule serve_loop_session [OF assms])

theorem gdb_session_witness:
  "\<exists>d. deaf (serve_loop (demo_dbg (client [asc ''?'', asc ''c''])) demo_machine []) = Some (Resumes, d, demo_machine) \<and>
    outp d = asc ''+'' @ frame (asc ''S05'') @ asc ''+''"
proof -
  have "\<forall>p\<in>set [asc ''?'', asc ''c'']. sendable p" by (simp add: sendable_def asc_def)
  from gdb_session [OF this, of "demo_dbg []" demo_machine "[]"]
  show ?thesis by (simp add: gdb_packet_def put_str_def asc_def send_frame)
qed

text \<open>
  C20: registers cross the connection unchanged: the reply to \<open>g\<close>, sent back in a \<open>G\<close> packet to any
  machine, gives that machine the sixteen registers of the processor that was read, and changes
  nothing else; the program status word of the reply is not written back.
\<close>

theorem gdb_register_transfer:
  "\<exists>s1 s2. send_regs s c = Some s1 \<and> outp s1 = outp s @ frame (regs_payload c) \<and>
    gdb_packet s1 m (put_str (asc ''G'' @ regs_payload c) pkt) =
      Some (Goes_on, s2, m\<lparr>cpu := (cpu m)\<lparr>r_of := (\<lambda>k. if k < 16 then r_of c k else r_of (cpu m) k)\<rparr>\<rparr>) \<and>
    outp s2 = outp s1 @ frame (asc ''OK'')"
  by (rule register_transfer)

text \<open>
  C9: \<open>n + 1\<close> single steps do what a plain run of \<open>n\<close> steps without the block compiler does.  From
  the stop at the start of a run, a client that asks for \<open>n + 1\<close> steps and then ends the session
  finds the machine that such a run leaves: the first step executes nothing and only reaches the
  next stop, each later one executes one instruction with its ticks and interrupts.
\<close>

theorem gdb_single_step:
  assumes "active (gdb io)" "halted_for_gdb (gdb io)" "inp io = step_session (Suc n)" "n < unat max_steps"
    "run_steps_full_gc (ctx_of_globals ctx g (mach s)) (s\<lparr>jit := None\<rparr>) (of_nat n) = Some (of_nat n, s')"
  shows "\<exists>s'' io'. run_steps_full_gdb ctx g junk s max_steps (Some io) =
      Some (if halted (cpu (mach s')) then Resumes else Exits, of_nat n, s'', Some io') \<and> mach s'' = mach s'"
  by (rule run_gdb_steps [OF assms])

theorem gdb_single_step_witness:
  "\<exists>s'' io'. run_steps_full_gdb demo_ctx True [] demo_run 10 (Some (demo_dbg (step_session 2))) =
      Some (Exits, 1, s'', Some io') \<and> reg (mach s'') 0 = 5"
proof -
  obtain s' where s': "run_steps_full_gc gdb_ctx (demo_run\<lparr>jit := None\<rparr>) 1 = Some (1, s')" "reg (mach s') 0 = 5"
    "\<not> halted (cpu (mach s'))" using demo_one_step by blast
  have two: "step_session 2 = step_session (Suc 1)" by (simp only: numeral_2_eq_2 One_nat_def)
  have ten: "1 < unat (10 :: u64)" by simp
  have "run_steps_full_gc (ctx_of_globals demo_ctx True (mach demo_run)) (demo_run\<lparr>jit := None\<rparr>) (of_nat 1) = Some (of_nat 1, s')"
    using s'(1) by (simp add: gdb_ctx_def)
  from gdb_single_step [OF _ _ _ ten this, of "demo_dbg (step_session 2)" "[]"] two
  show ?thesis using s'(2,3) by auto
qed

text \<open>
  C31: breakpoints, as the test \<open>gdb_should_stop\<close> sees them, which the run makes between instructions
  and between chained runs of blocks, but not inside compiled code.  \<open>Z0\<close> adds the address to the
  list, unless 32 are set, which it answers with E16; then the test holds where it held before and,
  with the debugger active, at that address, and nowhere else.  \<open>z0\<close> takes one entry with the
  address away and no other; then the test holds for the entries that remain.  Neither touches the
  machine, nor whether the debugger is active or stepping.
\<close>

theorem gdb_breakpoints:
  assumes "\<forall>c\<in>set ds. is_hex c"
    "gdb_packet s m (put_str (asc ''Z0,'' @ ds @ asc '','' @ rest) pkt) = Some (e, s1, m1)"
    "gdb_packet s m (put_str (asc ''z0,'' @ ds @ asc '','' @ rest) pkt) = Some (e2, s2, m2)"
  shows "e = Goes_on \<and> m1 = m \<and> e2 = Goes_on \<and> m2 = m \<and>
    active (gdb s1) = active (gdb s) \<and> stepping (gdb s1) = stepping (gdb s) \<and>
    active (gdb s2) = active (gdb s) \<and> stepping (gdb s2) = stepping (gdb s) \<and>
    mset (bp (gdb s1)) = (if length (bp (gdb s)) < 32 then add_mset (hex_to_u32 ds) (mset (bp (gdb s))) else mset (bp (gdb s))) \<and>
    mset (bp (gdb s2)) = mset (bp (gdb s)) - {#hex_to_u32 ds#} \<and>
    (length (bp (gdb s)) < 32 \<longrightarrow> (gdb_should_stop (gdb s1) c \<longleftrightarrow>
        gdb_should_stop (gdb s) c \<or> active (gdb s) \<and> r_of c REG_PC = hex_to_u32 ds)) \<and>
    (\<not> length (bp (gdb s)) < 32 \<longrightarrow> gdb s1 = gdb s \<and> outp s1 = outp s @ frame (asc ''E16'')) \<and>
    (gdb_should_stop (gdb s2) c \<longleftrightarrow> active (gdb s) \<and>
       (stepping (gdb s) \<or> r_of c REG_PC \<in># mset (bp (gdb s)) - {#hex_to_u32 ds#}))"
  by (rule breakpoints [OF assms])

theorem gdb_breakpoints_witness:
  "\<exists>s1. gdb_packet (demo_dbg []) demo_machine (put_str (asc ''Z0,8,2'') []) = Some (Goes_on, s1, demo_machine) \<and>
    gdb_should_stop (gdb s1) (cpu demo_machine)"
proof -
  have ds: "\<forall>c\<in>set (asc ''8''). is_hex c" by (simp add: asc_def is_hex_def)
  have p: "asc ''Z0,8,2'' = asc ''Z0,'' @ asc ''8'' @ asc '','' @ asc ''2''" by (simp add: asc_def)
  have v: "hex_to_u32 (asc ''8'') = 8" by (simp add: hex_to_u32_def asc_def hex_digit_def word_le_nat_alt)
  obtain e s1 m1 where z: "gdb_packet (demo_dbg []) demo_machine (put_str (asc ''Z0,'' @ asc ''8'' @ asc '','' @ asc ''2'') []) = Some (e, s1, m1)"
    using set_bp_packet [OF ds] by auto
  obtain e2 s2 m2 where c: "gdb_packet (demo_dbg []) demo_machine (put_str (asc ''z0,'' @ asc ''8'' @ asc '','' @ asc ''2'') []) = Some (e2, s2, m2)"
    using clear_bp_packet [OF ds] by auto
  show ?thesis unfolding p using gdb_breakpoints [OF ds z c] z v demo_cpu(1) [of REG_PC] by simp
qed

section \<open>Snapshots compared\<close>

text \<open>
  C32: the report of \<open>tt_diff\<close> is exact: the ranges of SRAM it names cover the bytes that differ and
  no others, none of them can be extended at either end, a register is listed with both values
  exactly when they differ, and no line occurs twice.
\<close>

theorem diff_exact:
  "((\<exists>l\<in>set (tt_diff a b). in_line i l) \<longleftrightarrow> i < min (sram_size a) (sram_size b) \<and> sram a i \<noteq> sram b i) \<and>
   (D_SRAM x y n \<in> set (tt_diff a b) \<longrightarrow> n \<noteq> 0 \<and> y = x + n - 1 \<and>
      (x - SRAM_BASE_ADDR + n < min (sram_size a) (sram_size b) \<longrightarrow>
        sram a (x - SRAM_BASE_ADDR + n) = sram b (x - SRAM_BASE_ADDR + n)) \<and>
      (x - SRAM_BASE_ADDR \<noteq> 0 \<longrightarrow> sram a (x - SRAM_BASE_ADDR - 1) = sram b (x - SRAM_BASE_ADDR - 1))) \<and>
   (D_REG r v w \<in> set (tt_diff a b) \<longleftrightarrow>
      r < 16 \<and> v = r_of (sn_cpu a) (of_nat r) \<and> w = r_of (sn_cpu b) (of_nat r) \<and> v \<noteq> w) \<and>
   distinct (tt_diff a b)"
  by (intro conjI tt_diff_bytes tt_diff_regs tt_diff_distinct impI; (erule (1) tt_diff_ranges | erule tt_diff_ranges))

theorem diff_exact_witness:
  "(\<exists>l\<in>set (tt_diff demo_blob (demo_blob\<lparr>sram := (sram demo_blob)(7 := sram demo_blob 7 + 1)\<rparr>)). in_line 7 l) \<and>
   \<not> (\<exists>l\<in>set (tt_diff demo_blob (demo_blob\<lparr>sram := (sram demo_blob)(7 := sram demo_blob 7 + 1)\<rparr>)). in_line 8 l)"
  using diff_exact [of demo_blob "demo_blob\<lparr>sram := (sram demo_blob)(7 := sram demo_blob 7 + 1)\<rparr>" 7]
    diff_exact [of demo_blob "demo_blob\<lparr>sram := (sram demo_blob)(7 := sram demo_blob 7 + 1)\<rparr>" 8]
  by (simp add: demo_blob_fields)

section \<open>The kernel of the firmware\<close>

text \<open>
  C24: the scheduler is fair: starting from any thread, choosing the next one over and over reaches
  every ready thread within as many choices as there are threads.
\<close>

theorem scheduler_fair:
  assumes "kernel_ok k" "p < n_threads k" "q < n_threads k" "th_state (thr k (threads k ! q)) = 0"
  shows "\<exists>m. 0 < m \<and> m \<le> n_threads k \<and> (pick_next k ^^ m) (threads k ! p) = threads k ! q"
  by (rule pick_next_fair [OF assms])

theorem scheduler_fair_witness: "\<exists>m. 0 < m \<and> m \<le> 3 \<and> (pick_next demo_kernel ^^ m) 0x100 = 0x300"
  using scheduler_fair [of demo_kernel 0 2] demo_kernel_ok by simp

text \<open>
  C25: a thread that sleeps for \<open>d\<close> ticks is ready again after \<open>d\<close> ticks and not before, except that
  a sleep of no ticks lasts for one.
\<close>

theorem sleep_lasts:
  assumes "kernel_ok k" "p < n_threads k" "k_current k = threads k ! p"
  shows "th_state (thr ((systick_tick_c ^^ m) (k_sleep k d)) (threads k ! p)) = (if 0 < m \<and> unat d \<le> m then 0 else 1)"
  by (rule sleeper_wakes [OF assms])

theorem sleep_lasts_witness:
  "th_state (thr ((systick_tick_c ^^ 2) (k_sleep demo_kernel 3)) 0x100) = 1 \<and>
   th_state (thr ((systick_tick_c ^^ 3) (k_sleep demo_kernel 3)) 0x100) = 0"
  using sleep_lasts [of demo_kernel 0 2 3] sleep_lasts [of demo_kernel 0 3 3] demo_kernel_ok by simp

end
